(* ===== verification/Prelude.thy ===== *)
theory Prelude
  imports Main "HOL-Library.List_Lexorder" "HOL-Library.Char_ord"
begin

text \<open>
  Shared vocabulary of the development: results of fallible Go functions, 64-bit wrap-around,
  the functions of Go's \<^verbatim>\<open>strings\<close> package the sources call, and the few shapes of SQL statement the
  sources execute (select, update, delete, insert with a fresh row id). Strings are byte strings;
  white space and case mapping are those of ASCII.
\<close>

named_theorems sql_simps \<open>equations for the statements executed against a table\<close>
named_theorems str_simps \<open>definitions of the string functions, for evaluating closed terms\<close>

subsection \<open>Results\<close>

text \<open>A Go function returning \<^verbatim>\<open>(T, error)\<close> is a sum: \<open>Inl\<close> the error, \<open>Inr\<close> the value.\<close>

type_synonym ('e, 'a) result = "'e + 'a"

definition res_bind :: "('e, 'a) result \<Rightarrow> ('a \<Rightarrow> ('e, 'b) result) \<Rightarrow> ('e, 'b) result" where
  "res_bind r f = (case r of Inl e \<Rightarrow> Inl e | Inr a \<Rightarrow> f a)"

lemma res_bind_simps [simp]:
  "res_bind (Inl e) f = Inl e"
  "res_bind (Inr a) f = f a"
  by (simp_all add: res_bind_def)

lemma res_bind_eq_Inr [simp]:
  "res_bind r f = Inr b \<longleftrightarrow> (\<exists>a. r = Inr a \<and> f a = Inr b)"
  by (cases r) auto

lemma res_bind_eq_Inl [simp]:
  "res_bind r f = Inl e \<longleftrightarrow> r = Inl e \<or> (\<exists>a. r = Inr a \<and> f a = Inl e)"
  by (cases r) auto

text \<open>A Go loop that stops at the first error.\<close>

fun res_fold :: "('a \<Rightarrow> 's \<Rightarrow> ('e, 's) result) \<Rightarrow> 'a list \<Rightarrow> 's \<Rightarrow> ('e, 's) result" where
  "res_fold f [] s = Inr s"
| "res_fold f (x # xs) s = res_bind (f x s) (res_fold f xs)"

lemma res_fold_append: "res_fold f (xs @ ys) s = res_bind (res_fold f xs s) (res_fold f ys)"
  by (induction xs arbitrary: s) (auto simp: res_bind_def split: sum.splits)

lemma res_fold_invariant:
  assumes "res_fold f xs s = Inr s'" "I s"
    and "\<And>x t t'. x \<in> set xs \<Longrightarrow> I t \<Longrightarrow> f x t = Inr t' \<Longrightarrow> I t'"
  shows "I s'"
  using assms by (induction xs arbitrary: s) auto

subsection \<open>Machine integers\<close>

text \<open>The value a Go \<^verbatim>\<open>int64\<close> holds after an operation whose exact result is \<open>i\<close>.\<close>

definition wrap64 :: "int \<Rightarrow> int" where
  "wrap64 i = (i + 2 ^ 63) mod 2 ^ 64 - 2 ^ 63"

definition fits64 :: "int \<Rightarrow> bool" where
  "fits64 i \<longleftrightarrow> - (2 ^ 63) \<le> i \<and> i < 2 ^ 63"

lemma wrap64_id [simp]: "fits64 i \<Longrightarrow> wrap64 i = i"
  by (simp add: wrap64_def fits64_def)

lemma fits64_wrap64 [simp]: "fits64 (wrap64 i)"
proof -
  have "0 \<le> (i + 2 ^ 63) mod 2 ^ 64" and "(i + 2 ^ 63) mod 2 ^ 64 < 2 ^ 64"
    by simp_all
  then show ?thesis unfolding fits64_def wrap64_def by auto
qed

text \<open>Go's integer division truncates towards zero.\<close>

definition go_div :: "int \<Rightarrow> int \<Rightarrow> int" where
  "go_div a b = sgn a * sgn b * (\<bar>a\<bar> div \<bar>b\<bar>)"

lemma go_div_nonneg: "0 \<le> a \<Longrightarrow> 0 < b \<Longrightarrow> go_div a b = a div b"
  by (cases "a = 0") (auto simp: go_div_def)

subsection \<open>Strings\<close>

definition is_space :: "char \<Rightarrow> bool" where
  "is_space c \<longleftrightarrow> (let n = (of_char c :: nat) in n = 32 \<or> (9 \<le> n \<and> n \<le> 13))"

definition trim_space :: "string \<Rightarrow> string" where
  "trim_space s = rev (dropWhile is_space (rev (dropWhile is_space s)))"

definition lower_char :: "char \<Rightarrow> char" where
  "lower_char c = (let n = (of_char c :: nat) in if 65 \<le> n \<and> n \<le> 90 then char_of (n + 32) else c)"

definition to_lower :: "string \<Rightarrow> string" where
  "to_lower s = map lower_char s"

definition has_prefix :: "string \<Rightarrow> string \<Rightarrow> bool" where
  "has_prefix s p \<longleftrightarrow> take (length p) s = p"

definition has_suffix :: "string \<Rightarrow> string \<Rightarrow> bool" where
  "has_suffix s p \<longleftrightarrow> has_prefix (rev s) (rev p)"

fun str_contains :: "string \<Rightarrow> string \<Rightarrow> bool" where
  "str_contains [] sub \<longleftrightarrow> sub = []"
| "str_contains (c # cs) sub \<longleftrightarrow> has_prefix (c # cs) sub \<or> str_contains cs sub"

definition trim_right_char :: "char \<Rightarrow> string \<Rightarrow> string" where
  "trim_right_char c s = rev (dropWhile (\<lambda>x. x = c) (rev s))"

definition trim_prefix :: "string \<Rightarrow> string \<Rightarrow> string" where
  "trim_prefix s p = (if has_prefix s p then drop (length p) s else s)"

text \<open>\<^verbatim>\<open>strings.Split(s, sep)\<close> for a one-byte separator.\<close>

fun split_char :: "char \<Rightarrow> string \<Rightarrow> string list" where
  "split_char sep [] = [[]]"
| "split_char sep (c # cs) =
     (if c = sep then [] # split_char sep cs
      else (case split_char sep cs of [] \<Rightarrow> [[c]] | w # ws \<Rightarrow> (c # w) # ws))"

fun join_str :: "string \<Rightarrow> string list \<Rightarrow> string" where
  "join_str sep [] = []"
| "join_str sep [x] = x"
| "join_str sep (x # y # ys) = x @ sep @ join_str sep (y # ys)"

definition equal_fold :: "string \<Rightarrow> string \<Rightarrow> bool" where
  "equal_fold a b \<longleftrightarrow> to_lower a = to_lower b"

lemmas [str_simps] = is_space_def trim_space_def lower_char_def to_lower_def has_prefix_def
  has_suffix_def trim_right_char_def trim_prefix_def equal_fold_def Let_def

lemma lower_char_idem [simp]: "lower_char (lower_char c) = lower_char c"
proof (cases "65 \<le> (of_char c :: nat) \<and> (of_char c :: nat) \<le> 90")
  case True
  then have "(of_char (char_of ((of_char c :: nat) + 32)) :: nat) = of_char c + 32"
    by (simp add: of_char_of)
  with True show ?thesis by (simp add: lower_char_def Let_def)
next
  case False
  then show ?thesis by (auto simp: lower_char_def Let_def)
qed

lemma to_lower_idem [simp]: "to_lower (to_lower s) = to_lower s"
  by (simp add: to_lower_def)

lemma dropWhile_rev_dropWhile:
  "dropWhile P (rev (dropWhile P (rev (dropWhile P s)))) = rev (dropWhile P (rev (dropWhile P s)))"
proof -
  define t where "t = dropWhile P s"
  have hd: "t \<noteq> [] \<Longrightarrow> \<not> P (hd t)"
    by (simp add: t_def hd_dropWhile)
  have "dropWhile P (rev (dropWhile P (rev t))) = rev (dropWhile P (rev t))"
  proof (cases "rev (dropWhile P (rev t))")
    case (Cons a l)
    have "t = rev (dropWhile P (rev t)) @ rev (takeWhile P (rev t))"
      by (metis rev_append rev_rev_ident takeWhile_dropWhile_id)
    with Cons have "hd t = a" "t \<noteq> []" by (metis append_Cons list.sel(1), metis append_Cons list.distinct(1))
    with hd Cons show ?thesis by simp
  next
    case Nil
    then show ?thesis by (metis dropWhile.simps(1))
  qed
  then show ?thesis by (simp add: t_def)
qed

lemma trim_space_idem [simp]: "trim_space (trim_space s) = trim_space s"
  by (simp add: trim_space_def dropWhile_rev_dropWhile)

lemma split_char_neq_Nil [simp]: "split_char sep s \<noteq> []"
  by (induction s) (auto split: list.splits)

lemma split_char_no_sep: "w \<in> set (split_char sep s) \<Longrightarrow> sep \<notin> set w"
proof (induction s arbitrary: w)
  case (Cons c cs)
  show ?case
  proof (cases "split_char sep cs")
    case (Cons v vs)
    then have "sep \<notin> set v" "\<And>u. u \<in> set vs \<Longrightarrow> sep \<notin> set u"
      using Cons.IH by auto
    with Cons Cons.prems show ?thesis by (auto split: if_splits)
  qed simp
qed simp

lemma split_char_no_occ: "sep \<notin> set x \<Longrightarrow> split_char sep x = [x]"
  by (induction x) auto

lemma split_char_append:
  "sep \<notin> set x \<Longrightarrow> split_char sep (x @ sep # s) = x # split_char sep s"
  by (induction x) auto

text \<open>Splitting what \<^verbatim>\<open>strings.Join\<close> wrote gives the parts back.\<close>

lemma split_join:
  "xs \<noteq> [] \<Longrightarrow> (\<And>x. x \<in> set xs \<Longrightarrow> sep \<notin> set x) \<Longrightarrow> split_char sep (join_str [sep] xs) = xs"
proof (induction xs rule: induct_list012)
  case (3 x y ys)
  then show ?case by (simp add: split_char_append)
qed (simp_all add: split_char_no_occ)

lemma join_str_eq_Nil: "join_str [sep] xs = [] \<longleftrightarrow> xs = [] \<or> xs = [[]]"
  by (cases xs rule: remdups_adj.cases) auto

lemma has_prefix_append [simp]: "has_prefix (p @ s) p"
  by (simp add: has_prefix_def)

lemma has_prefix_iff: "has_prefix s p \<longleftrightarrow> (\<exists>t. s = p @ t)"
  unfolding has_prefix_def by (metis append_eq_conv_conj append_take_drop_id)

lemma has_suffix_iff: "has_suffix s p \<longleftrightarrow> (\<exists>t. s = t @ p)"
  unfolding has_suffix_def has_prefix_iff by (metis rev_append rev_rev_ident)

subsection \<open>SQL statements\<close>

text \<open>
  A table is the list of its rows in row-id order. SQLite gives a row inserted without an explicit
  \<^verbatim>\<open>INTEGER PRIMARY KEY\<close> the largest id in the table plus one.
\<close>

definition fresh_id :: "int list \<Rightarrow> int" where
  "fresh_id ids = foldr max ids 0 + 1"

definition upd_where :: "('r \<Rightarrow> bool) \<Rightarrow> ('r \<Rightarrow> 'r) \<Rightarrow> 'r list \<Rightarrow> 'r list" where
  "upd_where P f rs = map (\<lambda>r. if P r then f r else r) rs"

definition del_where :: "('r \<Rightarrow> bool) \<Rightarrow> 'r list \<Rightarrow> 'r list" where
  "del_where P rs = filter (\<lambda>r. \<not> P r) rs"

definition affected :: "('r \<Rightarrow> bool) \<Rightarrow> 'r list \<Rightarrow> nat" where
  "affected P rs = length (filter P rs)"

lemma fresh_id_gt: "i \<in> set ids \<Longrightarrow> i < fresh_id ids"
  unfolding fresh_id_def by (induction ids) auto

lemma fresh_id_notin [simp]: "fresh_id ids \<notin> set ids"
  using fresh_id_gt by blast

lemma fresh_id_pos [simp]: "0 < fresh_id ids"
proof -
  have "0 \<le> foldr max ids (0::int)" by (induction ids) auto
  then show ?thesis by (simp add: fresh_id_def)
qed

lemma set_upd_where [sql_simps]:
  "set (upd_where P f rs) = {f r | r. r \<in> set rs \<and> P r} \<union> {r \<in> set rs. \<not> P r}"
  by (auto simp: upd_where_def)

lemma set_del_where [simp]: "set (del_where P rs) = {r \<in> set rs. \<not> P r}"
  by (auto simp: del_where_def)

lemma length_upd_where [simp]: "length (upd_where P f rs) = length rs"
  by (simp add: upd_where_def)

lemma upd_where_Nil [simp]: "upd_where P f [] = []"
  by (simp add: upd_where_def)

lemma upd_where_none [simp]: "(\<And>r. r \<in> set rs \<Longrightarrow> \<not> P r) \<Longrightarrow> upd_where P f rs = rs"
  by (induction rs) (auto simp: upd_where_def)

lemma map_upd_where_same: "(\<And>r. g (f r) = g r) \<Longrightarrow> map g (upd_where P f rs) = map g rs"
  by (induction rs) (auto simp: upd_where_def)

lemma distinct_del_where [simp]: "distinct (map g rs) \<Longrightarrow> distinct (map g (del_where P rs))"
  by (simp add: del_where_def distinct_map_filter)

lemma affected_pos: "0 < affected P rs \<longleftrightarrow> (\<exists>r \<in> set rs. P r)"
  by (auto simp: affected_def filter_empty_conv)

lemma affected_unique:
  "distinct (map g rs) \<Longrightarrow> (\<And>r r'. P r \<Longrightarrow> P r' \<Longrightarrow> g r = g r') \<Longrightarrow> affected P rs \<le> 1"
proof (induction rs)
  case (Cons a rs)
  show ?case
  proof (cases "P a")
    case True
    have "\<not> P r" if "r \<in> set rs" for r
      using Cons.prems(1) Cons.prems(2) [OF True, of r] that by auto
    then have "filter P rs = []" by (simp add: filter_empty_conv)
    with True show ?thesis by (simp add: affected_def)
  next
    case False
    have "affected P rs \<le> 1"
      using Cons.IH [OF _ Cons.prems(2)] Cons.prems(1) by simp
    with False show ?thesis by (simp add: affected_def)
  qed
qed (simp add: affected_def)

text \<open>The first row a query yields, as \<^verbatim>\<open>QueryRow(\<dots>).Scan\<close> reads it.\<close>

definition first_row :: "('r \<Rightarrow> bool) \<Rightarrow> 'r list \<Rightarrow> 'r option" where
  "first_row P rs = List.find P rs"

lemma first_row_simps [simp]:
  "first_row P [] = None"
  "first_row P (r # rs) = (if P r then Some r else first_row P rs)"
  by (simp_all add: first_row_def)

lemma first_row_upd_where:
  "(\<And>r. P (f r) = P r) \<Longrightarrow>
     first_row P (upd_where Q f rs) = map_option (\<lambda>r. if Q r then f r else r) (first_row P rs)"
  by (induction rs) (auto simp: upd_where_def)

lemma first_row_del_where_other: "(\<And>r. P r \<Longrightarrow> \<not> Q r) \<Longrightarrow> first_row P (del_where Q rs) = first_row P rs"
  by (induction rs) (auto simp: del_where_def)

lemma first_row_del_where_same: "first_row P (del_where P rs) = None"
  by (induction rs) (auto simp: del_where_def)

lemma first_row_append:
  "first_row P (rs @ ss) = (case first_row P rs of None \<Rightarrow> first_row P ss | Some r \<Rightarrow> Some r)"
  by (induction rs) (auto simp: first_row_def)

lemma first_row_Some: "first_row P rs = Some r \<Longrightarrow> r \<in> set rs \<and> P r"
  by (auto simp: first_row_def find_Some_iff)

lemma first_row_None: "first_row P rs = None \<longleftrightarrow> (\<forall>r \<in> set rs. \<not> P r)"
  by (auto simp: first_row_def find_None_iff)

lemma first_row_unique:
  "distinct (map g rs) \<Longrightarrow> r \<in> set rs \<Longrightarrow> P r \<Longrightarrow>
     (\<And>x y. x \<in> set rs \<Longrightarrow> y \<in> set rs \<Longrightarrow> P x \<Longrightarrow> P y \<Longrightarrow> g x = g y) \<Longrightarrow> first_row P rs = Some r"
proof (induction rs)
  case (Cons a rs)
  show ?case
  proof (cases "P a")
    case True
    have "a = r"
    proof (rule ccontr)
      assume "a \<noteq> r"
      with Cons.prems have "r \<in> set rs" by auto
      with Cons.prems True have "g a = g r" by auto
      with Cons.prems \<open>r \<in> set rs\<close> show False by force
    qed
    with True show ?thesis by (simp add: first_row_def)
  next
    case False
    with Cons show ?thesis by (auto simp: first_row_def)
  qed
qed simp

lemma distinct_map_inj: "distinct (map g rs) \<Longrightarrow> r \<in> set rs \<Longrightarrow> r' \<in> set rs \<Longrightarrow> g r = g r' \<Longrightarrow> r = r'"
  by (simp add: distinct_map inj_on_def)

text \<open>\<^verbatim>\<open>\<dots> ORDER BY k DESC LIMIT 1\<close>\<close>

definition latest :: "('r \<Rightarrow> bool) \<Rightarrow> ('r \<Rightarrow> int) \<Rightarrow> 'r list \<Rightarrow> 'r option" where
  "latest P k rs = (case sort_key k (filter P rs) of [] \<Rightarrow> None | x # xs \<Rightarrow> Some (last (x # xs)))"

lemma latest_Some: "latest P k rs = Some r \<Longrightarrow> r \<in> set rs \<and> P r"
proof -
  assume *: "latest P k rs = Some r"
  then obtain x xs where s: "sort_key k (filter P rs) = x # xs" "r = last (x # xs)"
    by (auto simp: latest_def split: list.splits)
  then have "r \<in> set (sort_key k (filter P rs))" by (metis last_in_set list.distinct(1))
  then show ?thesis by simp
qed

lemma latest_None: "latest P k rs = None \<longleftrightarrow> (\<forall>r \<in> set rs. \<not> P r)"
proof -
  have "latest P k rs = None \<longleftrightarrow> sort_key k (filter P rs) = []"
    by (cases "sort_key k (filter P rs)") (simp_all add: latest_def)
  also have "\<dots> \<longleftrightarrow> set (sort_key k (filter P rs)) = {}" by (simp only: set_empty)
  finally show ?thesis by auto
qed

lemma latest_max:
  assumes "latest P k rs = Some r" "r' \<in> set rs" "P r'"
  shows "k r' \<le> k r"
proof -
  define ys where "ys = sort_key k (filter P rs)"
  have r: "r = last ys" "ys \<noteq> []" using assms(1) by (auto simp: latest_def ys_def split: list.splits)
  have so: "sorted (map k ys)" by (simp add: ys_def)
  have "r' \<in> set ys" using assms(2,3) by (simp add: ys_def)
  then obtain i where i: "i < length ys" "r' = ys ! i" by (metis in_set_conv_nth)
  then have "map k ys ! i \<le> map k ys ! (length ys - 1)" using so by (intro sorted_nth_mono) simp_all
  then show ?thesis using i r by (simp add: last_conv_nth)
qed

end
