(* ===== verification/Go_Time.thy ===== *)
theory Go_Time
  imports Prelude
begin

text \<open>
  Instants and their textual form. The sources write every timestamp with
  \<^verbatim>\<open>t.UTC().Format(time.RFC3339Nano)\<close> and let SQL compare the texts. This theory models that format
  (proleptic Gregorian calendar, trailing zeros of the fraction removed) and shows how far the
  order of the texts is the order of the instants: it is exact between different seconds and can be
  inverted inside one second.
\<close>

type_synonym instant = int \<comment> \<open>nanoseconds since 1970-01-01T00:00:00Z\<close>
type_synonym duration = int \<comment> \<open>nanoseconds, a Go \<^verbatim>\<open>time.Duration\<close>\<close>

abbreviation second :: duration where "second \<equiv> 1000000000"
abbreviation minute :: duration where "minute \<equiv> 60 * second"
abbreviation hour :: duration where "hour \<equiv> 60 * minute"

subsection \<open>Calendar\<close>

definition is_leap :: "int \<Rightarrow> bool" where
  "is_leap y \<longleftrightarrow> y mod 4 = 0 \<and> (y mod 100 \<noteq> 0 \<or> y mod 400 = 0)"

text \<open>Days from January 1 of year 0 to January 1 of year \<open>y\<close>.\<close>

definition days_before_year :: "int \<Rightarrow> int" where
  "days_before_year y = 365 * y + (y + 3) div 4 - (y + 99) div 100 + (y + 399) div 400"

definition year_of_day :: "int \<Rightarrow> int" where
  "year_of_day d =
     (let y = (400 * d) div 146097
      in if d < days_before_year y then y - 1
         else if days_before_year (y + 1) \<le> d then y + 1 else y)"

definition month_lengths :: "bool \<Rightarrow> int list" where
  "month_lengths leap = [31, if leap then 29 else 28, 31, 30, 31, 30, 31, 31, 30, 31, 30, 31]"

text \<open>Month (from 1) and day of the month (from 1) of a day of the year (from 0).\<close>

fun month_day :: "int list \<Rightarrow> int \<Rightarrow> int \<Rightarrow> int \<times> int" where
  "month_day [] m d = (m, d + 1)"
| "month_day [l] m d = (m, d + 1)"
| "month_day (l # ls) m d = (if d < l then (m, d + 1) else month_day ls (m + 1) (d - l))"

lemma div_le_self: "0 < k \<Longrightarrow> k * (x div k) \<le> x" for k x :: int
  using mult_div_mod_eq [of k x] pos_mod_sign [of k x] by linarith

lemma div_gt_self: "0 < k \<Longrightarrow> x < k * (x div k) + k" for k x :: int
  using mult_div_mod_eq [of k x] pos_mod_bound [of k x] by linarith

lemma less_div_mod:
  fixes a b k :: int
  assumes "0 < k"
  shows "a < b \<longleftrightarrow> a div k < b div k \<or> (a div k = b div k \<and> a mod k < b mod k)"
proof (cases "a div k" "b div k" rule: linorder_cases)
  case less
  then have "k * (a div k) + k \<le> k * (b div k)"
    using assms mult_left_mono [of "a div k + 1" "b div k" k] by (simp add: distrib_left)
  with less show ?thesis using div_gt_self [OF assms, of a] div_le_self [OF assms, of b] by linarith
next
  case equal
  then show ?thesis by (metis add_less_cancel_left mult_div_mod_eq order_less_irrefl)
next
  case greater
  then have "k * (b div k) + k \<le> k * (a div k)"
    using assms mult_left_mono [of "b div k + 1" "a div k" k] by (simp add: distrib_left)
  with greater show ?thesis using div_gt_self [OF assms, of b] div_le_self [OF assms, of a] by linarith
qed

text \<open>The clock reading (hours, minutes, seconds) of a second of the day grows with it.\<close>

lemma clock_mono:
  fixes r r' :: int
  assumes "r < r'"
  shows "r div 3600 < r' div 3600 \<or> (r div 3600 = r' div 3600 \<and>
      (r div 60 mod 60 < r' div 60 mod 60 \<or> (r div 60 mod 60 = r' div 60 mod 60 \<and> r mod 60 < r' mod 60)))"
proof -
  have eq: "r div 3600 = r div 60 div 60" "r' div 3600 = r' div 60 div 60"
    by (simp_all flip: zdiv_zmult2_eq)
  from assms consider "r div 60 < r' div 60" | "r div 60 = r' div 60" "r mod 60 < r' mod 60"
    unfolding less_div_mod [of 60 r r', OF zero_less_numeral] by blast
  then show ?thesis
  proof cases
    case 1
    then show ?thesis
      unfolding eq less_div_mod [of 60 "r div 60" "r' div 60", OF zero_less_numeral] by blast
  next
    case 2
    then show ?thesis unfolding eq by simp
  qed
qed

lemma ceil_div_step:
  fixes k j y :: int
  assumes "0 < k" "j = k - 1"
  shows "(y + 1 + j) div k - (y + j) div k = (if y mod k = 0 then 1 else 0)"
proof -
  have up: "(y + 1 + j) div k = y div k + 1" using assms div_add_self2 [of k y] by simp
  have "y + j = k * (y div k) + (y mod k + j)" by simp
  then have "(y + j) div k = y div k + (y mod k + j) div k"
    using assms by (metis div_mult_self2 mult.commute add.commute order_less_irrefl)
  moreover have "(y mod k + j) div k = (if y mod k = 0 then 0 else 1)"
  proof (cases "y mod k = 0")
    case False
    then have "0 < y mod k" "y mod k < k"
      using assms pos_mod_sign [of k y] pos_mod_bound [of k y] by linarith+
    then have "(y mod k - 1) div k = 0" by (intro div_pos_pos_trivial) linarith+
    moreover have "y mod k + j = (y mod k - 1) + k" using assms by simp
    ultimately show ?thesis using False assms by (metis div_add_self2 add.left_neutral order_less_irrefl)
  qed (use assms in simp)
  ultimately show ?thesis using up by simp
qed

lemma days_before_year_lower: "146097 * y - 396 \<le> 400 * days_before_year y"
  unfolding days_before_year_def
  using div_gt_self [of 4 "y + 3"] div_le_self [of 100 "y + 99"] div_gt_self [of 400 "y + 399"]
  by simp

lemma days_before_year_upper: "400 * days_before_year y \<le> 146097 * y + 699"
  unfolding days_before_year_def
  using div_le_self [of 4 "y + 3"] div_gt_self [of 100 "y + 99"] div_le_self [of 400 "y + 399"]
  by simp

lemma days_before_year_mono: "y < y' \<Longrightarrow> days_before_year y < days_before_year y'"
proof -
  assume "y < y'"
  have "(y + 3) div 4 \<le> (y' + 3) div 4" "(y + 399) div 400 \<le> (y' + 399) div 400"
    using \<open>y < y'\<close> by (simp_all add: zdiv_mono1)
  moreover have "(y' + 99) div 100 \<le> (y + 99) div 100 + (y' - y)"
    using \<open>y < y'\<close> by linarith
  ultimately show ?thesis unfolding days_before_year_def using \<open>y < y'\<close> by linarith
qed

lemma year_of_day_spec:
  "days_before_year (year_of_day d) \<le> d" "d < days_before_year (year_of_day d + 1)"
proof -
  define y where "y = (400 * d) div 146097"
  have y: "146097 * y \<le> 400 * d" "400 * d < 146097 * (y + 1)"
    using div_le_self [of 146097 "400 * d"] div_gt_self [of 146097 "400 * d"]
    unfolding y_def by simp_all
  have lo: "days_before_year (y - 1) \<le> d"
    using days_before_year_upper [of "y - 1"] y(1) by simp
  have hi: "d < days_before_year (y + 2)"
    using days_before_year_lower [of "y + 2"] y(2) by simp
  show "days_before_year (year_of_day d) \<le> d" "d < days_before_year (year_of_day d + 1)"
    using lo hi by (auto simp: year_of_day_def y_def [symmetric] Let_def add.assoc)
qed

lemma year_of_day_mono: "d \<le> d' \<Longrightarrow> year_of_day d \<le> year_of_day d'"
proof (rule ccontr)
  assume "d \<le> d'" "\<not> year_of_day d \<le> year_of_day d'"
  then have "days_before_year (year_of_day d' + 1) \<le> days_before_year (year_of_day d)"
    using days_before_year_mono [of "year_of_day d' + 1" "year_of_day d"]
    by (cases "year_of_day d' + 1 = year_of_day d") auto
  with year_of_day_spec [of d] year_of_day_spec [of d'] \<open>d \<le> d'\<close> show False by linarith
qed

lemma month_day_mono:
  assumes "d < d'" "\<forall>l \<in> set ls. 0 < l" "0 \<le> d"
  shows "fst (month_day ls m d) < fst (month_day ls m d') \<or>
    fst (month_day ls m d) = fst (month_day ls m d') \<and> snd (month_day ls m d) < snd (month_day ls m d')"
  using assms
proof (induction ls m d arbitrary: d' rule: month_day.induct)
  case (3 l l' ls m d)
  have ge: "m \<le> fst (month_day ls m d)" for ls m d
    by (induction ls m d rule: month_day.induct) auto
  show ?case
  proof (cases "d < l")
    case True
    show ?thesis
      using True "3.prems" ge [of "m + 1" "l' # ls" "d' - l"] by auto
  next
    case False
    then show ?thesis using "3.IH" [OF False, of "d' - l"] "3.prems" by auto
  qed
qed auto

lemma month_day_bounds:
  assumes "0 \<le> d" "d < sum_list (month_lengths leap)"
  shows "1 \<le> fst (month_day (month_lengths leap) 1 d)" "fst (month_day (month_lengths leap) 1 d) \<le> 12"
    "1 \<le> snd (month_day (month_lengths leap) 1 d)" "snd (month_day (month_lengths leap) 1 d) \<le> 31"
  using assms by (cases leap; auto simp: month_lengths_def)+

lemma days_before_year_Suc:
  "days_before_year (y + 1) - days_before_year y = sum_list (month_lengths (is_leap y))"
proof -
  have "(y + 1 + 3) div 4 - (y + 3) div 4 = (if y mod 4 = 0 then 1 else 0)"
    "(y + 1 + 99) div 100 - (y + 99) div 100 = (if y mod 100 = 0 then 1 else 0)"
    "(y + 1 + 399) div 400 - (y + 399) div 400 = (if y mod 400 = 0 then 1 else 0)"
    by (rule ceil_div_step; simp)+
  then have "days_before_year (y + 1) - days_before_year y = 365 + (if y mod 4 = 0 then 1 else 0)
      - (if y mod 100 = 0 then 1 else 0) + (if y mod 400 = 0 then 1 else 0)"
    unfolding days_before_year_def by (simp only: distrib_left)
  moreover have "y mod 400 = 0 \<Longrightarrow> y mod 100 = 0" "y mod 100 = 0 \<Longrightarrow> y mod 4 = 0"
    using mod_mod_cancel [of 100 400 y] mod_mod_cancel [of 4 100 y] by simp_all
  ultimately show ?thesis
    by (cases "y mod 4 = 0"; cases "y mod 100 = 0"; cases "y mod 400 = 0")
      (simp_all add: is_leap_def month_lengths_def)
qed

subsection \<open>Decimal digits\<close>

definition digit :: "nat \<Rightarrow> char" where
  "digit n = char_of (48 + n)"

fun string_of_nat :: "nat \<Rightarrow> string" where
  "string_of_nat n = (if n < 10 then [digit n] else string_of_nat (n div 10) @ [digit (n mod 10)])"

declare string_of_nat.simps [simp del]

text \<open>Go's \<^verbatim>\<open>appendInt\<close>: the decimal digits, padded with zeros to at least \<open>w\<close> places.\<close>

definition append_int :: "int \<Rightarrow> nat \<Rightarrow> string" where
  "append_int x w =
     (let s = string_of_nat (nat \<bar>x\<bar>); p = replicate (w - length s) (digit 0) @ s
      in if x < 0 then CHR ''-'' # p else p)"

fun fixed_digits :: "nat \<Rightarrow> nat \<Rightarrow> string" where
  "fixed_digits 0 n = []"
| "fixed_digits (Suc w) n = fixed_digits w (n div 10) @ [digit (n mod 10)]"

lemma length_fixed_digits [simp]: "length (fixed_digits w n) = w"
  by (induction w arbitrary: n) auto

lemma fixed_digits_zero [simp]: "fixed_digits w 0 = replicate w (digit 0)"
  by (induction w) (auto simp: replicate_append_same)

lemma append_nat_fixed:
  "n < 10 ^ w \<Longrightarrow> 0 < w \<Longrightarrow>
     replicate (w - length (string_of_nat n)) (digit 0) @ string_of_nat n = fixed_digits w n"
proof (induction w arbitrary: n)
  case (Suc w)
  show ?case
  proof (cases "n < 10")
    case True
    then show ?thesis by (simp add: string_of_nat.simps)
  next
    case False
    with Suc.prems have "n div 10 < 10 ^ w" "0 < w"
      by (auto intro: gr0I)
    from Suc.IH [OF this] False show ?thesis by (simp add: string_of_nat.simps [of n])
  qed
qed simp

lemma append_int_fixed: "0 \<le> x \<Longrightarrow> x < 10 ^ w \<Longrightarrow> 0 < w \<Longrightarrow> append_int x w = fixed_digits w (nat x)"
  using append_nat_fixed [of "nat x" w]
  by (simp add: append_int_def Let_def nat_less_iff)

lemma digit_less_iff [simp]: "m < 10 \<Longrightarrow> n < 10 \<Longrightarrow> digit m < digit n \<longleftrightarrow> m < n"
  by (simp add: digit_def less_char_def of_char_of)

lemma digit_eq_iff [simp]: "m < 10 \<Longrightarrow> n < 10 \<Longrightarrow> digit m = digit n \<longleftrightarrow> m = n"
  by (metis digit_less_iff linorder_neqE_nat order_less_irrefl)

text \<open>Lists of equal length compare by their first difference.\<close>

lemma append_less_iff:
  "length a = length b \<Longrightarrow> a @ x < b @ (y :: string) \<longleftrightarrow> a < b \<or> (a = b \<and> x < y)"
  by (induction a b rule: list_induct2) auto

lemma less_div_mod_10: "(m::nat) < n \<longleftrightarrow> m div 10 < n div 10 \<or> (m div 10 = n div 10 \<and> m mod 10 < n mod 10)"
proof -
  have "int m div 10 = int (m div 10)" "int n div 10 = int (n div 10)"
    "int m mod 10 = int (m mod 10)" "int n mod 10 = int (n mod 10)"
    by (simp_all add: zdiv_int zmod_int)
  then show ?thesis using less_div_mod [of 10 "int m" "int n"] by simp
qed

lemma fixed_digits_less_iff:
  "m < 10 ^ w \<Longrightarrow> n < 10 ^ w \<Longrightarrow> fixed_digits w m < fixed_digits w n \<longleftrightarrow> m < n"
proof (induction w arbitrary: m n)
  case (Suc w)
  then have "m div 10 < 10 ^ w" "n div 10 < 10 ^ w" by auto
  note IH = Suc.IH [OF this] Suc.IH [OF this(2,1)]
  have eq: "fixed_digits w (m div 10) = fixed_digits w (n div 10) \<longleftrightarrow> m div 10 = n div 10"
    using IH by (metis linorder_neqE_nat order_less_irrefl)
  show ?case using IH(1) eq less_div_mod_10 [of m n] by (simp add: append_less_iff)
qed simp

lemma fixed_digits_eq_iff:
  "m < 10 ^ w \<Longrightarrow> n < 10 ^ w \<Longrightarrow> fixed_digits w m = fixed_digits w n \<longleftrightarrow> m = n"
  by (metis fixed_digits_less_iff linorder_neqE_nat order_less_irrefl)

lemma append_int_less_iff:
  "0 \<le> x \<Longrightarrow> x < 10 ^ w \<Longrightarrow> 0 \<le> y \<Longrightarrow> y < 10 ^ w \<Longrightarrow> 0 < w \<Longrightarrow>
     append_int x w < append_int y w \<longleftrightarrow> x < y"
  by (auto simp: append_int_fixed fixed_digits_less_iff nat_less_iff)

lemma append_int_eq_iff:
  "0 \<le> x \<Longrightarrow> x < 10 ^ w \<Longrightarrow> 0 \<le> y \<Longrightarrow> y < 10 ^ w \<Longrightarrow> 0 < w \<Longrightarrow>
     append_int x w = append_int y w \<longleftrightarrow> x = y"
  using append_int_less_iff [of x w y] append_int_less_iff [of y w x]
  by (metis linorder_neqE_linordered_idom order_less_irrefl)

lemma length_append_int: "0 \<le> x \<Longrightarrow> x < 10 ^ w \<Longrightarrow> 0 < w \<Longrightarrow> length (append_int x w) = w"
  by (simp add: append_int_fixed)

subsection \<open>The RFC3339Nano format\<close>

definition secs :: "instant \<Rightarrow> int" where
  "secs t = t div second"

definition nanos :: "instant \<Rightarrow> nat" where
  "nanos t = nat (t mod second)"

text \<open>Days since January 1 of year 0 (1970-01-01 is day 719528).\<close>

definition day_of :: "int \<Rightarrow> int" where
  "day_of s = s div 86400 + 719528"

definition date_of :: "int \<Rightarrow> int \<times> int \<times> int" where
  "date_of d = (let y = year_of_day d; (m, md) = month_day (month_lengths (is_leap y)) 1 (d - days_before_year y)
                in (y, m, md))"

definition date_time_text :: "int \<Rightarrow> string" where
  "date_time_text s =
     (let (y, m, d) = date_of (day_of s); r = s mod 86400
      in append_int y 4 @ ''-'' @ append_int m 2 @ ''-'' @ append_int d 2 @ ''T'' @
         append_int (r div 3600) 2 @ '':'' @ append_int (r div 60 mod 60) 2 @ '':'' @
         append_int (r mod 60) 2)"

definition fraction_text :: "nat \<Rightarrow> string" where
  "fraction_text n =
     (if n = 0 then [] else CHR ''.'' # rev (dropWhile (\<lambda>c. c = digit 0) (rev (fixed_digits 9 n))))"

definition format_nano :: "instant \<Rightarrow> string" where
  "format_nano t = date_time_text (secs t) @ fraction_text (nanos t) @ ''Z''"

text \<open>Instants whose year has four digits.\<close>

definition four_digit_year :: "instant \<Rightarrow> bool" where
  "four_digit_year t \<longleftrightarrow> (let y = year_of_day (day_of (secs t)) in 0 \<le> y \<and> y \<le> 9999)"

lemma date_of_bounds:
  assumes "date_of d = (y, m, md)"
  shows "y = year_of_day d" "1 \<le> m" "m \<le> 12" "1 \<le> md" "md \<le> 31"
proof -
  have "0 \<le> d - days_before_year (year_of_day d)"
    "d - days_before_year (year_of_day d) < sum_list (month_lengths (is_leap (year_of_day d)))"
    using year_of_day_spec [of d] days_before_year_Suc [of "year_of_day d"] by linarith+
  from month_day_bounds [OF this] assms show "y = year_of_day d" "1 \<le> m" "m \<le> 12" "1 \<le> md" "md \<le> 31"
    by (auto simp: date_of_def Let_def split: prod.splits)
qed

lemma date_of_mono:
  assumes "d < d'" "date_of d = (y, m, md)" "date_of d' = (y', m', md')"
  shows "y < y' \<or> (y = y' \<and> (m < m' \<or> (m = m' \<and> md < md')))"
proof (cases "y < y'")
  case False
  with assms year_of_day_mono [of d d'] have y: "y' = y" "y = year_of_day d" "year_of_day d' = y"
    using date_of_bounds(1) [OF assms(2)] date_of_bounds(1) [OF assms(3)] by auto
  have pos: "\<forall>l \<in> set (month_lengths (is_leap y)). 0 < l"
    by (auto simp: month_lengths_def)
  have "0 \<le> d - days_before_year y" using year_of_day_spec(1) [of d] y by simp
  from month_day_mono [OF _ pos this, of "d' - days_before_year y" 1] assms y
  show ?thesis by (auto simp: date_of_def Let_def split: prod.splits)
qed simp

lemma date_time_text_less:
  assumes "s < s'" "0 \<le> year_of_day (day_of s)" "year_of_day (day_of s') \<le> 9999"
  shows "date_time_text s < date_time_text s'" (is ?less)
    and "length (date_time_text s) = length (date_time_text s')" (is ?len)
proof -
  obtain y m d where D: "date_of (day_of s) = (y, m, d)" by (cases "date_of (day_of s)")
  obtain y' m' d' where D': "date_of (day_of s') = (y', m', d')" by (cases "date_of (day_of s')")
  note B = date_of_bounds [OF D] date_of_bounds [OF D']
  have le: "day_of s \<le> day_of s'" using assms(1) by (simp add: day_of_def zdiv_mono1)
  then have "year_of_day (day_of s) \<le> year_of_day (day_of s')" by (rule year_of_day_mono)
  with assms B have Y: "0 \<le> y" "y < 10 ^ 4" "0 \<le> y'" "y' < 10 ^ 4" by simp_all
  define r r' where "r = s mod 86400" and "r' = s' mod 86400"
  have R: "0 \<le> r" "r < 86400" "0 \<le> r'" "r' < 86400" by (simp_all add: r_def r'_def)
  have T: "0 \<le> r div 3600" "r div 3600 < 10 ^ 2" "0 \<le> r' div 3600" "r' div 3600 < 10 ^ 2"
    "0 \<le> r mod 60" "r mod 60 < 10 ^ 2" "0 \<le> r' mod 60" "r' mod 60 < 10 ^ 2"
    "0 \<le> r div 60 mod 60" "r div 60 mod 60 < 10 ^ 2" "0 \<le> r' div 60 mod 60" "r' div 60 mod 60 < 10 ^ 2"
    using R by simp_all
  have M: "0 \<le> m" "m < 10 ^ 2" "0 \<le> m'" "m' < 10 ^ 2" "0 \<le> d" "d < 10 ^ 2" "0 \<le> d'" "d' < 10 ^ 2"
    using B by simp_all
  have day: "day_of s = day_of s' \<and> r < r' \<or> day_of s < day_of s'"
    using assms(1) less_div_mod [of 86400 s s'] unfolding day_of_def r_def r'_def by auto
  have hms: "r < r' \<Longrightarrow> r div 3600 < r' div 3600 \<or> (r div 3600 = r' div 3600 \<and>
      (r div 60 mod 60 < r' div 60 mod 60 \<or> (r div 60 mod 60 = r' div 60 mod 60 \<and> r mod 60 < r' mod 60)))"
    by (rule clock_mono)
  note len = length_append_int [OF Y(1,2)] length_append_int [OF Y(3,4)]
    length_append_int [OF M(1,2)] length_append_int [OF M(3,4)] length_append_int [OF M(5,6)]
    length_append_int [OF M(7,8)] length_append_int [OF T(1,2)] length_append_int [OF T(3,4)]
    length_append_int [OF T(5,6)] length_append_int [OF T(7,8)] length_append_int [OF T(9,10)]
    length_append_int [OF T(11,12)]
  show ?len
    unfolding date_time_text_def Let_def D D' r_def [symmetric] r'_def [symmetric] prod.case
    by (simp add: len)
  have "day_of s < day_of s' \<Longrightarrow> y < y' \<or> (y = y' \<and> (m < m' \<or> (m = m' \<and> d < d')))"
    using date_of_mono [OF _ D D'] .
  moreover have "day_of s = day_of s' \<Longrightarrow> y = y' \<and> m = m' \<and> d = d'" using D D' by simp
  moreover have "date_time_text s < date_time_text s' \<longleftrightarrow>
      y < y' \<or> y = y' \<and> (m < m' \<or> m = m' \<and> (d < d' \<or> d = d' \<and> (r div 3600 < r' div 3600 \<or>
        r div 3600 = r' div 3600 \<and> (r div 60 mod 60 < r' div 60 mod 60 \<or>
          r div 60 mod 60 = r' div 60 mod 60 \<and> r mod 60 < r' mod 60))))"
    unfolding date_time_text_def Let_def D D' r_def [symmetric] r'_def [symmetric] prod.case
    by (simp add: append_less_iff len append_int_less_iff [OF Y] append_int_less_iff [OF M(1-4)]
        append_int_less_iff [OF M(5-8)] append_int_less_iff [OF T(1-4)] append_int_less_iff [OF T(5-8)]
        append_int_less_iff [OF T(9-12)] append_int_eq_iff [OF Y] append_int_eq_iff [OF M(1-4)]
        append_int_eq_iff [OF M(5-8)] append_int_eq_iff [OF T(1-4)] append_int_eq_iff [OF T(9-12)])
  ultimately show ?less using day hms by blast
qed

lemma dropWhile_zero_rev_nonempty:
  "n \<noteq> 0 \<Longrightarrow> n < 10 ^ w \<Longrightarrow> dropWhile (\<lambda>c. c = digit 0) (rev (fixed_digits w n)) \<noteq> []"
proof
  assume "n \<noteq> 0" "n < 10 ^ w" "dropWhile (\<lambda>c. c = digit 0) (rev (fixed_digits w n)) = []"
  then have "\<forall>c \<in> set (fixed_digits w n). c = digit 0" by (simp add: dropWhile_eq_Nil_conv)
  then have "fixed_digits w n = fixed_digits w 0"
    by (simp add: replicate_eqI)
  with fixed_digits_eq_iff [of n w 0] \<open>n < 10 ^ w\<close> \<open>n \<noteq> 0\<close> show False by simp
qed

text \<open>Between different seconds the order of the texts is the order of the instants.\<close>

lemma format_nano_less:
  assumes "secs t < secs t'" "four_digit_year t" "four_digit_year t'"
  shows "format_nano t < format_nano t'"
  using date_time_text_less [OF assms(1)] assms(2,3)
  by (simp add: format_nano_def four_digit_year_def Let_def append_less_iff)

lemma format_nano_le_imp:
  assumes "format_nano t \<le> format_nano t'" "four_digit_year t" "four_digit_year t'"
  shows "t < t' + second"
proof -
  have "secs t \<le> secs t'"
    using assms format_nano_less [of t' t] by (meson not_le order_less_le_trans order_less_irrefl)
  then have "secs t * second \<le> secs t' * second" by simp
  then show ?thesis
    using div_le_self [of second t'] div_gt_self [of second t] by (simp add: secs_def)
qed

lemma le_imp_format_nano_le:
  assumes "t + second \<le> t'" "four_digit_year t" "four_digit_year t'"
  shows "format_nano t < format_nano t'"
proof -
  have "(t + second) div second \<le> t' div second" using assms(1) by (rule zdiv_mono1) simp
  then have "secs t < secs t'" using div_add_self2 [of second t] by (simp add: secs_def)
  with assms show ?thesis by (simp add: format_nano_less)
qed

text \<open>Inside one second the order can be inverted: half a second past is written with a
  \<open>.\<close>, which sorts before the \<open>Z\<close> that ends a whole second.\<close>

lemma format_nano_same_second:
  "secs t = secs t' \<Longrightarrow> format_nano t < format_nano t' \<longleftrightarrow>
     fraction_text (nanos t) @ ''Z'' < fraction_text (nanos t') @ ''Z''"
  by (simp add: format_nano_def append_less_iff)

lemma format_nano_inverted:
  assumes "t mod second = 0" "0 < d" "d < second"
  shows "format_nano (t + d) < format_nano t"
proof -
  have s: "secs (t + d) = secs t" and n: "nanos t = 0" "nanos (t + d) = nat d"
    using assms by (auto simp: secs_def nanos_def div_add1_eq mod_add_eq [symmetric])
  have "fraction_text (nat d) @ ''Z'' < ''Z''"
    using assms(2) by (simp add: fraction_text_def)
  with s n show ?thesis by (simp add: format_nano_same_second fraction_text_def)
qed

subsection \<open>Evaluation\<close>

lemma digit_chars:
  "digit 0 = CHR ''0''" "digit (Suc 0) = CHR ''1''" "digit 1 = CHR ''1''" "digit 2 = CHR ''2''" "digit 3 = CHR ''3''"
  "digit 4 = CHR ''4''" "digit 5 = CHR ''5''" "digit 6 = CHR ''6''" "digit 7 = CHR ''7''"
  "digit 8 = CHR ''8''" "digit 9 = CHR ''9''"
  by (simp_all add: digit_def char_of_def bit_0)

lemma fixed_digits_numeral:
  "fixed_digits (numeral k) n = fixed_digits (pred_numeral k) (n div 10) @ [digit (n mod 10)]"
  by (subst numeral_eq_Suc) simp

lemmas time_simps = format_nano_def date_time_text_def secs_def nanos_def date_of_def day_of_def
  year_of_day_def days_before_year_def is_leap_def month_lengths_def append_int_def string_of_nat.simps
  fraction_text_def Let_def digit_chars fixed_digits_numeral four_digit_year_def

lemma format_nano_example: "format_nano 1700000000500000000 = ''2023-11-14T22:13:20.5Z''"
  by (simp add: time_simps)

end
