(* ===== verification/Tables.thy ===== *)
theory Tables
  imports Go_Time
begin

text \<open>
  The relational schema of \<^verbatim>\<open>internal/store/store.go\<close>, for the tables of the fleet (organizations,
  groups, sites and everything that belongs to a site), the alerting outbox, the scheduler claims and
  the accounts. A table is the list of its rows; an operation that the schema's UNIQUE and
  REFERENCES clauses would reject returns an error and changes nothing. \<open>db_ok\<close> collects those
  clauses as an invariant, and every statement used by the components preserves it.
\<close>

datatype sql_error = UniqueViolation | ForeignKeyViolation | NoRows

subsection \<open>Rows\<close>

record org_row =
  org_id :: int
  org_name :: string

record group_row =
  grp_id :: int
  grp_org :: int
  grp_name :: string
  grp_created :: string
  grp_cluster :: "string option"

record site_row =
  site_id :: int
  site_org :: int
  site_name :: string
  site_url :: string
  site_enabled :: bool
  site_group :: "int option"
  site_archived :: "string option"
  site_created :: string
  site_updated :: string
  site_cluster :: "string option"

record monitor_row =
  mon_id :: int
  mon_site :: int
  mon_kind :: string
  mon_timeout :: int
  mon_min :: int
  mon_max :: int
  mon_created :: string

record health_row =
  hl_site :: int
  hl_state :: string
  hl_fails :: int
  hl_last_check :: "int option"
  hl_change :: string
  hl_success :: "string option"
  hl_failure :: "string option"

record header_row =
  hx_id :: int
  hx_site :: int
  hx_name :: string
  hx_required :: bool

record tag_row =
  tag_site :: int
  tag_text :: string

record check_row =
  chk_id :: int
  chk_site :: int
  chk_monitor :: int
  chk_ok :: bool
  chk_status :: int
  chk_latency :: int
  chk_bytes :: int
  chk_final_url :: string
  chk_error_class :: string
  chk_error :: string
  chk_at :: string

record http_obs_row =
  ho_id :: int
  ho_site :: int
  ho_check :: int
  ho_chain :: "string list"
  ho_headers :: "(string \<times> string) list"
  ho_missing :: string
  ho_changed :: bool
  ho_at :: string

record incident_row =
  inc_id :: int
  inc_site :: int
  inc_state :: string
  inc_summary :: string
  inc_opened :: string
  inc_closed :: "string option"
  inc_ack :: "string option"

record alert_row =
  al_id :: int
  al_incident :: int
  al_site :: int
  al_transport :: string
  al_kind :: string
  al_status :: string
  al_created :: string

record webhook_row =
  wh_id :: int
  wh_org :: int
  wh_name :: string
  wh_url :: string
  wh_secret :: string
  wh_enabled :: bool
  wh_created :: string

text \<open>The JSON object \<^verbatim>\<open>enqueueWebhooks\<close> marshals into \<^verbatim>\<open>payload_json\<close>.\<close>

record event_payload =
  ep_site :: int
  ep_incident :: int
  ep_state :: string
  ep_summary :: string
  ep_at :: string

record delivery_row =
  nd_id :: int
  nd_webhook :: int
  nd_kind :: string
  nd_status :: string
  nd_payload :: event_payload
  nd_attempts :: int
  nd_code :: int
  nd_error :: string
  nd_created :: string
  nd_delivered :: "string option"

record claim_row =
  cl_kind :: string
  cl_site :: int
  cl_next_due :: string
  cl_owner :: string
  cl_generation :: int
  cl_lease :: string

record db =
  db_orgs :: "org_row list"
  db_groups :: "group_row list"
  db_sites :: "site_row list"
  db_monitors :: "monitor_row list"
  db_health :: "health_row list"
  db_headers :: "header_row list"
  db_tags :: "tag_row list"
  db_checks :: "check_row list"
  db_http_obs :: "http_obs_row list"
  db_incidents :: "incident_row list"
  db_alerts :: "alert_row list"
  db_webhooks :: "webhook_row list"
  db_deliveries :: "delivery_row list"
  db_claims :: "claim_row list"
  db_meta :: "string \<rightharpoonup> string"

text \<open>A database on which only the migrations have run: the bootstrap organization of migration 1.\<close>

definition init_db :: db where
  "init_db = \<lparr>db_orgs = [\<lparr>org_id = 1, org_name = ''My Web Fleet''\<rparr>], db_groups = [], db_sites = [],
     db_monitors = [], db_health = [], db_headers = [], db_tags = [], db_checks = [], db_http_obs = [],
     db_incidents = [], db_alerts = [], db_webhooks = [], db_deliveries = [], db_claims = [],
     db_meta = Map.empty\<rparr>"

abbreviation org_ids :: "db \<Rightarrow> int list" where "org_ids d \<equiv> map org_id (db_orgs d)"
abbreviation group_ids :: "db \<Rightarrow> int list" where "group_ids d \<equiv> map grp_id (db_groups d)"
abbreviation site_ids :: "db \<Rightarrow> int list" where "site_ids d \<equiv> map site_id (db_sites d)"

subsection \<open>Integrity\<close>

text \<open>Values of a partial unique index: the rows whose column is not NULL.\<close>

definition indexed :: "('r \<Rightarrow> 'k option) \<Rightarrow> 'r list \<Rightarrow> 'k list" where
  "indexed f rs = List.map_filter f rs"

text \<open>One predicate per table, over the keys of the tables it references.\<close>

definition groups_ok :: "int set \<Rightarrow> group_row list \<Rightarrow> bool" where
  "groups_ok orgs gs \<longleftrightarrow> distinct (map grp_id gs) \<and> distinct (map (\<lambda>g. (grp_org g, grp_name g)) gs) \<and>
     distinct (indexed grp_cluster gs) \<and> (\<forall>g \<in> set gs. grp_org g \<in> orgs)"

definition sites_ok :: "int set \<Rightarrow> int set \<Rightarrow> site_row list \<Rightarrow> bool" where
  "sites_ok orgs groups ss \<longleftrightarrow> distinct (map site_id ss) \<and> distinct (indexed site_cluster ss) \<and>
     (\<forall>s \<in> set ss. site_org s \<in> orgs \<and> (case site_group s of None \<Rightarrow> True | Some g \<Rightarrow> g \<in> groups))"

definition monitors_ok :: "int set \<Rightarrow> monitor_row list \<Rightarrow> bool" where
  "monitors_ok sites ms \<longleftrightarrow> distinct (map mon_id ms) \<and> distinct (map (\<lambda>m. (mon_site m, mon_kind m)) ms) \<and>
     (\<forall>m \<in> set ms. mon_site m \<in> sites)"

definition health_ok :: "int set \<Rightarrow> health_row list \<Rightarrow> bool" where
  "health_ok sites hs \<longleftrightarrow> distinct (map hl_site hs) \<and> (\<forall>h \<in> set hs. hl_site h \<in> sites)"

definition headers_ok :: "int set \<Rightarrow> header_row list \<Rightarrow> bool" where
  "headers_ok sites hs \<longleftrightarrow> distinct (map (\<lambda>h. (hx_site h, hx_name h)) hs) \<and> (\<forall>h \<in> set hs. hx_site h \<in> sites)"

definition tags_ok :: "int set \<Rightarrow> tag_row list \<Rightarrow> bool" where
  "tags_ok sites ts \<longleftrightarrow> distinct (map (\<lambda>t. (tag_site t, tag_text t)) ts) \<and> (\<forall>t \<in> set ts. tag_site t \<in> sites)"

definition checks_ok :: "int set \<Rightarrow> int set \<Rightarrow> check_row list \<Rightarrow> bool" where
  "checks_ok sites mons cs \<longleftrightarrow> distinct (map chk_id cs) \<and>
     (\<forall>c \<in> set cs. chk_site c \<in> sites \<and> chk_monitor c \<in> mons)"

definition http_obs_ok :: "int set \<Rightarrow> int set \<Rightarrow> http_obs_row list \<Rightarrow> bool" where
  "http_obs_ok sites checks xs \<longleftrightarrow> (\<forall>x \<in> set xs. ho_site x \<in> sites \<and> ho_check x \<in> checks)"

definition incidents_ok :: "int set \<Rightarrow> incident_row list \<Rightarrow> bool" where
  "incidents_ok sites is \<longleftrightarrow> distinct (map inc_id is) \<and> (\<forall>i \<in> set is. inc_site i \<in> sites)"

definition alerts_ok :: "int set \<Rightarrow> int set \<Rightarrow> alert_row list \<Rightarrow> bool" where
  "alerts_ok sites incs as \<longleftrightarrow> (\<forall>a \<in> set as. al_site a \<in> sites \<and> al_incident a \<in> incs)"

definition webhooks_ok :: "int set \<Rightarrow> webhook_row list \<Rightarrow> bool" where
  "webhooks_ok orgs ws \<longleftrightarrow> distinct (map wh_id ws) \<and> (\<forall>w \<in> set ws. wh_org w \<in> orgs)"

definition deliveries_ok :: "int set \<Rightarrow> delivery_row list \<Rightarrow> bool" where
  "deliveries_ok hooks ns \<longleftrightarrow> distinct (map nd_id ns) \<and> (\<forall>n \<in> set ns. nd_webhook n \<in> hooks)"

definition db_ok :: "db \<Rightarrow> bool" where
  "db_ok d \<longleftrightarrow> distinct (org_ids d) \<and>
     groups_ok (set (org_ids d)) (db_groups d) \<and>
     sites_ok (set (org_ids d)) (set (group_ids d)) (db_sites d) \<and>
     monitors_ok (set (site_ids d)) (db_monitors d) \<and>
     health_ok (set (site_ids d)) (db_health d) \<and>
     headers_ok (set (site_ids d)) (db_headers d) \<and>
     tags_ok (set (site_ids d)) (db_tags d) \<and>
     checks_ok (set (site_ids d)) (set (map mon_id (db_monitors d))) (db_checks d) \<and>
     http_obs_ok (set (site_ids d)) (set (map chk_id (db_checks d))) (db_http_obs d) \<and>
     incidents_ok (set (site_ids d)) (db_incidents d) \<and>
     alerts_ok (set (site_ids d)) (set (map inc_id (db_incidents d))) (db_alerts d) \<and>
     webhooks_ok (set (org_ids d)) (db_webhooks d) \<and>
     deliveries_ok (set (map wh_id (db_webhooks d))) (db_deliveries d) \<and>
     distinct (map (\<lambda>c. (cl_kind c, cl_site c)) (db_claims d))"

lemmas table_ok_defs = groups_ok_def sites_ok_def monitors_ok_def health_ok_def headers_ok_def tags_ok_def
  checks_ok_def http_obs_ok_def incidents_ok_def alerts_ok_def webhooks_ok_def deliveries_ok_def

text \<open>Rows stay valid when the tables they reference grow.\<close>

lemma sites_ok_mono: "sites_ok A G ss \<Longrightarrow> A \<subseteq> A' \<Longrightarrow> G \<subseteq> G' \<Longrightarrow> sites_ok A' G' ss"
  by (force simp: sites_ok_def split: option.splits)

lemma monitors_ok_mono: "monitors_ok S xs \<Longrightarrow> S \<subseteq> S' \<Longrightarrow> monitors_ok S' xs"
  by (auto simp: monitors_ok_def)

lemma health_ok_mono: "health_ok S xs \<Longrightarrow> S \<subseteq> S' \<Longrightarrow> health_ok S' xs"
  by (auto simp: health_ok_def)

lemma headers_ok_mono: "headers_ok S xs \<Longrightarrow> S \<subseteq> S' \<Longrightarrow> headers_ok S' xs"
  by (auto simp: headers_ok_def)

lemma tags_ok_mono: "tags_ok S xs \<Longrightarrow> S \<subseteq> S' \<Longrightarrow> tags_ok S' xs"
  by (auto simp: tags_ok_def)

lemma checks_ok_mono: "checks_ok S M xs \<Longrightarrow> S \<subseteq> S' \<Longrightarrow> M \<subseteq> M' \<Longrightarrow> checks_ok S' M' xs"
  by (auto simp: checks_ok_def)

lemma http_obs_ok_mono: "http_obs_ok S C xs \<Longrightarrow> S \<subseteq> S' \<Longrightarrow> C \<subseteq> C' \<Longrightarrow> http_obs_ok S' C' xs"
  by (auto simp: http_obs_ok_def)

lemma incidents_ok_mono: "incidents_ok S xs \<Longrightarrow> S \<subseteq> S' \<Longrightarrow> incidents_ok S' xs"
  by (auto simp: incidents_ok_def)

lemma alerts_ok_mono: "alerts_ok S I xs \<Longrightarrow> S \<subseteq> S' \<Longrightarrow> I \<subseteq> I' \<Longrightarrow> alerts_ok S' I' xs"
  by (auto simp: alerts_ok_def)

lemma deliveries_ok_mono: "deliveries_ok W xs \<Longrightarrow> W \<subseteq> W' \<Longrightarrow> deliveries_ok W' xs"
  by (auto simp: deliveries_ok_def)

lemmas site_monos = monitors_ok_mono health_ok_mono headers_ok_mono tags_ok_mono incidents_ok_mono
lemmas history_monos = checks_ok_mono http_obs_ok_mono alerts_ok_mono

lemma indexed_Nil [simp]: "indexed f [] = []"
  by (simp add: indexed_def)

lemma indexed_Cons [simp]:
  "indexed f (r # rs) = (case f r of None \<Rightarrow> indexed f rs | Some k \<Rightarrow> k # indexed f rs)"
  by (simp add: indexed_def List.map_filter_simps split: option.split)

lemma indexed_append [simp]: "indexed f (rs @ ss) = indexed f rs @ indexed f ss"
  by (induction rs) (auto split: option.splits)

lemma set_indexed: "k \<in> set (indexed f rs) \<longleftrightarrow> (\<exists>r \<in> set rs. f r = Some k)"
  by (induction rs) (auto split: option.splits)

lemma distinct_indexed_filter: "distinct (indexed f rs) \<Longrightarrow> distinct (indexed f (filter P rs))"
  by (induction rs) (auto simp: set_indexed split: option.splits)

lemma indexed_upd_where: "(\<And>r. f (g r) = f r) \<Longrightarrow> indexed f (upd_where P g rs) = indexed f rs"
  by (induction rs) (auto simp: upd_where_def split: option.splits)

lemma indexed_inj:
  "distinct (indexed f rs) \<Longrightarrow> r \<in> set rs \<Longrightarrow> r' \<in> set rs \<Longrightarrow> f r = Some k \<Longrightarrow> f r' = Some k \<Longrightarrow> r = r'"
  by (induction rs) (auto simp: set_indexed split: option.splits)

lemma init_db_ok [simp]: "db_ok init_db"
  by (simp add: db_ok_def table_ok_defs init_db_def)

subsection \<open>Groups\<close>

definition insert_group :: "int \<Rightarrow> string \<Rightarrow> string \<Rightarrow> string option \<Rightarrow> db \<Rightarrow> (sql_error, int \<times> db) result" where
  "insert_group org nm created cid d =
     (if \<exists>g \<in> set (db_groups d). (grp_org g, grp_name g) = (org, nm) \<or> (cid \<noteq> None \<and> grp_cluster g = cid)
      then Inl UniqueViolation
      else if org \<notin> set (org_ids d) then Inl ForeignKeyViolation
      else let i = fresh_id (group_ids d)
           in Inr (i, d\<lparr>db_groups := db_groups d @ [\<lparr>grp_id = i, grp_org = org, grp_name = nm,
                grp_created = created, grp_cluster = cid\<rparr>]\<rparr>))"

text \<open>\<^verbatim>\<open>UPDATE groups SET organization_id=?,name=? WHERE cluster_id=?\<close>\<close>

definition update_group :: "int \<Rightarrow> string \<Rightarrow> string \<Rightarrow> db \<Rightarrow> (sql_error, db) result" where
  "update_group org nm cid d =
     (if (\<exists>g \<in> set (db_groups d). grp_cluster g = Some cid) \<and>
         (\<exists>g \<in> set (db_groups d). grp_cluster g \<noteq> Some cid \<and> (grp_org g, grp_name g) = (org, nm))
      then Inl UniqueViolation
      else if (\<exists>g \<in> set (db_groups d). grp_cluster g = Some cid) \<and> org \<notin> set (org_ids d)
      then Inl ForeignKeyViolation
      else Inr (d\<lparr>db_groups := upd_where (\<lambda>g. grp_cluster g = Some cid)
                   (\<lambda>g. g\<lparr>grp_org := org, grp_name := nm\<rparr>) (db_groups d)\<rparr>))"

text \<open>Deleting groups sets \<^verbatim>\<open>sites.group_id\<close> to NULL (ON DELETE SET NULL).\<close>

definition delete_groups :: "(group_row \<Rightarrow> bool) \<Rightarrow> db \<Rightarrow> db" where
  "delete_groups P d =
     (let gone = map grp_id (filter P (db_groups d))
      in d\<lparr>db_groups := del_where P (db_groups d),
           db_sites := upd_where (\<lambda>s. \<exists>g \<in> set gone. site_group s = Some g) (\<lambda>s. s\<lparr>site_group := None\<rparr>) (db_sites d)\<rparr>)"

subsection \<open>Sites\<close>

definition insert_site :: "site_row \<Rightarrow> db \<Rightarrow> (sql_error, int \<times> db) result" where
  "insert_site r d =
     (if site_cluster r \<noteq> None \<and> (\<exists>s \<in> set (db_sites d). site_cluster s = site_cluster r)
      then Inl UniqueViolation
      else if site_org r \<notin> set (org_ids d) \<or> (\<exists>g. site_group r = Some g \<and> g \<notin> set (group_ids d))
      then Inl ForeignKeyViolation
      else let i = fresh_id (site_ids d) in Inr (i, d\<lparr>db_sites := db_sites d @ [r\<lparr>site_id := i\<rparr>]\<rparr>))"

text \<open>An UPDATE of \<^verbatim>\<open>sites\<close> that leaves the keys and the organization alone and may set the group.\<close>

definition update_sites :: "(site_row \<Rightarrow> bool) \<Rightarrow> (site_row \<Rightarrow> site_row) \<Rightarrow> db \<Rightarrow> (sql_error, db) result" where
  "update_sites P f d =
     (if \<exists>s \<in> set (db_sites d). P s \<and> (\<exists>g. site_group (f s) = Some g \<and> g \<notin> set (group_ids d))
      then Inl ForeignKeyViolation
      else Inr (d\<lparr>db_sites := upd_where P f (db_sites d)\<rparr>))"

text \<open>Deleting sites deletes everything that references them (ON DELETE CASCADE). The rows of
  \<^verbatim>\<open>scheduler_claims\<close> carry no foreign key and stay.\<close>

definition delete_sites :: "(site_row \<Rightarrow> bool) \<Rightarrow> db \<Rightarrow> db" where
  "delete_sites P d =
     (let gone = map site_id (filter P (db_sites d));
          goneM = map mon_id (filter (\<lambda>m. mon_site m \<in> set gone) (db_monitors d));
          goneC = map chk_id (filter (\<lambda>c. chk_site c \<in> set gone \<or> chk_monitor c \<in> set goneM) (db_checks d));
          goneI = map inc_id (filter (\<lambda>i. inc_site i \<in> set gone) (db_incidents d))
      in d\<lparr>db_sites := del_where P (db_sites d),
           db_monitors := del_where (\<lambda>m. mon_site m \<in> set gone) (db_monitors d),
           db_health := upd_where (\<lambda>h. \<exists>c \<in> set goneC. hl_last_check h = Some c) (\<lambda>h. h\<lparr>hl_last_check := None\<rparr>)
                          (del_where (\<lambda>h. hl_site h \<in> set gone) (db_health d)),
           db_headers := del_where (\<lambda>h. hx_site h \<in> set gone) (db_headers d),
           db_tags := del_where (\<lambda>t. tag_site t \<in> set gone) (db_tags d),
           db_checks := del_where (\<lambda>c. chk_site c \<in> set gone \<or> chk_monitor c \<in> set goneM) (db_checks d),
           db_http_obs := del_where (\<lambda>x. ho_site x \<in> set gone \<or> ho_check x \<in> set goneC) (db_http_obs d),
           db_incidents := del_where (\<lambda>i. inc_site i \<in> set gone) (db_incidents d),
           db_alerts := del_where (\<lambda>a. al_site a \<in> set gone \<or> al_incident a \<in> set goneI) (db_alerts d)\<rparr>)"

subsection \<open>Rows that belong to a site\<close>

definition insert_monitor :: "int \<Rightarrow> string \<Rightarrow> int \<Rightarrow> int \<Rightarrow> int \<Rightarrow> string \<Rightarrow> db \<Rightarrow> (sql_error, db) result" where
  "insert_monitor sid kind timeout mn mx created d =
     (if \<exists>m \<in> set (db_monitors d). mon_site m = sid \<and> mon_kind m = kind then Inl UniqueViolation
      else if sid \<notin> set (site_ids d) then Inl ForeignKeyViolation
      else Inr (d\<lparr>db_monitors := db_monitors d @ [\<lparr>mon_id = fresh_id (map mon_id (db_monitors d)),
             mon_site = sid, mon_kind = kind, mon_timeout = timeout, mon_min = mn, mon_max = mx,
             mon_created = created\<rparr>]\<rparr>))"

definition insert_health :: "health_row \<Rightarrow> db \<Rightarrow> (sql_error, db) result" where
  "insert_health h d =
     (if \<exists>x \<in> set (db_health d). hl_site x = hl_site h then Inl UniqueViolation
      else if hl_site h \<notin> set (site_ids d) then Inl ForeignKeyViolation
      else Inr (d\<lparr>db_health := db_health d @ [h]\<rparr>))"

definition insert_header :: "int \<Rightarrow> string \<Rightarrow> db \<Rightarrow> (sql_error, db) result" where
  "insert_header sid nm d =
     (if \<exists>h \<in> set (db_headers d). hx_site h = sid \<and> hx_name h = nm then Inl UniqueViolation
      else if sid \<notin> set (site_ids d) then Inl ForeignKeyViolation
      else Inr (d\<lparr>db_headers := db_headers d @ [\<lparr>hx_id = fresh_id (map hx_id (db_headers d)),
             hx_site = sid, hx_name = nm, hx_required = True\<rparr>]\<rparr>))"

definition insert_tag :: "int \<Rightarrow> string \<Rightarrow> db \<Rightarrow> (sql_error, db) result" where
  "insert_tag sid t d =
     (if \<exists>x \<in> set (db_tags d). tag_site x = sid \<and> tag_text x = t then Inl UniqueViolation
      else if sid \<notin> set (site_ids d) then Inl ForeignKeyViolation
      else Inr (d\<lparr>db_tags := db_tags d @ [\<lparr>tag_site = sid, tag_text = t\<rparr>]\<rparr>))"

definition delete_tags :: "int \<Rightarrow> db \<Rightarrow> db" where
  "delete_tags sid d = d\<lparr>db_tags := del_where (\<lambda>t. tag_site t = sid) (db_tags d)\<rparr>"

subsection \<open>The statements keep the integrity\<close>

lemma distinct_upd_one:
  assumes "distinct (map g rs)" "\<And>r r'. r \<in> set rs \<Longrightarrow> r' \<in> set rs \<Longrightarrow> P r \<Longrightarrow> P r' \<Longrightarrow> r = r'"
    and "\<And>r r'. r \<in> set rs \<Longrightarrow> P r \<Longrightarrow> r' \<in> set rs \<Longrightarrow> \<not> P r' \<Longrightarrow> g (f r) \<noteq> g r'"
  shows "distinct (map g (upd_where P f rs))"
proof -
  have "distinct rs" and inj: "inj_on g (set rs)" using assms(1) by (simp_all add: distinct_map)
  moreover have "inj_on (g \<circ> (\<lambda>r. if P r then f r else r)) (set rs)"
  proof (rule inj_onI)
    fix r r' assume R: "r \<in> set rs" "r' \<in> set rs"
      "(g \<circ> (\<lambda>r. if P r then f r else r)) r = (g \<circ> (\<lambda>r. if P r then f r else r)) r'"
    then show "r = r'"
      using assms(2) [of r r'] assms(3) [of r r'] assms(3) [of r' r] inj
      by (auto simp: inj_on_def split: if_splits)
  qed
  ultimately show ?thesis by (simp add: upd_where_def distinct_map)
qed

lemma insert_group_succeeds:
  assumes "\<And>g. g \<in> set (db_groups d) \<Longrightarrow> \<not> (grp_org g = org \<and> grp_name g = nm) \<and> grp_cluster g \<noteq> Some c"
    and "org \<in> set (org_ids d)"
  obtains i d' where "insert_group org nm created (Some c) d = Inr (i, d')"
proof -
  have no: "\<not> (\<exists>g \<in> set (db_groups d). (grp_org g, grp_name g) = (org, nm) \<or> (Some c \<noteq> None \<and> grp_cluster g = Some c))"
    using assms(1) by blast
  show ?thesis
    by (rule that) (simp only: insert_group_def no assms(2) if_False not_True_eq_False Let_def)
qed

lemma update_group_succeeds:
  assumes "\<And>g. g \<in> set (db_groups d) \<Longrightarrow> grp_org g = org \<Longrightarrow> grp_name g = nm \<Longrightarrow> grp_cluster g = Some c"
    and "org \<in> set (org_ids d)"
  obtains d' where "update_group org nm c d = Inr d'"
proof -
  have no: "\<not> ((\<exists>g \<in> set (db_groups d). grp_cluster g = Some c) \<and>
      (\<exists>g \<in> set (db_groups d). grp_cluster g \<noteq> Some c \<and> (grp_org g, grp_name g) = (org, nm)))"
    using assms(1) by blast
  show ?thesis
    by (rule that) (simp only: update_group_def no assms(2) if_False not_True_eq_False simp_thms)
qed

lemma db_ok_groups:
  assumes "db_ok d" "groups_ok (set (org_ids d)) gs" "set (group_ids d) \<subseteq> set (map grp_id gs)"
  shows "db_ok (d\<lparr>db_groups := gs\<rparr>)"
  using assms sites_ok_mono [OF _ order_refl assms(3)] by (simp add: db_ok_def)

lemma insert_group_ok:
  assumes "db_ok d" "insert_group org nm created cid d = Inr (i, d')"
  shows "db_ok d'"
proof -
  let ?gs = "db_groups d @ [\<lparr>grp_id = i, grp_org = org, grp_name = nm, grp_created = created, grp_cluster = cid\<rparr>]"
  have d': "d' = d\<lparr>db_groups := ?gs\<rparr>" "i = fresh_id (group_ids d)" "org \<in> set (org_ids d)"
    "\<forall>g \<in> set (db_groups d). (grp_org g, grp_name g) \<noteq> (org, nm) \<and> \<not> (cid \<noteq> None \<and> grp_cluster g = cid)"
    using assms(2) unfolding insert_group_def Let_def by (auto split: if_splits)
  have "i \<notin> set (group_ids d)" unfolding d'(2) by (rule fresh_id_notin)
  then have "groups_ok (set (org_ids d)) ?gs"
    using assms(1) d'(3,4) by (auto simp: db_ok_def groups_ok_def set_indexed split: option.splits)
  then show ?thesis unfolding d'(1) by (intro db_ok_groups assms(1)) auto
qed

lemma update_group_ok:
  assumes "db_ok d" "update_group org nm cid d = Inr d'"
  shows "db_ok d'"
proof -
  let ?P = "\<lambda>g. grp_cluster g = Some cid" and ?f = "\<lambda>g. g\<lparr>grp_org := org, grp_name := nm\<rparr>"
  let ?gs = "upd_where ?P ?f (db_groups d)"
  have d': "d' = d\<lparr>db_groups := ?gs\<rparr>"
    and clash: "\<And>r r'. r \<in> set (db_groups d) \<Longrightarrow> ?P r \<Longrightarrow> r' \<in> set (db_groups d) \<Longrightarrow> \<not> ?P r' \<Longrightarrow>
      (grp_org (?f r), grp_name (?f r)) \<noteq> (grp_org r', grp_name r')"
    and org: "\<And>r. r \<in> set (db_groups d) \<Longrightarrow> ?P r \<Longrightarrow> org \<in> set (org_ids d)"
    using assms(2) unfolding update_group_def by (auto split: if_splits)
  have ok: "groups_ok (set (org_ids d)) (db_groups d)" using assms(1) by (simp add: db_ok_def)
  have ids: "map grp_id ?gs = group_ids d" and cids: "indexed grp_cluster ?gs = indexed grp_cluster (db_groups d)"
    by (simp_all add: map_upd_where_same indexed_upd_where)
  have "distinct (map (\<lambda>g. (grp_org g, grp_name g)) ?gs)"
    by (rule distinct_upd_one) (use ok clash in \<open>auto simp: groups_ok_def dest: indexed_inj\<close>)
  then have "groups_ok (set (org_ids d)) ?gs"
    using ok ids cids org by (auto simp: groups_ok_def set_upd_where)
  then show ?thesis unfolding d' by (intro db_ok_groups assms(1)) (simp_all only: ids order_refl)
qed

lemma db_ok_sites:
  assumes "db_ok d" "sites_ok (set (org_ids d)) (set (group_ids d)) ss" "set (site_ids d) \<subseteq> set (map site_id ss)"
  shows "db_ok (d\<lparr>db_sites := ss\<rparr>)"
  using assms(1,2) site_monos [OF _ assms(3)] history_monos [OF _ assms(3) order_refl] by (simp add: db_ok_def)

lemma insert_site_ok:
  assumes "db_ok d" "insert_site r d = Inr (i, d')"
  shows "db_ok d'"
proof -
  let ?ss = "db_sites d @ [r\<lparr>site_id := i\<rparr>]"
  have d': "d' = d\<lparr>db_sites := ?ss\<rparr>" "i = fresh_id (site_ids d)" "site_org r \<in> set (org_ids d)"
    "\<forall>g. site_group r = Some g \<longrightarrow> g \<in> set (group_ids d)"
    "site_cluster r = None \<or> (\<forall>s \<in> set (db_sites d). site_cluster s \<noteq> site_cluster r)"
    using assms(2) unfolding insert_site_def Let_def by (auto split: if_splits)
  have "i \<notin> set (site_ids d)" unfolding d'(2) by (rule fresh_id_notin)
  then have "sites_ok (set (org_ids d)) (set (group_ids d)) ?ss"
    using assms(1) d'(3-5) by (auto simp: db_ok_def sites_ok_def set_indexed split: option.splits)
  then show ?thesis unfolding d'(1) by (intro db_ok_sites assms(1)) auto
qed

lemma update_sites_ok:
  assumes "db_ok d" "update_sites P f d = Inr d'"
    and "\<And>s. site_id (f s) = site_id s \<and> site_cluster (f s) = site_cluster s \<and> site_org (f s) = site_org s"
  shows "db_ok d'"
proof -
  let ?ss = "upd_where P f (db_sites d)"
  have d': "d' = d\<lparr>db_sites := ?ss\<rparr>"
    and fk: "\<And>s g. s \<in> set (db_sites d) \<Longrightarrow> P s \<Longrightarrow> site_group (f s) = Some g \<Longrightarrow> g \<in> set (group_ids d)"
    using assms(2) unfolding update_sites_def by (auto split: if_splits)
  have ids: "map site_id ?ss = site_ids d" and cids: "indexed site_cluster ?ss = indexed site_cluster (db_sites d)"
    using assms(3) by (simp_all add: map_upd_where_same indexed_upd_where)
  have "sites_ok (set (org_ids d)) (set (group_ids d)) (db_sites d)" using assms(1) by (simp add: db_ok_def)
  then have "sites_ok (set (org_ids d)) (set (group_ids d)) ?ss"
    using assms(3) ids cids fk by (auto simp: sites_ok_def set_upd_where split: option.splits)
  then show ?thesis unfolding d' by (intro db_ok_sites assms(1)) (simp_all only: ids order_refl)
qed

lemma insert_monitor_ok:
  assumes "db_ok d" "insert_monitor sid k tm mn mx cr d = Inr d'"
  shows "db_ok d'"
proof -
  let ?m = "\<lparr>mon_id = fresh_id (map mon_id (db_monitors d)), mon_site = sid, mon_kind = k, mon_timeout = tm,
    mon_min = mn, mon_max = mx, mon_created = cr\<rparr>"
  have d': "d' = d\<lparr>db_monitors := db_monitors d @ [?m]\<rparr>" "sid \<in> set (site_ids d)"
    "\<forall>m \<in> set (db_monitors d). \<not> (mon_site m = sid \<and> mon_kind m = k)"
    using assms(2) unfolding insert_monitor_def by (auto split: if_splits)
  have "mon_id ?m \<notin> set (map mon_id (db_monitors d))"
    using fresh_id_notin [of "map mon_id (db_monitors d)"] by simp
  then have "monitors_ok (set (site_ids d)) (db_monitors d @ [?m])"
    using assms(1) d'(2,3) by (auto simp: db_ok_def monitors_ok_def)
  then show ?thesis
    using assms(1) checks_ok_mono [OF _ order_refl subset_insertI] by (simp add: db_ok_def d'(1))
qed

lemma insert_health_ok:
  assumes "db_ok d" "insert_health h d = Inr d'"
  shows "db_ok d'"
proof -
  have d': "d' = d\<lparr>db_health := db_health d @ [h]\<rparr>" "hl_site h \<in> set (site_ids d)"
    "\<forall>x \<in> set (db_health d). hl_site x \<noteq> hl_site h"
    using assms(2) unfolding insert_health_def by (auto split: if_splits)
  then have "health_ok (set (site_ids d)) (db_health d @ [h])"
    using assms(1) by (auto simp: db_ok_def health_ok_def)
  then show ?thesis using assms(1) by (simp add: db_ok_def d'(1))
qed

lemma insert_header_ok:
  assumes "db_ok d" "insert_header sid nm d = Inr d'"
  shows "db_ok d'"
proof -
  let ?h = "\<lparr>hx_id = fresh_id (map hx_id (db_headers d)), hx_site = sid, hx_name = nm, hx_required = True\<rparr>"
  have d': "d' = d\<lparr>db_headers := db_headers d @ [?h]\<rparr>" "sid \<in> set (site_ids d)"
    "\<forall>x \<in> set (db_headers d). \<not> (hx_site x = sid \<and> hx_name x = nm)"
    using assms(2) unfolding insert_header_def by (auto split: if_splits)
  then have "headers_ok (set (site_ids d)) (db_headers d @ [?h])"
    using assms(1) by (auto simp: db_ok_def headers_ok_def)
  then show ?thesis using assms(1) by (simp add: db_ok_def d'(1))
qed

lemma insert_tag_ok:
  assumes "db_ok d" "insert_tag sid t d = Inr d'"
  shows "db_ok d'"
proof -
  have d': "d' = d\<lparr>db_tags := db_tags d @ [\<lparr>tag_site = sid, tag_text = t\<rparr>]\<rparr>" "sid \<in> set (site_ids d)"
    "\<forall>x \<in> set (db_tags d). \<not> (tag_site x = sid \<and> tag_text x = t)"
    using assms(2) unfolding insert_tag_def by (auto split: if_splits)
  then have "tags_ok (set (site_ids d)) (db_tags d @ [\<lparr>tag_site = sid, tag_text = t\<rparr>])"
    using assms(1) by (auto simp: db_ok_def tags_ok_def)
  then show ?thesis using assms(1) by (simp add: db_ok_def d'(1))
qed

lemma delete_tags_ok: "db_ok d \<Longrightarrow> db_ok (delete_tags sid d)"
  by (simp add: delete_tags_def db_ok_def tags_ok_def)

lemma delete_sites_ok:
  assumes "db_ok d"
  shows "db_ok (delete_sites P d)"
proof -
  define gone where "gone = set (map site_id (filter P (db_sites d)))"
  define goneM where "goneM = set (map mon_id (filter (\<lambda>m. mon_site m \<in> gone) (db_monitors d)))"
  define goneC where "goneC = set (map chk_id (filter (\<lambda>c. chk_site c \<in> gone \<or> chk_monitor c \<in> goneM) (db_checks d)))"
  define goneI where "goneI = set (map inc_id (filter (\<lambda>i. inc_site i \<in> gone) (db_incidents d)))"
  note gone_defs = gone_def goneM_def goneC_def goneI_def
  have sites: "x \<in> set (site_ids d) \<Longrightarrow> x \<notin> gone \<Longrightarrow> x \<in> set (map site_id (del_where P (db_sites d)))" for x
    by (auto simp: gone_def)
  have mons: "x \<in> set (map mon_id (db_monitors d)) \<Longrightarrow> x \<notin> goneM \<Longrightarrow>
      x \<in> set (map mon_id (del_where (\<lambda>m. mon_site m \<in> gone) (db_monitors d)))" for x
    by (auto simp: goneM_def)
  have chks: "x \<in> set (map chk_id (db_checks d)) \<Longrightarrow> x \<notin> goneC \<Longrightarrow>
      x \<in> set (map chk_id (del_where (\<lambda>c. chk_site c \<in> gone \<or> chk_monitor c \<in> goneM) (db_checks d)))" for x
    by (auto simp: goneC_def)
  have incs: "x \<in> set (map inc_id (db_incidents d)) \<Longrightarrow> x \<notin> goneI \<Longrightarrow>
      x \<in> set (map inc_id (del_where (\<lambda>i. inc_site i \<in> gone) (db_incidents d)))" for x
    by (auto simp: goneI_def)
  have hs: "map hl_site (upd_where Q (\<lambda>h. h\<lparr>hl_last_check := None\<rparr>) hs) = map hl_site hs" for Q hs
    by (simp add: map_upd_where_same)
  have "sites_ok (set (org_ids d)) (set (group_ids d)) (del_where P (db_sites d))"
    using assms by (auto simp: db_ok_def sites_ok_def del_where_def distinct_indexed_filter distinct_map_filter)
  moreover have "monitors_ok (set (map site_id (del_where P (db_sites d)))) (del_where (\<lambda>m. mon_site m \<in> gone) (db_monitors d))"
    using assms sites unfolding db_ok_def monitors_ok_def by simp
  moreover have "checks_ok (set (map site_id (del_where P (db_sites d))))
      (set (map mon_id (del_where (\<lambda>m. mon_site m \<in> gone) (db_monitors d))))
      (del_where (\<lambda>c. chk_site c \<in> gone \<or> chk_monitor c \<in> goneM) (db_checks d))"
    using assms sites mons unfolding db_ok_def checks_ok_def by simp
  moreover have "http_obs_ok (set (map site_id (del_where P (db_sites d))))
      (set (map chk_id (del_where (\<lambda>c. chk_site c \<in> gone \<or> chk_monitor c \<in> goneM) (db_checks d))))
      (del_where (\<lambda>x. ho_site x \<in> gone \<or> ho_check x \<in> goneC) (db_http_obs d))"
    using assms sites chks unfolding db_ok_def http_obs_ok_def by simp
  moreover have "incidents_ok (set (map site_id (del_where P (db_sites d)))) (del_where (\<lambda>i. inc_site i \<in> gone) (db_incidents d))"
    using assms sites unfolding db_ok_def incidents_ok_def by simp
  moreover have "alerts_ok (set (map site_id (del_where P (db_sites d))))
      (set (map inc_id (del_where (\<lambda>i. inc_site i \<in> gone) (db_incidents d))))
      (del_where (\<lambda>a. al_site a \<in> gone \<or> al_incident a \<in> goneI) (db_alerts d))"
    using assms sites incs unfolding db_ok_def alerts_ok_def by simp
  moreover have "health_ok (set (map site_id (del_where P (db_sites d))))
      (upd_where (\<lambda>h. \<exists>c \<in> goneC. hl_last_check h = Some c) (\<lambda>h. h\<lparr>hl_last_check := None\<rparr>)
        (del_where (\<lambda>h. hl_site h \<in> gone) (db_health d)))"
  proof -
    have "health_ok (set (map site_id (del_where P (db_sites d)))) (del_where (\<lambda>h. hl_site h \<in> gone) (db_health d))"
      using assms sites unfolding db_ok_def health_ok_def by simp
    then show ?thesis by (auto simp: health_ok_def hs set_upd_where)
  qed
  moreover have "headers_ok (set (map site_id (del_where P (db_sites d)))) (del_where (\<lambda>h. hx_site h \<in> gone) (db_headers d))"
    using assms sites unfolding db_ok_def headers_ok_def by simp
  moreover have "tags_ok (set (map site_id (del_where P (db_sites d)))) (del_where (\<lambda>t. tag_site t \<in> gone) (db_tags d))"
    using assms sites unfolding db_ok_def tags_ok_def by simp
  ultimately show ?thesis
    using assms unfolding db_ok_def delete_sites_def Let_def gone_defs by simp
qed

lemma delete_groups_ok:
  assumes "db_ok d"
  shows "db_ok (delete_groups P d)"
proof -
  let ?gone = "map grp_id (filter P (db_groups d))"
  let ?Q = "\<lambda>s. \<exists>g \<in> set ?gone. site_group s = Some g" and ?f = "\<lambda>s. s\<lparr>site_group := None\<rparr>"
  let ?ss = "upd_where ?Q ?f (db_sites d)"
  have ids: "map site_id ?ss = site_ids d" and cids: "indexed site_cluster ?ss = indexed site_cluster (db_sites d)"
    by (simp_all add: map_upd_where_same indexed_upd_where)
  have "groups_ok (set (org_ids d)) (del_where P (db_groups d))"
    using assms by (auto simp: db_ok_def groups_ok_def del_where_def distinct_indexed_filter distinct_map_filter)
  moreover have "sites_ok (set (org_ids d)) (set (map grp_id (del_where P (db_groups d)))) ?ss"
  proof -
    have ok: "sites_ok (set (org_ids d)) (set (group_ids d)) (db_sites d)" using assms by (simp add: db_ok_def)
    have "g \<in> set (map grp_id (del_where P (db_groups d)))"
      if "s \<in> set (db_sites d)" "\<not> ?Q s" "site_group s = Some g" for s g
    proof -
      have "g \<in> set (group_ids d)" using ok that by (auto simp: sites_ok_def split: option.splits)
      with that show ?thesis by auto
    qed
    with ok have "\<forall>s \<in> set ?ss. site_org s \<in> set (org_ids d) \<and>
        (case site_group s of None \<Rightarrow> True | Some g \<Rightarrow> g \<in> set (map grp_id (del_where P (db_groups d))))"
      unfolding sites_ok_def set_upd_where by (auto split: option.split simp del: set_map)
    with ok ids cids show ?thesis unfolding sites_ok_def by simp
  qed
  ultimately show ?thesis
    using assms unfolding db_ok_def delete_groups_def Let_def by (simp add: ids del: set_map)
qed

lemmas statement_ok = insert_group_ok update_group_ok insert_site_ok insert_monitor_ok insert_health_ok
  insert_header_ok insert_tag_ok delete_tags_ok delete_sites_ok delete_groups_ok

end
