(* ===== verification/Claims.thy ===== *)
theory Claims
  imports Tables
begin

text \<open>
  The fenced due-work claims of \<^verbatim>\<open>internal/store/store.go\<close> (\<^verbatim>\<open>ClaimDue\<close>, \<^verbatim>\<open>RenewClaim\<close>,
  \<^verbatim>\<open>CompleteClaim\<close>) on the table \<^verbatim>\<open>scheduler_claims\<close>. The locale \<open>fenced_lease\<close> states what a claim
  store owes its workers: every successful claim hands out the next generation, and an operation
  presenting an older generation has no effect. Its lemmas follow a slot through any interleaving
  of the workers' operations; the interpretation discharges the laws for the SQL statements.
\<close>

subsection \<open>The statements\<close>

definition claim_key :: "string \<Rightarrow> int \<Rightarrow> claim_row \<Rightarrow> bool" where
  "claim_key kind sid r \<longleftrightarrow> cl_kind r = kind \<and> cl_site r = sid"

definition ClaimDue :: "string \<Rightarrow> int \<Rightarrow> string \<Rightarrow> instant \<Rightarrow> instant \<Rightarrow> db \<Rightarrow> int option \<times> db" where
  "ClaimDue kind sid owner now leaseUntil d =
     (case first_row (claim_key kind sid) (db_claims d) of
        None \<Rightarrow> (Some 1, d\<lparr>db_claims := db_claims d @ [\<lparr>cl_kind = kind, cl_site = sid,
                   cl_next_due = format_nano now, cl_owner = owner, cl_generation = 1,
                   cl_lease = format_nano leaseUntil\<rparr>]\<rparr>)
      | Some r \<Rightarrow>
          if cl_next_due r \<le> format_nano now \<and> (cl_owner r = '''' \<or> cl_lease r \<le> format_nano now)
          then (Some (cl_generation r + 1),
                d\<lparr>db_claims := upd_where (claim_key kind sid)
                    (\<lambda>r. r\<lparr>cl_owner := owner, cl_generation := cl_generation r + 1,
                           cl_lease := format_nano leaseUntil\<rparr>) (db_claims d)\<rparr>)
          else (None, d))"

definition owned_by :: "string \<Rightarrow> int \<Rightarrow> string \<Rightarrow> int \<Rightarrow> claim_row \<Rightarrow> bool" where
  "owned_by kind sid owner gen r \<longleftrightarrow> claim_key kind sid r \<and> cl_owner r = owner \<and> cl_generation r = gen"

definition RenewClaim :: "string \<Rightarrow> int \<Rightarrow> string \<Rightarrow> int \<Rightarrow> instant \<Rightarrow> db \<Rightarrow> bool \<times> db" where
  "RenewClaim kind sid owner gen leaseUntil d =
     (affected (owned_by kind sid owner gen) (db_claims d) = 1,
      d\<lparr>db_claims := upd_where (owned_by kind sid owner gen)
          (\<lambda>r. r\<lparr>cl_lease := format_nano leaseUntil\<rparr>) (db_claims d)\<rparr>)"

definition CompleteClaim :: "string \<Rightarrow> int \<Rightarrow> string \<Rightarrow> int \<Rightarrow> instant \<Rightarrow> db \<Rightarrow> db" where
  "CompleteClaim kind sid owner gen nextDue d =
     d\<lparr>db_claims := upd_where (owned_by kind sid owner gen)
         (\<lambda>r. r\<lparr>cl_next_due := format_nano nextDue, cl_owner := '''', cl_lease := ''''\<rparr>) (db_claims d)\<rparr>"

definition claims_ok :: "db \<Rightarrow> bool" where
  "claims_ok d \<longleftrightarrow> distinct (map (\<lambda>c. (cl_kind c, cl_site c)) (db_claims d)) \<and>
     (\<forall>c \<in> set (db_claims d). 1 \<le> cl_generation c)"

text \<open>What the row of a slot says: its generation (0 before the first claim) and its owner.\<close>

definition slot_generation :: "string \<Rightarrow> int \<Rightarrow> db \<Rightarrow> int" where
  "slot_generation kind sid d =
     (case first_row (claim_key kind sid) (db_claims d) of None \<Rightarrow> 0 | Some r \<Rightarrow> cl_generation r)"

definition slot_owner :: "string \<Rightarrow> int \<Rightarrow> db \<Rightarrow> string option" where
  "slot_owner kind sid d =
     (case first_row (claim_key kind sid) (db_claims d) of
        None \<Rightarrow> None | Some r \<Rightarrow> (if cl_owner r = '''' then None else Some (cl_owner r)))"

subsection \<open>The contract of a fenced lease\<close>

datatype ('k, 'w, 't) lease_event =
    EClaim (event_key: 'k) (event_worker: 'w) 't 't
  | ERenew (event_key: 'k) (event_worker: 'w) int 't
  | EComplete (event_key: 'k) (event_worker: 'w) int 't

fun lease_step ::
  "('k \<Rightarrow> 'w \<Rightarrow> 't \<Rightarrow> 't \<Rightarrow> 's \<Rightarrow> int option \<times> 's) \<Rightarrow> ('k \<Rightarrow> 'w \<Rightarrow> int \<Rightarrow> 't \<Rightarrow> 's \<Rightarrow> bool \<times> 's) \<Rightarrow>
   ('k \<Rightarrow> 'w \<Rightarrow> int \<Rightarrow> 't \<Rightarrow> 's \<Rightarrow> 's) \<Rightarrow> ('k, 'w, 't) lease_event \<Rightarrow> 's \<Rightarrow> 's" where
  "lease_step claim renew complete (EClaim k w t l) s = snd (claim k w t l s)"
| "lease_step claim renew complete (ERenew k w g l) s = snd (renew k w g l s)"
| "lease_step claim renew complete (EComplete k w g t) s = complete k w g t s"

locale fenced_lease =
  fixes valid :: "'w \<Rightarrow> bool"
    and invar :: "'s \<Rightarrow> bool"
    and claim :: "'k \<Rightarrow> 'w \<Rightarrow> 't \<Rightarrow> 't \<Rightarrow> 's \<Rightarrow> int option \<times> 's"
    and renew :: "'k \<Rightarrow> 'w \<Rightarrow> int \<Rightarrow> 't \<Rightarrow> 's \<Rightarrow> bool \<times> 's"
    and complete :: "'k \<Rightarrow> 'w \<Rightarrow> int \<Rightarrow> 't \<Rightarrow> 's \<Rightarrow> 's"
    and gen :: "'k \<Rightarrow> 's \<Rightarrow> int"
    and owner :: "'k \<Rightarrow> 's \<Rightarrow> 'w option"
  assumes invar_claim: "invar s \<Longrightarrow> invar (snd (claim k w t l s))"
    and invar_renew: "invar s \<Longrightarrow> invar (snd (renew k w g l s))"
    and invar_complete: "invar s \<Longrightarrow> invar (complete k w g t s)"
    and claim_Some: "invar s \<Longrightarrow> valid w \<Longrightarrow> claim k w t l s = (Some g, s') \<Longrightarrow>
          g = gen k s + 1 \<and> gen k s' = g \<and> owner k s' = Some w"
    and claim_None: "claim k w t l s = (None, s') \<Longrightarrow> s' = s"
    and renew_result: "invar s \<Longrightarrow> valid w \<Longrightarrow> fst (renew k w g l s) \<longleftrightarrow> gen k s = g \<and> owner k s = Some w"
    and renew_keeps: "invar s \<Longrightarrow> gen k (snd (renew k w g l s)) = gen k s \<and> owner k (snd (renew k w g l s)) = owner k s"
    and renew_stale: "invar s \<Longrightarrow> valid w \<Longrightarrow> \<not> (gen k s = g \<and> owner k s = Some w) \<Longrightarrow> snd (renew k w g l s) = s"
    and complete_gen: "invar s \<Longrightarrow> gen k (complete k w g t s) = gen k s"
    and complete_owner: "invar s \<Longrightarrow> valid w \<Longrightarrow> gen k s = g \<Longrightarrow> owner k s = Some w \<Longrightarrow>
          owner k (complete k w g t s) = None"
    and complete_stale: "invar s \<Longrightarrow> valid w \<Longrightarrow> \<not> (gen k s = g \<and> owner k s = Some w) \<Longrightarrow> complete k w g t s = s"
    and claim_frame: "k \<noteq> k' \<Longrightarrow> gen k (snd (claim k' w t l s)) = gen k s \<and> owner k (snd (claim k' w t l s)) = owner k s"
    and renew_frame: "k \<noteq> k' \<Longrightarrow> gen k (snd (renew k' w g l s)) = gen k s \<and> owner k (snd (renew k' w g l s)) = owner k s"
    and complete_frame: "k \<noteq> k' \<Longrightarrow> gen k (complete k' w g t s) = gen k s \<and> owner k (complete k' w g t s) = owner k s"
begin

lemma invar_step: "invar s \<Longrightarrow> invar (lease_step claim renew complete e s)"
  by (cases e) (simp_all add: invar_claim invar_renew invar_complete)

lemma gen_frame: "k \<noteq> event_key e \<Longrightarrow> gen k (lease_step claim renew complete e s) = gen k s"
  by (cases e) (simp_all add: claim_frame renew_frame complete_frame)

lemma gen_claim:
  assumes "invar s" "valid w"
  shows "gen k s \<le> gen k (snd (claim k w t l s))"
proof (cases "claim k w t l s")
  case (Pair r s')
  show ?thesis
  proof (cases r)
    case None
    with Pair claim_None [of k w t l s s'] show ?thesis by simp
  next
    case (Some g)
    with Pair assms claim_Some [of s w k t l g s'] show ?thesis by simp
  qed
qed

lemma gen_step:
  assumes "invar s" "valid (event_worker e)"
  shows "gen k s \<le> gen k (lease_step claim renew complete e s)"
proof (cases "event_key e = k")
  case True
  with assms show ?thesis by (cases e) (auto simp: gen_claim renew_keeps complete_gen)
next
  case False
  then show ?thesis using gen_frame [of k e s] by simp
qed

lemma run_mono:
  assumes "invar s" "\<forall>e \<in> set es. valid (event_worker e)"
  shows "invar (fold (lease_step claim renew complete) es s) \<and> gen k s \<le> gen k (fold (lease_step claim renew complete) es s)"
  using assms
proof (induction es arbitrary: s)
  case (Cons e es)
  then have "invar (lease_step claim renew complete e s)" "gen k s \<le> gen k (lease_step claim renew complete e s)"
    by (simp_all add: invar_step gen_step)
  with Cons.IH [of "lease_step claim renew complete e s"] Cons.prems show ?case by simp
qed simp

text \<open>Once another worker has claimed the slot, the earlier generation is fenced for ever: in every
  later state its renewals fail and its completion changes nothing.\<close>

lemma fenced_for_ever:
  assumes "invar s" "valid w'" "claim k w' t l s = (Some g', s')" "g \<le> gen k s"
    and "\<forall>e \<in> set es. valid (event_worker e)" "valid w"
  defines "s'' \<equiv> fold (lease_step claim renew complete) es s'"
  shows "\<not> fst (renew k w g l' s'') \<and> snd (renew k w g l' s'') = s'' \<and> complete k w g t' s'' = s''"
proof -
  from claim_Some [OF assms(1,2,3)] assms(4) have "g < gen k s'" by simp
  moreover have "invar s'" using invar_claim [OF assms(1), of k w' t l] assms(3) by simp
  ultimately have "invar s''" "g < gen k s''"
    using run_mono [of s' es k] assms(5) by (auto simp: s''_def)
  then show ?thesis
    using assms(6) by (auto simp: renew_result renew_stale complete_stale)
qed

text \<open>No two successful claims of a slot return the same generation.\<close>

lemma claims_increase:
  assumes "invar s" "valid w" "claim k w t l s = (Some g, s')"
    and "\<forall>e \<in> set es. valid (event_worker e)" "valid w'"
    and "claim k w' t' l' (fold (lease_step claim renew complete) es s') = (Some g', s'')"
  shows "g < g'"
proof -
  have "invar s'" using invar_claim [OF assms(1), of k w t l] assms(3) by simp
  then have "gen k s' \<le> gen k (fold (lease_step claim renew complete) es s')"
    "invar (fold (lease_step claim renew complete) es s')"
    using run_mono assms(4) by auto
  then show ?thesis
    using claim_Some [OF assms(1-3)] claim_Some [OF _ assms(5,6)] by simp
qed

end

subsection \<open>The SQL statements implement it\<close>

lemma claims_ok_row:
  assumes "claims_ok d" "r \<in> set (db_claims d)" "claim_key kind sid r"
  shows "first_row (claim_key kind sid) (db_claims d) = Some r"
  using assms by (intro first_row_unique [where g = "\<lambda>c. (cl_kind c, cl_site c)"])
    (auto simp: claims_ok_def claim_key_def)

lemma claim_key_update [simp]:
  "claim_key kind sid (r\<lparr>cl_owner := a\<rparr>) = claim_key kind sid r"
  "claim_key kind sid (r\<lparr>cl_generation := b\<rparr>) = claim_key kind sid r"
  "claim_key kind sid (r\<lparr>cl_lease := c\<rparr>) = claim_key kind sid r"
  "claim_key kind sid (r\<lparr>cl_next_due := e\<rparr>) = claim_key kind sid r"
  by (simp_all add: claim_key_def)

lemma owned_by_key: "owned_by kind sid owner gen r \<Longrightarrow> claim_key kind sid r"
  by (simp add: owned_by_def)

lemma first_row_owned:
  assumes "\<And>r. claim_key kind sid (f r) = claim_key kind sid r"
  shows "first_row (claim_key kind sid) (upd_where (owned_by kind sid w g) f rs) =
     map_option (\<lambda>r. if owned_by kind sid w g r then f r else r) (first_row (claim_key kind sid) rs)"
  by (rule first_row_upd_where) (simp add: assms)

lemma owned_by_iff:
  assumes "claims_ok d" "w \<noteq> ''''"
  shows "(\<exists>r \<in> set (db_claims d). owned_by kind sid w g r) \<longleftrightarrow>
    slot_generation kind sid d = g \<and> slot_owner kind sid d = Some w"
proof
  assume "\<exists>r \<in> set (db_claims d). owned_by kind sid w g r"
  then obtain r where r: "r \<in> set (db_claims d)" "owned_by kind sid w g r" by blast
  then show "slot_generation kind sid d = g \<and> slot_owner kind sid d = Some w"
    using claims_ok_row [OF assms(1) r(1) owned_by_key [OF r(2)]] assms(2)
    by (simp add: slot_generation_def slot_owner_def owned_by_def)
next
  assume "slot_generation kind sid d = g \<and> slot_owner kind sid d = Some w"
  then show "\<exists>r \<in> set (db_claims d). owned_by kind sid w g r"
    by (auto simp: slot_generation_def slot_owner_def owned_by_def split: option.splits if_splits
        dest!: first_row_Some)
qed

lemma claims_ok_upd:
  assumes "claims_ok d" "\<And>r. (cl_kind (f r), cl_site (f r)) = (cl_kind r, cl_site r)"
    and "\<And>r. cl_generation r \<le> cl_generation (f r)"
  shows "claims_ok (d\<lparr>db_claims := upd_where P f (db_claims d)\<rparr>)"
  using assms(1) assms(3) unfolding claims_ok_def
  by (auto simp: map_upd_where_same [where g = "\<lambda>c. (cl_kind c, cl_site c)", OF assms(2)] set_upd_where
      intro: order_trans)

lemma claims_ok_ClaimDue: "claims_ok d \<Longrightarrow> claims_ok (snd (ClaimDue kind sid w t l d))"
  by (auto simp: ClaimDue_def claims_ok_upd split: option.splits)
    (auto simp: claims_ok_def claim_key_def first_row_None)

lemma claims_ok_RenewClaim: "claims_ok d \<Longrightarrow> claims_ok (snd (RenewClaim kind sid w g l d))"
  by (simp add: RenewClaim_def claims_ok_upd)

lemma claims_ok_CompleteClaim: "claims_ok d \<Longrightarrow> claims_ok (CompleteClaim kind sid w g t d)"
  by (simp add: CompleteClaim_def claims_ok_upd)

lemma first_row_claimed:
  assumes "first_row (claim_key kind sid) rs = Some r" "\<And>r. claim_key kind sid (f r) = claim_key kind sid r"
  shows "first_row (claim_key kind sid) (upd_where (claim_key kind sid) f rs) = Some (f r)"
  using first_row_upd_where [of "claim_key kind sid" f "claim_key kind sid" rs] assms(2)
    first_row_Some [OF assms(1)] assms(1) by simp

lemma ClaimDue_cases:
  obtains (new) "first_row (claim_key kind sid) (db_claims d) = None"
      "ClaimDue kind sid w t l d = (Some 1, d\<lparr>db_claims := db_claims d @ [\<lparr>cl_kind = kind, cl_site = sid,
         cl_next_due = format_nano t, cl_owner = w, cl_generation = 1, cl_lease = format_nano l\<rparr>]\<rparr>)"
  | (taken) r where "first_row (claim_key kind sid) (db_claims d) = Some r"
      "cl_next_due r \<le> format_nano t" "cl_owner r = '''' \<or> cl_lease r \<le> format_nano t"
      "ClaimDue kind sid w t l d = (Some (cl_generation r + 1),
         d\<lparr>db_claims := upd_where (claim_key kind sid)
            (\<lambda>r. r\<lparr>cl_owner := w, cl_generation := cl_generation r + 1, cl_lease := format_nano l\<rparr>) (db_claims d)\<rparr>)"
  | (refused) r where "first_row (claim_key kind sid) (db_claims d) = Some r"
      "\<not> (cl_next_due r \<le> format_nano t \<and> (cl_owner r = '''' \<or> cl_lease r \<le> format_nano t))"
      "ClaimDue kind sid w t l d = (None, d)"
proof (cases "first_row (claim_key kind sid) (db_claims d)")
  case None
  then show ?thesis by (intro new) (simp_all add: ClaimDue_def)
next
  case (Some r)
  show ?thesis
  proof (cases "cl_next_due r \<le> format_nano t \<and> (cl_owner r = '''' \<or> cl_lease r \<le> format_nano t)")
    case True
    then show ?thesis using Some by (intro taken [of r]) (simp_all add: ClaimDue_def)
  next
    case False
    then show ?thesis using Some by (intro refused [of r]) (simp_all add: ClaimDue_def)
  qed
qed

lemma ClaimDue_Some:
  assumes "ClaimDue kind sid w t l d = (Some g, d')" "w \<noteq> ''''"
  shows "g = slot_generation kind sid d + 1 \<and> slot_generation kind sid d' = g \<and> slot_owner kind sid d' = Some w"
proof (cases rule: ClaimDue_cases [of kind sid d w t l])
  case new
  have "first_row (claim_key kind sid) (db_claims d') = Some \<lparr>cl_kind = kind, cl_site = sid,
         cl_next_due = format_nano t, cl_owner = w, cl_generation = 1, cl_lease = format_nano l\<rparr>"
    using assms(1) new(2) by (auto simp: first_row_append new(1) claim_key_def)
  with assms new show ?thesis unfolding slot_generation_def slot_owner_def by simp
next
  case (taken r)
  then have "first_row (claim_key kind sid) (db_claims d') =
      Some (r\<lparr>cl_owner := w, cl_generation := cl_generation r + 1, cl_lease := format_nano l\<rparr>)"
    using assms(1) by (auto intro: first_row_claimed)
  with assms taken show ?thesis unfolding slot_generation_def slot_owner_def by simp
next
  case (refused r)
  with assms show ?thesis by simp
qed

lemma RenewClaim_affected:
  assumes "claims_ok d" "w \<noteq> ''''"
  shows "fst (RenewClaim kind sid w g l d) \<longleftrightarrow> slot_generation kind sid d = g \<and> slot_owner kind sid d = Some w"
proof -
  have "affected (owned_by kind sid w g) (db_claims d) \<le> 1"
    using assms(1) by (intro affected_unique [where g = "\<lambda>c. (cl_kind c, cl_site c)"])
      (auto simp: claims_ok_def owned_by_def claim_key_def)
  then have "affected (owned_by kind sid w g) (db_claims d) = 1 \<longleftrightarrow>
      0 < affected (owned_by kind sid w g) (db_claims d)" by linarith
  then show ?thesis
    by (simp add: RenewClaim_def affected_pos owned_by_iff [OF assms])
qed

lemma stale_no_rows:
  assumes "claims_ok d" "w \<noteq> ''''" "\<not> (slot_generation kind sid d = g \<and> slot_owner kind sid d = Some w)"
  shows "upd_where (owned_by kind sid w g) f (db_claims d) = db_claims d"
  using owned_by_iff [OF assms(1,2), of kind sid g] assms(3) by (intro upd_where_none) blast

lemma first_row_other_key:
  assumes "(kind, sid) \<noteq> (kind', sid')" "\<And>r. claim_key kind sid (f r) = claim_key kind sid r"
    and "\<And>r. P r \<Longrightarrow> claim_key kind' sid' r"
  shows "first_row (claim_key kind sid) (upd_where P f rs) = first_row (claim_key kind sid) rs"
proof (induction rs)
  case (Cons r rs)
  have "claim_key kind sid r \<Longrightarrow> \<not> P r"
    using assms(1) assms(3) [of r] by (auto simp: claim_key_def)
  with Cons assms(2) show ?case by (auto simp: upd_where_def)
qed (simp add: upd_where_def)

lemma slot_row_frame:
  assumes "(kind, sid) \<noteq> (kind', sid')"
  shows "first_row (claim_key kind sid) (db_claims (snd (ClaimDue kind' sid' w t l d))) =
           first_row (claim_key kind sid) (db_claims d)"
    and "first_row (claim_key kind sid) (db_claims (snd (RenewClaim kind' sid' w g l d))) =
           first_row (claim_key kind sid) (db_claims d)"
    and "first_row (claim_key kind sid) (db_claims (CompleteClaim kind' sid' w g t d)) =
           first_row (claim_key kind sid) (db_claims d)"
proof -
  show "first_row (claim_key kind sid) (db_claims (snd (ClaimDue kind' sid' w t l d))) =
      first_row (claim_key kind sid) (db_claims d)"
  proof (cases rule: ClaimDue_cases [of kind' sid' d w t l])
    case new
    with assms show ?thesis
      by (cases "first_row (claim_key kind sid) (db_claims d)") (auto simp: first_row_append claim_key_def)
  qed (use assms in \<open>simp_all add: first_row_other_key\<close>)
qed (use assms in \<open>simp_all add: RenewClaim_def CompleteClaim_def first_row_other_key owned_by_key\<close>)

lemmas slot_defs = slot_generation_def slot_owner_def

interpretation slot: fenced_lease "\<lambda>w. w \<noteq> ''''" claims_ok "\<lambda>k. ClaimDue (fst k) (snd k)"
  "\<lambda>k. RenewClaim (fst k) (snd k)" "\<lambda>k. CompleteClaim (fst k) (snd k)"
  "\<lambda>k. slot_generation (fst k) (snd k)" "\<lambda>k. slot_owner (fst k) (snd k)"
proof (unfold_locales, goal_cases)
  case (4 s w k t l g s')
  then show ?case using ClaimDue_Some by metis
next
  case (5 k w t l s s')
  then show ?case by (cases rule: ClaimDue_cases [of "fst k" "snd k" s w t l]) simp_all
next
  case (7 s k w g l)
  show ?case
    by (cases "first_row (claim_key (fst k) (snd k)) (db_claims s)")
      (simp_all add: RenewClaim_def slot_defs first_row_owned)
next
  case (9 s k w g t)
  show ?case
    by (cases "first_row (claim_key (fst k) (snd k)) (db_claims s)")
      (simp_all add: CompleteClaim_def slot_defs first_row_owned)
next
  case (10 s w k g t)
  then obtain r where r: "first_row (claim_key (fst k) (snd k)) (db_claims s) = Some r" "cl_owner r = w"
      "cl_generation r = g"
    by (cases "first_row (claim_key (fst k) (snd k)) (db_claims s)") (auto simp: slot_defs split: if_splits)
  then have "owned_by (fst k) (snd k) w g r" using first_row_Some [OF r(1)] by (simp add: owned_by_def)
  with r show ?case by (simp add: CompleteClaim_def slot_owner_def first_row_owned)
qed (simp_all add: claims_ok_ClaimDue claims_ok_RenewClaim claims_ok_CompleteClaim RenewClaim_affected
  slot_defs slot_row_frame prod_eq_iff, simp_all add: RenewClaim_def CompleteClaim_def stale_no_rows slot_defs)

subsection \<open>Runs of the workers of a deployment\<close>

type_synonym claim_event = "(string \<times> int, string, instant) lease_event"

definition claim_run :: "claim_event list \<Rightarrow> db \<Rightarrow> db" where
  "claim_run = fold (lease_step (\<lambda>k. ClaimDue (fst k) (snd k)) (\<lambda>k. RenewClaim (fst k) (snd k))
     (\<lambda>k. CompleteClaim (fst k) (snd k)))"

text \<open>Events that leave the lease of \<open>w\<close> alone until it ends at \<open>l\<close>: claims of the slot come a
  second before that, \<open>w\<close> itself only extends the lease and does not complete the claim.\<close>

fun within_lease :: "string \<Rightarrow> int \<Rightarrow> string \<Rightarrow> int \<Rightarrow> instant \<Rightarrow> claim_event \<Rightarrow> bool" where
  "within_lease kind sid w g l (EClaim k w' t' l') \<longleftrightarrow>
     k \<noteq> (kind, sid) \<or> (t' + second \<le> l \<and> four_digit_year t')"
| "within_lease kind sid w g l (ERenew k w' g' l') \<longleftrightarrow>
     k \<noteq> (kind, sid) \<or> (w', g') \<noteq> (w, g) \<or> (l \<le> l' \<and> four_digit_year l')"
| "within_lease kind sid w g l (EComplete k w' g' t') \<longleftrightarrow> k \<noteq> (kind, sid) \<or> (w', g') \<noteq> (w, g)"

definition leased :: "string \<Rightarrow> int \<Rightarrow> string \<Rightarrow> int \<Rightarrow> instant \<Rightarrow> db \<Rightarrow> bool" where
  "leased kind sid w g l d \<longleftrightarrow> (\<exists>r l'. first_row (claim_key kind sid) (db_claims d) = Some r \<and>
     cl_owner r = w \<and> cl_generation r = g \<and> cl_lease r = format_nano l' \<and> l \<le> l' \<and> four_digit_year l')"

lemma leasedI:
  "first_row (claim_key kind sid) (db_claims d) = Some r \<Longrightarrow> cl_owner r = w \<Longrightarrow> cl_generation r = g \<Longrightarrow>
     cl_lease r = format_nano l' \<Longrightarrow> l \<le> l' \<Longrightarrow> four_digit_year l' \<Longrightarrow> leased kind sid w g l d"
  unfolding leased_def by blast

lemma leased_frame:
  "first_row (claim_key kind sid) (db_claims d') = first_row (claim_key kind sid) (db_claims d) \<Longrightarrow>
     leased kind sid w g l d \<Longrightarrow> leased kind sid w g l d'"
  unfolding leased_def by simp

lemma leased_holder: "leased kind sid w g l d \<Longrightarrow> w \<noteq> '''' \<Longrightarrow>
  slot_generation kind sid d = g \<and> slot_owner kind sid d = Some w"
  by (auto simp: leased_def slot_defs)

lemma leased_claim:
  assumes "leased kind sid w g l d" "w \<noteq> ''''" "t + second \<le> l" "four_digit_year t"
  shows "ClaimDue kind sid w' t l' d = (None, d)"
proof -
  from assms(1) obtain r l'' where r: "first_row (claim_key kind sid) (db_claims d) = Some r"
    "cl_owner r = w" "cl_lease r = format_nano l''" "l \<le> l''" "four_digit_year l''"
    unfolding leased_def by blast
  then have "format_nano t < cl_lease r" using assms le_imp_format_nano_le [of t l''] by simp
  with r assms(2) show ?thesis by (simp add: ClaimDue_def not_le)
qed

lemma leased_renew:
  assumes "leased kind sid w g l d" "(w', g') = (w, g) \<Longrightarrow> l \<le> l' \<and> four_digit_year l'"
  shows "leased kind sid w g l (snd (RenewClaim kind sid w' g' l' d))"
proof -
  from assms(1) obtain r l'' where r: "first_row (claim_key kind sid) (db_claims d) = Some r"
    "cl_owner r = w" "cl_generation r = g" "cl_lease r = format_nano l''" "l \<le> l''" "four_digit_year l''"
    unfolding leased_def by blast
  show ?thesis
  proof (cases "owned_by kind sid w' g' r")
    case True
    with r assms(2) have "l \<le> l' \<and> four_digit_year l'" by (simp add: owned_by_def)
    with True r show ?thesis
      by (intro leasedI [of _ _ _ "r\<lparr>cl_lease := format_nano l'\<rparr>" _ _ l']) (simp_all add: RenewClaim_def first_row_owned)
  next
    case False
    with r show ?thesis by (intro leasedI [of _ _ _ r]) (simp_all add: RenewClaim_def first_row_owned)
  qed
qed

lemma leased_complete:
  assumes "leased kind sid w g l d" "(w', g') \<noteq> (w, g)"
  shows "leased kind sid w g l (CompleteClaim kind sid w' g' t d)"
proof -
  from assms(1) obtain r l'' where r: "first_row (claim_key kind sid) (db_claims d) = Some r"
    "cl_owner r = w" "cl_generation r = g" "cl_lease r = format_nano l''" "l \<le> l''" "four_digit_year l''"
    unfolding leased_def by blast
  moreover from r assms(2) have "\<not> owned_by kind sid w' g' r" by (auto simp: owned_by_def)
  ultimately show ?thesis by (intro leasedI [of _ _ _ r]) (simp_all add: CompleteClaim_def first_row_owned)
qed

lemma leased_step:
  assumes "leased kind sid w g l d" "w \<noteq> ''''" "within_lease kind sid w g l e"
  shows "leased kind sid w g l (lease_step (\<lambda>k. ClaimDue (fst k) (snd k)) (\<lambda>k. RenewClaim (fst k) (snd k))
     (\<lambda>k. CompleteClaim (fst k) (snd k)) e d)"
proof (cases "event_key e = (kind, sid)")
  case True
  with assms show ?thesis
    by (cases e) (auto simp: leased_claim [of kind sid w g l d] leased_complete intro!: leased_renew)
next
  case False
  then have ne: "(kind, sid) \<noteq> (fst (event_key e), snd (event_key e))" by auto
  from assms(1) show ?thesis
    by (rule leased_frame [rotated]) (use slot_row_frame [OF ne] in \<open>cases e; simp\<close>)
qed

lemma leased_run:
  "leased kind sid w g l d \<Longrightarrow> w \<noteq> '''' \<Longrightarrow> (\<And>e. e \<in> set es \<Longrightarrow> within_lease kind sid w g l e) \<Longrightarrow>
     leased kind sid w g l (claim_run es d)"
  unfolding claim_run_def by (induction es arbitrary: d) (simp_all add: leased_step)

lemma ClaimDue_leased:
  assumes "ClaimDue kind sid w t l d = (Some g, d')" "four_digit_year l"
  shows "leased kind sid w g l d'"
proof (cases rule: ClaimDue_cases [of kind sid d w t l])
  case new
  with assms show ?thesis
    by (intro leasedI [of _ _ _ "\<lparr>cl_kind = kind, cl_site = sid, cl_next_due = format_nano t,
      cl_owner = w, cl_generation = 1, cl_lease = format_nano l\<rparr>" _ _ l]) (auto simp: first_row_append claim_key_def)
next
  case (taken r)
  with assms show ?thesis
    by (intro leasedI [of _ _ _ "r\<lparr>cl_owner := w, cl_generation := cl_generation r + 1, cl_lease := format_nano l\<rparr>" _ _ l])
      (auto simp: first_row_claimed)
next
  case (refused r)
  with assms show ?thesis by simp
qed

subsection \<open>Properties\<close>

text \<open>C2. Fencing. When a worker has claimed a slot and, after any interleaving of claims, renewals and
  completions of all slots by all workers, a second claim of that slot succeeds, then the first
  claimant is fenced for ever: whatever the workers do next, its renewal reports false and changes
  nothing, and its completion changes nothing.\<close>

theorem stale_claim_fenced:
  assumes "claims_ok d" "w \<noteq> ''''" "w' \<noteq> ''''"
    and "ClaimDue kind sid w t l d = (Some g, d1)"
    and "\<forall>e \<in> set es. event_worker e \<noteq> ''''"
    and "ClaimDue kind sid w' t' l' (claim_run es d1) = (Some g', d2)"
    and "\<forall>e \<in> set es'. event_worker e \<noteq> ''''"
  shows "g < g' \<and> RenewClaim kind sid w g l'' (claim_run es' d2) = (False, claim_run es' d2) \<and>
    CompleteClaim kind sid w g due (claim_run es' d2) = claim_run es' d2"
proof -
  have gen: "slot_generation kind sid d1 = g" using ClaimDue_Some assms(2,4) by blast
  have ok: "claims_ok d1" using claims_ok_ClaimDue [OF assms(1), of kind sid w t l] assms(4) by simp
  have ok': "claims_ok (claim_run es d1)" "g \<le> slot_generation kind sid (claim_run es d1)"
    using slot.run_mono [OF ok assms(5), of "(kind, sid)"] gen by (simp_all add: claim_run_def)
  have "g < g'" using slot.claims_increase [of d w "(kind, sid)" t l g d1 es w' t' l' g' d2] assms
    by (simp add: claim_run_def)
  moreover have "\<not> fst (RenewClaim kind sid w g l'' (claim_run es' d2)) \<and>
      snd (RenewClaim kind sid w g l'' (claim_run es' d2)) = claim_run es' d2 \<and>
      CompleteClaim kind sid w g due (claim_run es' d2) = claim_run es' d2"
    using slot.fenced_for_ever [of "claim_run es d1" w' "(kind, sid)" t' l' g' d2 g es' w l'' due] assms ok'
    by (simp add: claim_run_def)
  ultimately show ?thesis by (simp add: prod_eq_iff)
qed

theorem stale_claim_fenced_witness:
  "let d1 = snd (ClaimDue ''site'' 7 ''a'' 0 (600 * second) init_db);
       d2 = snd (ClaimDue ''site'' 7 ''b'' (700 * second) (900 * second) d1)
   in claims_ok init_db \<and> fst (ClaimDue ''site'' 7 ''a'' 0 (600 * second) init_db) = Some 1 \<and>
      fst (ClaimDue ''site'' 7 ''b'' (700 * second) (900 * second) d1) = Some 2 \<and>
      RenewClaim ''site'' 7 ''a'' 1 (800 * second) d2 = (False, d2) \<and>
      CompleteClaim ''site'' 7 ''a'' 1 (800 * second) d2 = d2"
proof -
  define d1 where "d1 = snd (ClaimDue ''site'' 7 ''a'' 0 (600 * second) init_db)"
  define d2 where "d2 = snd (ClaimDue ''site'' 7 ''b'' (700 * second) (900 * second) d1)"
  have ok: "claims_ok init_db" by (simp add: claims_ok_def init_db_def)
  have c1: "ClaimDue ''site'' 7 ''a'' 0 (600 * second) init_db = (Some 1, d1)"
    by (simp add: d1_def ClaimDue_def init_db_def)
  have c2: "ClaimDue ''site'' 7 ''b'' (700 * second) (900 * second) d1 = (Some 2, d2)"
    unfolding d2_def d1_def by (simp add: ClaimDue_def init_db_def claim_key_def time_simps less_char_def)
  have "RenewClaim ''site'' 7 ''a'' 1 (800 * second) d2 = (False, d2) \<and>
      CompleteClaim ''site'' 7 ''a'' 1 (800 * second) d2 = d2"
    using stale_claim_fenced [OF ok _ _ c1, of "''b''" "[]" "700 * second" "900 * second" 2 d2 "[]"] c2
    by (simp add: claim_run_def)
  with ok c1 c2 show ?thesis by (simp add: Let_def d1_def [symmetric] d2_def [symmetric])
qed

text \<open>C3. Exclusion. A claimed slot keeps its owner and generation until its lease ends, whatever the other
  workers do, as long as nobody else tries within the last second of the lease (timestamps are
  compared as text, whose order is only exact between different seconds) and the owner itself
  neither shortens the lease nor completes the claim; so the owner's next renewal succeeds.\<close>

theorem lease_exclusive:
  assumes "claims_ok d" "w \<noteq> ''''" "ClaimDue kind sid w t l d = (Some g, d')" "four_digit_year l"
    and "\<forall>e \<in> set es. event_worker e \<noteq> '''' \<and> within_lease kind sid w g l e"
  shows "slot_owner kind sid (claim_run es d') = Some w \<and> slot_generation kind sid (claim_run es d') = g \<and>
    fst (RenewClaim kind sid w g l' (claim_run es d'))"
proof -
  have "leased kind sid w g l (claim_run es d')"
    using leased_run [OF ClaimDue_leased [OF assms(3,4)] assms(2)] assms(5) by blast
  then have own: "slot_generation kind sid (claim_run es d') = g \<and> slot_owner kind sid (claim_run es d') = Some w"
    using assms(2) by (rule leased_holder)
  have "claims_ok d'" using claims_ok_ClaimDue [OF assms(1), of kind sid w t l] assms(3) by simp
  then have "claims_ok (claim_run es d')"
    using slot.run_mono [of d' es] assms(5) by (auto simp: claim_run_def)
  with own assms(2) show ?thesis by (simp add: RenewClaim_affected)
qed

theorem lease_exclusive_witness:
  "let d1 = snd (ClaimDue ''site'' 7 ''a'' 0 (600 * second) init_db);
       es = [EClaim (''site'', 7) ''b'' (599 * second) (900 * second), ERenew (''site'', 7) ''b'' 1 (900 * second),
             EComplete (''crawl'', 7) ''b'' 1 0]
   in within_lease ''site'' 7 ''a'' 1 (600 * second) (hd es) \<and>
      slot_owner ''site'' 7 (claim_run es d1) = Some ''a'' \<and> slot_generation ''site'' 7 (claim_run es d1) = 1 \<and>
      fst (RenewClaim ''site'' 7 ''a'' 1 (1200 * second) (claim_run es d1))"
proof -
  define d1 where "d1 = snd (ClaimDue ''site'' 7 ''a'' 0 (600 * second) init_db)"
  have c1: "ClaimDue ''site'' 7 ''a'' 0 (600 * second) init_db = (Some 1, d1)"
    by (simp add: d1_def ClaimDue_def init_db_def)
  have w: "four_digit_year (600 * second)" "four_digit_year (599 * second)" by (simp_all add: time_simps)
  have "claims_ok init_db" by (simp add: claims_ok_def init_db_def)
  from lease_exclusive [OF this _ c1 w(1), of "[EClaim (''site'', 7) ''b'' (599 * second) (900 * second),
      ERenew (''site'', 7) ''b'' 1 (900 * second), EComplete (''crawl'', 7) ''b'' 1 0]"] w
  show ?thesis by (simp add: Let_def d1_def)
qed

text \<open>C7. Takeover. A slot whose work is due and whose lease ended, both at least a second ago, is claimed by
  the next worker that asks, with the generation after the stored one.\<close>

theorem expired_lease_claimed:
  assumes "first_row (claim_key kind sid) (db_claims d) = Some r"
    and "cl_next_due r = format_nano due" "cl_lease r = format_nano l"
    and "due + second \<le> now" "l + second \<le> now" "four_digit_year due" "four_digit_year l" "four_digit_year now"
  shows "fst (ClaimDue kind sid w now l' d) = Some (cl_generation r + 1) \<and>
    (w \<noteq> '''' \<longrightarrow> slot_owner kind sid (snd (ClaimDue kind sid w now l' d)) = Some w)"
proof -
  have "cl_next_due r \<le> format_nano now" "cl_lease r \<le> format_nano now"
    using assms le_imp_format_nano_le [of due now] le_imp_format_nano_le [of l now] by simp_all
  then have "fst (ClaimDue kind sid w now l' d) = Some (cl_generation r + 1)"
    using assms(1) by (simp add: ClaimDue_def)
  then show ?thesis
    using ClaimDue_Some [of kind sid w now l' d "cl_generation r + 1"] by (metis prod.collapse)
qed

theorem expired_lease_claimed_witness:
  "let d1 = snd (ClaimDue ''site'' 7 ''a'' 0 (600 * second) init_db);
       r = ClaimDue ''site'' 7 ''b'' (601 * second) (900 * second) d1
   in fst r = Some 2 \<and> slot_owner ''site'' 7 (snd r) = Some ''b''"
  using expired_lease_claimed [of "''site''" 7 "snd (ClaimDue ''site'' 7 ''a'' 0 (600 * second) init_db)"
    "\<lparr>cl_kind = ''site'', cl_site = 7, cl_next_due = format_nano 0, cl_owner = ''a'', cl_generation = 1,
      cl_lease = format_nano (600 * second)\<rparr>" 0 "600 * second" "601 * second" "''b''" "900 * second"]
  by (simp add: ClaimDue_def init_db_def claim_key_def four_digit_year_def secs_def day_of_def year_of_day_def
      days_before_year_def Let_def)

text \<open>The texts of two instants of one second can sort in the wrong order. A slot whose lease ends
  less than a second after the whole second \<open>now\<close> is taken over at \<open>now\<close>, before its lease has ended.\<close>

theorem lease_taken_early:
  assumes "first_row (claim_key kind sid) (db_claims d) = Some r"
    and "cl_next_due r \<le> format_nano now" "cl_lease r = format_nano (now + remaining)"
    and "now mod second = 0" "0 < remaining" "remaining < second"
  shows "fst (ClaimDue kind sid w now l' d) = Some (cl_generation r + 1)"
  using assms format_nano_inverted [OF assms(4-6)] by (simp add: ClaimDue_def less_imp_le)

theorem lease_taken_early_witness:
  "let d1 = snd (ClaimDue ''site'' 7 ''a'' 0 (600 * second + 900000000) init_db)
   in fst (ClaimDue ''site'' 7 ''b'' (600 * second) (900 * second) d1) = Some 2"
  using lease_taken_early [of "''site''" 7 "snd (ClaimDue ''site'' 7 ''a'' 0 (600 * second + 900000000) init_db)"
    "\<lparr>cl_kind = ''site'', cl_site = 7, cl_next_due = format_nano 0, cl_owner = ''a'', cl_generation = 1,
      cl_lease = format_nano (600 * second + 900000000)\<rparr>" "600 * second" 900000000 "''b''" "900 * second"]
  by (simp add: ClaimDue_def init_db_def claim_key_def time_simps less_char_def)

end
