(* ===== verification/Json.thy ===== *)
theory Json
  imports Prelude
begin

text \<open>
  What the sources use of Go's \<^verbatim>\<open>encoding/json\<close>. A document is the value its text denotes; a text that is
  not JSON is \<open>None\<close> where a document is expected. Decoding into a struct follows
  \<^verbatim>\<open>json.Unmarshal\<close>: keys select fields without regard to case, unknown keys are skipped, \<^verbatim>\<open>null\<close> leaves a
  field as it is, the last of several equal keys wins, and a value of another type is an error.
\<close>

datatype json =
    JNull
  | JBool bool
  | JNum int \<comment> \<open>a numeral without fraction or exponent\<close>
  | JFrac \<comment> \<open>any other numeral\<close>
  | JStr string
  | JArr "json list"
  | JObj "(string \<times> json) list"

datatype json_error = JSyntax | JType

subsection \<open>Decoding into a field\<close>

fun get_str :: "json \<Rightarrow> string \<Rightarrow> (json_error, string) result" where
  "get_str JNull old = Inr old"
| "get_str (JStr s) old = Inr s"
| "get_str _ old = Inl JType"

fun get_int64 :: "json \<Rightarrow> int \<Rightarrow> (json_error, int) result" where
  "get_int64 JNull old = Inr old"
| "get_int64 (JNum i) old = (if fits64 i then Inr i else Inl JType)"
| "get_int64 _ old = Inl JType"

fun get_bool :: "json \<Rightarrow> bool \<Rightarrow> (json_error, bool) result" where
  "get_bool JNull old = Inr old"
| "get_bool (JBool b) old = Inr b"
| "get_bool _ old = Inl JType"

fun get_str_list :: "json list \<Rightarrow> (json_error, string list) result" where
  "get_str_list [] = Inr []"
| "get_str_list (j # js) = res_bind (get_str j '''') (\<lambda>s. res_bind (get_str_list js) (\<lambda>ss. Inr (s # ss)))"

fun get_strs :: "json \<Rightarrow> (json_error, string list) result" where
  "get_strs JNull = Inr []"
| "get_strs (JArr js) = get_str_list js"
| "get_strs _ = Inl JType"

subsection \<open>Decoding a struct\<close>

type_synonym 's field = "string \<times> (json \<Rightarrow> 's \<Rightarrow> (json_error, 's) result)"

definition set_field :: "'s field list \<Rightarrow> string \<times> json \<Rightarrow> 's \<Rightarrow> (json_error, 's) result" where
  "set_field fs kv s =
     (case List.find (\<lambda>f. equal_fold (fst kv) (fst f)) fs of
        None \<Rightarrow> Inr s | Some f \<Rightarrow> snd f (snd kv) s)"

fun unmarshal :: "'s field list \<Rightarrow> 's \<Rightarrow> json option \<Rightarrow> (json_error, 's) result" where
  "unmarshal fs zero None = Inl JSyntax"
| "unmarshal fs zero (Some JNull) = Inr zero"
| "unmarshal fs zero (Some (JObj kvs)) = res_fold (set_field fs) kvs zero"
| "unmarshal fs zero (Some _) = Inl JType"

lemma get_str_list_map [simp]: "get_str_list (map JStr ss) = Inr ss"
  by (induction ss) auto

lemmas unmarshal_eval = set_field_def equal_fold_def to_lower_def lower_char_def Let_def

end
