(* ===== verification/Replicated_FSM.thy ===== *)
theory Replicated_FSM
  imports Tables Json "HOL-Library.Word"
begin

text \<open>
  The replicated state machine of \<^verbatim>\<open>internal/replicated/fsm.go\<close>: the operations Raft delivers are
  materialized into the tables of the node, in one transaction together with the markers that make
  a redelivery harmless. \<^verbatim>\<open>DecodeOperation\<close> and \<^verbatim>\<open>Digest\<close> belong to gantry-core and are parameters,
  as is the text syntax of JSON (\<open>parse\<close>); whether the commit of the transaction succeeds is an
  argument of the operation.
\<close>

subsection \<open>Payloads\<close>

definition KindGroupPut :: string where "KindGroupPut = ''webfleet.group.put''"
definition KindSitePut :: string where "KindSitePut = ''webfleet.site.put''"
definition KindSiteArchive :: string where "KindSiteArchive = ''webfleet.site.archive''"
definition KindSiteDelete :: string where "KindSiteDelete = ''webfleet.site.delete''"
definition KindTagsSet :: string where "KindTagsSet = ''webfleet.site.tags.set''"

lemmas kind_defs = KindGroupPut_def KindSitePut_def KindSiteArchive_def KindSiteDelete_def KindTagsSet_def

lemma kinds_distinct [simp]:
  "KindGroupPut \<noteq> KindSitePut" "KindGroupPut \<noteq> KindSiteArchive" "KindGroupPut \<noteq> KindSiteDelete"
  "KindGroupPut \<noteq> KindTagsSet" "KindSitePut \<noteq> KindGroupPut" "KindSitePut \<noteq> KindSiteArchive"
  "KindSitePut \<noteq> KindSiteDelete" "KindSitePut \<noteq> KindTagsSet" "KindSiteArchive \<noteq> KindGroupPut"
  "KindSiteArchive \<noteq> KindSitePut" "KindSiteArchive \<noteq> KindSiteDelete" "KindSiteArchive \<noteq> KindTagsSet"
  "KindSiteDelete \<noteq> KindGroupPut" "KindSiteDelete \<noteq> KindSitePut" "KindSiteDelete \<noteq> KindSiteArchive"
  "KindSiteDelete \<noteq> KindTagsSet" "KindTagsSet \<noteq> KindGroupPut" "KindTagsSet \<noteq> KindSitePut"
  "KindTagsSet \<noteq> KindSiteArchive" "KindTagsSet \<noteq> KindSiteDelete"
  by (simp_all add: kind_defs)

record GroupPayload =
  gp_ClusterID :: string
  gp_OrgID :: int
  gp_Name :: string
  gp_CreatedAt :: string

record SitePayload =
  sp_ClusterID :: string
  sp_OrgID :: int
  sp_Name :: string
  sp_PrimaryURL :: string
  sp_GroupClusterID :: string
  sp_Enabled :: bool
  sp_Archived :: bool
  sp_CreatedAt :: string
  sp_UpdatedAt :: string

record TagsPayload =
  tp_SiteClusterID :: string
  tp_Tags :: "string list"

definition zero_group :: GroupPayload where
  "zero_group = \<lparr>gp_ClusterID = '''', gp_OrgID = 0, gp_Name = '''', gp_CreatedAt = ''''\<rparr>"

definition zero_site :: SitePayload where
  "zero_site = \<lparr>sp_ClusterID = '''', sp_OrgID = 0, sp_Name = '''', sp_PrimaryURL = '''', sp_GroupClusterID = '''',
     sp_Enabled = False, sp_Archived = False, sp_CreatedAt = '''', sp_UpdatedAt = ''''\<rparr>"

definition zero_tags :: TagsPayload where
  "zero_tags = \<lparr>tp_SiteClusterID = '''', tp_Tags = []\<rparr>"

definition res_map :: "('a \<Rightarrow> 'b) \<Rightarrow> ('e, 'a) result \<Rightarrow> ('e, 'b) result" where
  "res_map f r = res_bind r (\<lambda>a. Inr (f a))"

lemma res_map_simps [simp]: "res_map f (Inl e) = Inl e" "res_map f (Inr a) = Inr (f a)"
  by (simp_all add: res_map_def)

definition group_fields :: "GroupPayload field list" where
  "group_fields =
     [(''cluster_id'', \<lambda>j p. res_map (\<lambda>v. p\<lparr>gp_ClusterID := v\<rparr>) (get_str j (gp_ClusterID p))),
      (''organization_id'', \<lambda>j p. res_map (\<lambda>v. p\<lparr>gp_OrgID := v\<rparr>) (get_int64 j (gp_OrgID p))),
      (''name'', \<lambda>j p. res_map (\<lambda>v. p\<lparr>gp_Name := v\<rparr>) (get_str j (gp_Name p))),
      (''created_at'', \<lambda>j p. res_map (\<lambda>v. p\<lparr>gp_CreatedAt := v\<rparr>) (get_str j (gp_CreatedAt p)))]"

definition site_fields :: "SitePayload field list" where
  "site_fields =
     [(''cluster_id'', \<lambda>j p. res_map (\<lambda>v. p\<lparr>sp_ClusterID := v\<rparr>) (get_str j (sp_ClusterID p))),
      (''organization_id'', \<lambda>j p. res_map (\<lambda>v. p\<lparr>sp_OrgID := v\<rparr>) (get_int64 j (sp_OrgID p))),
      (''name'', \<lambda>j p. res_map (\<lambda>v. p\<lparr>sp_Name := v\<rparr>) (get_str j (sp_Name p))),
      (''primary_url'', \<lambda>j p. res_map (\<lambda>v. p\<lparr>sp_PrimaryURL := v\<rparr>) (get_str j (sp_PrimaryURL p))),
      (''group_cluster_id'', \<lambda>j p. res_map (\<lambda>v. p\<lparr>sp_GroupClusterID := v\<rparr>) (get_str j (sp_GroupClusterID p))),
      (''enabled'', \<lambda>j p. res_map (\<lambda>v. p\<lparr>sp_Enabled := v\<rparr>) (get_bool j (sp_Enabled p))),
      (''archived'', \<lambda>j p. res_map (\<lambda>v. p\<lparr>sp_Archived := v\<rparr>) (get_bool j (sp_Archived p))),
      (''created_at'', \<lambda>j p. res_map (\<lambda>v. p\<lparr>sp_CreatedAt := v\<rparr>) (get_str j (sp_CreatedAt p))),
      (''updated_at'', \<lambda>j p. res_map (\<lambda>v. p\<lparr>sp_UpdatedAt := v\<rparr>) (get_str j (sp_UpdatedAt p)))]"

definition tags_fields :: "TagsPayload field list" where
  "tags_fields =
     [(''site_cluster_id'', \<lambda>j p. res_map (\<lambda>v. p\<lparr>tp_SiteClusterID := v\<rparr>) (get_str j (tp_SiteClusterID p))),
      (''tags'', \<lambda>j p. res_map (\<lambda>v. p\<lparr>tp_Tags := v\<rparr>) (get_strs j))]"

text \<open>\<^verbatim>\<open>mustJSON\<close> of the payloads. \<^verbatim>\<open>group_cluster_id\<close> is omitted when empty.\<close>

definition mustJSON_group :: "GroupPayload \<Rightarrow> json" where
  "mustJSON_group p = JObj [(''cluster_id'', JStr (gp_ClusterID p)), (''organization_id'', JNum (gp_OrgID p)),
     (''name'', JStr (gp_Name p)), (''created_at'', JStr (gp_CreatedAt p))]"

definition mustJSON_site :: "SitePayload \<Rightarrow> json" where
  "mustJSON_site p = JObj ([(''cluster_id'', JStr (sp_ClusterID p)), (''organization_id'', JNum (sp_OrgID p)),
     (''name'', JStr (sp_Name p)), (''primary_url'', JStr (sp_PrimaryURL p))] @
     (if sp_GroupClusterID p = '''' then [] else [(''group_cluster_id'', JStr (sp_GroupClusterID p))]) @
     [(''enabled'', JBool (sp_Enabled p)), (''archived'', JBool (sp_Archived p)),
      (''created_at'', JStr (sp_CreatedAt p)), (''updated_at'', JStr (sp_UpdatedAt p))])"

definition mustJSON_tags :: "TagsPayload \<Rightarrow> json" where
  "mustJSON_tags p = JObj [(''site_cluster_id'', JStr (tp_SiteClusterID p)), (''tags'', JArr (map JStr (tp_Tags p)))]"

lemma unmarshal_group [simp]:
  "fits64 (gp_OrgID p) \<Longrightarrow> unmarshal group_fields zero_group (Some (mustJSON_group p)) = Inr p"
  by (simp add: mustJSON_group_def group_fields_def zero_group_def unmarshal_eval)

lemma unmarshal_site [simp]:
  "fits64 (sp_OrgID p) \<Longrightarrow> unmarshal site_fields zero_site (Some (mustJSON_site p)) = Inr p"
  by (simp add: mustJSON_site_def site_fields_def zero_site_def unmarshal_eval)

lemma unmarshal_tags [simp]: "unmarshal tags_fields zero_tags (Some (mustJSON_tags p)) = Inr p"
  by (simp add: mustJSON_tags_def tags_fields_def zero_tags_def unmarshal_eval)

subsection \<open>Materializing an operation\<close>

datatype fsm_error =
    EDecode string
  | EDigest string
  | EReused
  | EGroupConflict
  | EJson json_error
  | ESql sql_error
  | EUnsupported string
  | ECommit

fun err_sql :: "(sql_error, 'a) result \<Rightarrow> (fsm_error, 'a) result" where
  "err_sql (Inl e) = Inl (ESql e)"
| "err_sql (Inr a) = Inr a"

fun err_json :: "(json_error, 'a) result \<Rightarrow> (fsm_error, 'a) result" where
  "err_json (Inl e) = Inl (EJson e)"
| "err_json (Inr a) = Inr a"

definition coalesce :: "string option \<Rightarrow> string" where
  "coalesce c = (case c of None \<Rightarrow> '''' | Some s \<Rightarrow> s)"

definition group_cid :: "string \<Rightarrow> group_row \<Rightarrow> bool" where
  "group_cid c g \<longleftrightarrow> grp_cluster g = Some c"

definition site_cid :: "string \<Rightarrow> site_row \<Rightarrow> bool" where
  "site_cid c s \<longleftrightarrow> site_cluster s = Some c"

text \<open>The deterministic upsert keyed on the cluster identity.\<close>

definition upsert_group :: "GroupPayload \<Rightarrow> db \<Rightarrow> (fsm_error, db) result" where
  "upsert_group p d =
     (case first_row (group_cid (gp_ClusterID p)) (db_groups d) of
        None \<Rightarrow> res_map snd (err_sql (insert_group (gp_OrgID p) (gp_Name p) (gp_CreatedAt p) (Some (gp_ClusterID p)) d))
      | Some _ \<Rightarrow> err_sql (update_group (gp_OrgID p) (gp_Name p) (gp_ClusterID p) d))"

definition put_group :: "GroupPayload \<Rightarrow> db \<Rightarrow> (fsm_error, db) result" where
  "put_group p d =
     (case first_row (\<lambda>g. grp_org g = gp_OrgID p \<and> grp_name g = gp_Name p) (db_groups d) of
        Some g \<Rightarrow> if coalesce (grp_cluster g) \<noteq> gp_ClusterID p then Inl EGroupConflict else upsert_group p d
      | None \<Rightarrow> upsert_group p d)"

definition default_headers :: "string list" where
  "default_headers = [''Content-Security-Policy'', ''Strict-Transport-Security'', ''X-Content-Type-Options'', ''Referrer-Policy'']"

definition archived_value :: "SitePayload \<Rightarrow> string option" where
  "archived_value p = (if sp_Archived p then Some (sp_UpdatedAt p) else None)"

text \<open>The rows created with a site: its monitor, its health and the expected headers.\<close>

definition insert_site_rows :: "int \<Rightarrow> string \<Rightarrow> db \<Rightarrow> (sql_error, db) result" where
  "insert_site_rows i created d =
     res_bind (insert_monitor i ''http'' 10000 200 399 created d) (\<lambda>d.
     res_bind (insert_health \<lparr>hl_site = i, hl_state = ''unknown'', hl_fails = 0, hl_last_check = None,
         hl_change = created, hl_success = None, hl_failure = None\<rparr> d) (\<lambda>d.
     res_fold (insert_header i) default_headers d))"

definition site_group_ref :: "string \<Rightarrow> db \<Rightarrow> (fsm_error, int option) result" where
  "site_group_ref c d =
     (if c = '''' then Inr None
      else case first_row (group_cid c) (db_groups d) of
             None \<Rightarrow> Inl (ESql NoRows) | Some g \<Rightarrow> Inr (Some (grp_id g)))"

definition put_site :: "SitePayload \<Rightarrow> db \<Rightarrow> (fsm_error, db) result" where
  "put_site p d =
     res_bind (site_group_ref (sp_GroupClusterID p) d) (\<lambda>gid.
       case first_row (site_cid (sp_ClusterID p)) (db_sites d) of
         None \<Rightarrow>
           res_bind (err_sql (insert_site \<lparr>site_id = 0, site_org = sp_OrgID p, site_name = sp_Name p,
               site_url = sp_PrimaryURL p, site_enabled = sp_Enabled p, site_group = gid,
               site_archived = archived_value p, site_created = sp_CreatedAt p, site_updated = sp_UpdatedAt p,
               site_cluster = Some (sp_ClusterID p)\<rparr> d)) (\<lambda>(i, d1).
           err_sql (insert_site_rows i (sp_CreatedAt p) d1))
       | Some s \<Rightarrow>
           err_sql (update_sites (\<lambda>r. site_id r = site_id s)
             (\<lambda>r. r\<lparr>site_name := sp_Name p, site_url := sp_PrimaryURL p, site_enabled := sp_Enabled p,
                    site_group := gid, site_archived := archived_value p, site_updated := sp_UpdatedAt p\<rparr>) d))"

definition archive_site :: "SitePayload \<Rightarrow> db \<Rightarrow> (fsm_error, db) result" where
  "archive_site p d =
     err_sql (update_sites (site_cid (sp_ClusterID p))
       (\<lambda>r. r\<lparr>site_archived := archived_value p, site_updated := sp_UpdatedAt p\<rparr>) d)"

definition set_tags :: "TagsPayload \<Rightarrow> db \<Rightarrow> (fsm_error, db) result" where
  "set_tags p d =
     (case first_row (site_cid (tp_SiteClusterID p)) (db_sites d) of
        None \<Rightarrow> Inl (ESql NoRows)
      | Some s \<Rightarrow> err_sql (res_fold (insert_tag (site_id s)) (tp_Tags p) (delete_tags (site_id s) d)))"

definition materialize :: "string \<Rightarrow> string \<Rightarrow> json option \<Rightarrow> db \<Rightarrow> (fsm_error, db) result" where
  "materialize kind obj payload d =
     (if kind = KindGroupPut then res_bind (err_json (unmarshal group_fields zero_group payload)) (\<lambda>p. put_group p d)
      else if kind = KindSitePut then res_bind (err_json (unmarshal site_fields zero_site payload)) (\<lambda>p. put_site p d)
      else if kind = KindSiteArchive then res_bind (err_json (unmarshal site_fields zero_site payload)) (\<lambda>p. archive_site p d)
      else if kind = KindSiteDelete then Inr (delete_sites (site_cid obj) d)
      else if kind = KindTagsSet then res_bind (err_json (unmarshal tags_fields zero_tags payload)) (\<lambda>p. set_tags p d)
      else Inl (EUnsupported kind))"

subsection \<open>The state machine\<close>

record operation =
  op_ID :: string
  op_ObjectID :: string
  op_Kind :: string
  op_Version :: int
  op_Payload :: string

record raft_log =
  log_Index :: "64 word"
  log_Term :: "64 word"
  log_Data :: string

record apply_result =
  ar_Index :: "64 word"
  ar_Term :: "64 word"
  ar_OpID :: string
  ar_ObjectID :: string
  ar_Kind :: string
  ar_Version :: int

record FSM =
  fsm_db :: db
  fsm_applied :: "string \<rightharpoonup> string"
  fsm_index :: "64 word"
  fsm_term :: "64 word"
  fsm_failure :: "fsm_error option"

text \<open>\<^verbatim>\<open>fmt.Sprint\<close> and \<^verbatim>\<open>strconv.ParseUint(v, 10, 64)\<close> with its error ignored: 0 for a text that is not a
  numeral, the largest value for a numeral out of range.\<close>

definition sprint_uint :: "64 word \<Rightarrow> string" where
  "sprint_uint w = string_of_nat (unat w)"

definition is_digit :: "char \<Rightarrow> bool" where
  "is_digit c \<longleftrightarrow> 48 \<le> (of_char c :: nat) \<and> (of_char c :: nat) \<le> 57"

definition digits_value :: "string \<Rightarrow> nat" where
  "digits_value s = foldl (\<lambda>n c. n * 10 + (of_char c - 48)) 0 s"

definition parse_uint :: "string \<Rightarrow> 64 word" where
  "parse_uint s = (if s = '''' \<or> \<not> list_all is_digit s then 0
     else if digits_value s < 2 ^ 64 then of_nat (digits_value s) else - 1)"

definition op_key :: "string \<Rightarrow> string" where
  "op_key i = ''op:'' @ i"

definition NewFSM :: "db \<Rightarrow> FSM" where
  "NewFSM d = \<lparr>fsm_db = d,
     fsm_applied = (\<lambda>i. if i = '''' then None else db_meta d (op_key i)),
     fsm_index = (case db_meta d ''index'' of None \<Rightarrow> 0 | Some v \<Rightarrow> parse_uint v),
     fsm_term = (case db_meta d ''term'' of None \<Rightarrow> 0 | Some v \<Rightarrow> parse_uint v),
     fsm_failure = None\<rparr>"

definition OpKnown :: "string \<Rightarrow> FSM \<Rightarrow> string option" where
  "OpKnown i f = fsm_applied f i"

definition AppliedIndex :: "FSM \<Rightarrow> 64 word \<times> 64 word" where
  "AppliedIndex f = (fsm_index f, fsm_term f)"

definition ApplyFailure :: "FSM \<Rightarrow> fsm_error option" where
  "ApplyFailure f = fsm_failure f"

definition fail :: "fsm_error \<Rightarrow> FSM \<Rightarrow> FSM" where
  "fail e f = (if fsm_failure f = None then f\<lparr>fsm_failure := Some e\<rparr> else f)"

definition result_of :: "raft_log \<Rightarrow> operation \<Rightarrow> apply_result" where
  "result_of l op = \<lparr>ar_Index = log_Index l, ar_Term = log_Term l, ar_OpID = op_ID op, ar_ObjectID = op_ObjectID op,
     ar_Kind = op_Kind op, ar_Version = op_Version op\<rparr>"

definition put_markers :: "string \<Rightarrow> string \<Rightarrow> raft_log \<Rightarrow> db \<Rightarrow> db" where
  "put_markers i dg l d = d\<lparr>db_meta := (db_meta d)(op_key i \<mapsto> dg, ''index'' \<mapsto> sprint_uint (log_Index l),
     ''term'' \<mapsto> sprint_uint (log_Term l))\<rparr>"

text \<open>The transaction of \<^verbatim>\<open>Apply\<close>: the operation, its markers, the commit.\<close>

definition apply_tx :: "(string \<Rightarrow> json option) \<Rightarrow> bool \<Rightarrow> raft_log \<Rightarrow> operation \<Rightarrow> string \<Rightarrow> db \<Rightarrow> (fsm_error, db) result" where
  "apply_tx parse commits l op dg d =
     res_bind (materialize (op_Kind op) (op_ObjectID op) (parse (op_Payload op)) d)
       (\<lambda>d. if commits then Inr (put_markers (op_ID op) dg l d) else Inl ECommit)"

definition Apply ::
  "(string \<Rightarrow> (string, operation) result) \<Rightarrow> (operation \<Rightarrow> (string, string) result) \<Rightarrow> (string \<Rightarrow> json option) \<Rightarrow>
   bool \<Rightarrow> raft_log \<Rightarrow> FSM \<Rightarrow> (fsm_error, apply_result) result \<times> FSM" where
  "Apply DecodeOperation Digest parse commits l f =
     (case DecodeOperation (log_Data l) of
        Inl e \<Rightarrow> (Inl (EDecode e), fail (EDecode e) f)
      | Inr op \<Rightarrow>
          (case fsm_failure f of
             Some e \<Rightarrow> (Inl e, f)
           | None \<Rightarrow>
          (case Digest op of
             Inl e \<Rightarrow> (Inl (EDigest e), f)
           | Inr dg \<Rightarrow>
          (case fsm_applied f (op_ID op) of
             Some old \<Rightarrow>
               if old \<noteq> dg then (Inl EReused, f)
               else (Inr (result_of l op), f\<lparr>fsm_index := log_Index l, fsm_term := log_Term l\<rparr>)
           | None \<Rightarrow>
          (case apply_tx parse commits l op dg (fsm_db f) of
             Inl e \<Rightarrow> (Inl e, if e = EGroupConflict then f else f\<lparr>fsm_failure := Some e\<rparr>)
           | Inr d \<Rightarrow> (Inr (result_of l op),
               f\<lparr>fsm_db := d, fsm_applied := (fsm_applied f)(op_ID op \<mapsto> dg),
                 fsm_index := log_Index l, fsm_term := log_Term l\<rparr>))))))"

subsection \<open>Snapshots\<close>

record snapshot =
  sn_Groups :: "GroupPayload list"
  sn_Sites :: "SitePayload list"
  sn_Tags :: "string \<rightharpoonup> string list"
  sn_Applied :: "string \<rightharpoonup> string"
  sn_Index :: "64 word"
  sn_Term :: "64 word"

definition group_payload :: "group_row \<Rightarrow> GroupPayload" where
  "group_payload g = \<lparr>gp_ClusterID = coalesce (grp_cluster g), gp_OrgID = grp_org g, gp_Name = grp_name g,
     gp_CreatedAt = grp_created g\<rparr>"

text \<open>The cluster id of a site's group, by the LEFT JOIN on the local group id.\<close>

definition group_ref_cid :: "group_row list \<Rightarrow> int option \<Rightarrow> string" where
  "group_ref_cid gs gid =
     (case gid of None \<Rightarrow> ''''
      | Some i \<Rightarrow> (case first_row (\<lambda>g. grp_id g = i) gs of None \<Rightarrow> '''' | Some g \<Rightarrow> coalesce (grp_cluster g)))"

definition site_payload :: "group_row list \<Rightarrow> site_row \<Rightarrow> SitePayload" where
  "site_payload gs s = \<lparr>sp_ClusterID = coalesce (site_cluster s), sp_OrgID = site_org s, sp_Name = site_name s,
     sp_PrimaryURL = site_url s, sp_GroupClusterID = group_ref_cid gs (site_group s), sp_Enabled = site_enabled s,
     sp_Archived = (site_archived s \<noteq> None), sp_CreatedAt = site_created s, sp_UpdatedAt = site_updated s\<rparr>"

definition tags_of :: "db \<Rightarrow> string \<Rightarrow> string list" where
  "tags_of d c = sort (map tag_text (filter (\<lambda>t. \<exists>s \<in> set (db_sites d). site_id s = tag_site t \<and> site_cid c s) (db_tags d)))"

definition Snapshot :: "FSM \<Rightarrow> snapshot" where
  "Snapshot f =
     (let d = fsm_db f;
          gs = sort_key gp_ClusterID (map group_payload (filter (\<lambda>g. grp_cluster g \<noteq> None) (db_groups d)));
          ss = sort_key sp_ClusterID (map (site_payload (db_groups d)) (filter (\<lambda>s. site_cluster s \<noteq> None) (db_sites d)))
      in \<lparr>sn_Groups = gs, sn_Sites = ss,
          sn_Tags = (\<lambda>c. if c \<in> set (map sp_ClusterID ss) \<and> tags_of d c \<noteq> [] then Some (tags_of d c) else None),
          sn_Applied = fsm_applied f, sn_Index = fsm_index f, sn_Term = fsm_term f\<rparr>)"

definition restore_meta :: "snapshot \<Rightarrow> string \<Rightarrow> string option" where
  "restore_meta s k =
     (if k = ''index'' then Some (sprint_uint (sn_Index s))
      else if k = ''term'' then Some (sprint_uint (sn_Term s))
      else if has_prefix k ''op:'' then sn_Applied s (drop 3 k) else None)"

text \<open>Sites, then groups, whose cluster id the snapshot does not have are deleted.\<close>

definition delete_stale_sites :: "snapshot \<Rightarrow> db \<Rightarrow> db" where
  "delete_stale_sites s d =
     fold (\<lambda>c. delete_sites (site_cid c))
       (filter (\<lambda>c. c \<notin> set (map sp_ClusterID (sn_Sites s))) (indexed site_cluster (db_sites d))) d"

definition delete_stale_groups :: "snapshot \<Rightarrow> db \<Rightarrow> db" where
  "delete_stale_groups s d =
     fold (\<lambda>c. delete_groups (group_cid c))
       (filter (\<lambda>c. c \<notin> set (map gp_ClusterID (sn_Groups s))) (indexed grp_cluster (db_groups d))) d"

definition snapshot_tags :: "snapshot \<Rightarrow> SitePayload \<Rightarrow> TagsPayload" where
  "snapshot_tags s p = \<lparr>tp_SiteClusterID = sp_ClusterID p,
     tp_Tags = (case sn_Tags s (sp_ClusterID p) of None \<Rightarrow> [] | Some ts \<Rightarrow> ts)\<rparr>"

definition restore_db :: "snapshot \<Rightarrow> db \<Rightarrow> (fsm_error, db) result" where
  "restore_db s d =
     res_bind (res_fold (\<lambda>p. materialize KindGroupPut '''' (Some (mustJSON_group p))) (sn_Groups s) d) (\<lambda>d.
     res_bind (res_fold (\<lambda>p. materialize KindSitePut '''' (Some (mustJSON_site p))) (sn_Sites s) d) (\<lambda>d.
     res_bind (res_fold (\<lambda>p. materialize KindTagsSet '''' (Some (mustJSON_tags (snapshot_tags s p)))) (sn_Sites s)
         (delete_stale_groups s (delete_stale_sites s d))) (\<lambda>d.
     Inr (d\<lparr>db_meta := restore_meta s\<rparr>))))"

definition Restore :: "bool \<Rightarrow> snapshot option \<Rightarrow> FSM \<Rightarrow> (fsm_error, unit) result \<times> FSM" where
  "Restore commits snap f =
     (case snap of
        None \<Rightarrow> (Inl (EJson JSyntax), f)
      | Some s \<Rightarrow>
          (case restore_db s (fsm_db f) of
             Inl e \<Rightarrow> (Inl e, f)
           | Inr d \<Rightarrow>
               if \<not> commits then (Inl ECommit, f)
               else (Inr (), \<lparr>fsm_db = d, fsm_applied = sn_Applied s, fsm_index = sn_Index s, fsm_term = sn_Term s,
                              fsm_failure = None\<rparr>)))"

end
