(* ===== verification/Fleet_Spec.thy ===== *)
theory Fleet_Spec
  imports Replicated_FSM
begin

text \<open>
  What the replicated state machine promises: an abstract fleet keyed by cluster ids, without the
  row ids a node chooses for itself, and the effect of every operation on it. \<open>view\<close> abstracts the
  tables of a node; on a node without pre-cluster rows (\<^verbatim>\<open>NewReplication\<close> refuses to start otherwise)
  every operation of the state machine is a functional refinement of the abstract one.
\<close>

subsection \<open>The abstract fleet\<close>

record group_view =
  gv_org :: int
  gv_name :: string
  gv_created :: string

record site_view =
  sv_org :: int
  sv_name :: string
  sv_url :: string
  sv_enabled :: bool
  sv_group :: string
  sv_archived :: "string option"
  sv_created :: string
  sv_updated :: string

record fleet =
  fl_orgs :: "int set"
  fl_groups :: "string \<rightharpoonup> group_view"
  fl_sites :: "string \<rightharpoonup> site_view"
  fl_tags :: "string \<Rightarrow> string set"

definition spec_put_group :: "GroupPayload \<Rightarrow> fleet \<Rightarrow> (fsm_error, fleet) result" where
  "spec_put_group p v =
     (if \<exists>c g. fl_groups v c = Some g \<and> gv_org g = gp_OrgID p \<and> gv_name g = gp_Name p \<and> c \<noteq> gp_ClusterID p
      then Inl EGroupConflict
      else if gp_OrgID p \<notin> fl_orgs v then Inl (ESql ForeignKeyViolation)
      else Inr (v\<lparr>fl_groups := (fl_groups v)(gp_ClusterID p \<mapsto>
             (case fl_groups v (gp_ClusterID p) of
                None \<Rightarrow> \<lparr>gv_org = gp_OrgID p, gv_name = gp_Name p, gv_created = gp_CreatedAt p\<rparr>
              | Some g \<Rightarrow> g\<lparr>gv_org := gp_OrgID p, gv_name := gp_Name p\<rparr>))\<rparr>))"

definition spec_put_site :: "SitePayload \<Rightarrow> fleet \<Rightarrow> (fsm_error, fleet) result" where
  "spec_put_site p v =
     (if sp_GroupClusterID p \<noteq> '''' \<and> fl_groups v (sp_GroupClusterID p) = None then Inl (ESql NoRows)
      else case fl_sites v (sp_ClusterID p) of
        None \<Rightarrow> if sp_OrgID p \<notin> fl_orgs v then Inl (ESql ForeignKeyViolation)
                 else Inr (v\<lparr>fl_sites := (fl_sites v)(sp_ClusterID p \<mapsto>
                   \<lparr>sv_org = sp_OrgID p, sv_name = sp_Name p, sv_url = sp_PrimaryURL p, sv_enabled = sp_Enabled p,
                    sv_group = sp_GroupClusterID p, sv_archived = archived_value p,
                    sv_created = sp_CreatedAt p, sv_updated = sp_UpdatedAt p\<rparr>)\<rparr>)
      | Some s \<Rightarrow> Inr (v\<lparr>fl_sites := (fl_sites v)(sp_ClusterID p \<mapsto>
                   s\<lparr>sv_name := sp_Name p, sv_url := sp_PrimaryURL p, sv_enabled := sp_Enabled p,
                     sv_group := sp_GroupClusterID p, sv_archived := archived_value p,
                     sv_updated := sp_UpdatedAt p\<rparr>)\<rparr>))"

definition spec_archive_site :: "SitePayload \<Rightarrow> fleet \<Rightarrow> fleet" where
  "spec_archive_site p v =
     (case fl_sites v (sp_ClusterID p) of
        None \<Rightarrow> v
      | Some s \<Rightarrow> v\<lparr>fl_sites := (fl_sites v)(sp_ClusterID p \<mapsto>
          s\<lparr>sv_archived := archived_value p, sv_updated := sp_UpdatedAt p\<rparr>)\<rparr>)"

definition spec_delete_site :: "string \<Rightarrow> fleet \<Rightarrow> fleet" where
  "spec_delete_site c v = v\<lparr>fl_sites := (fl_sites v)(c := None), fl_tags := (fl_tags v)(c := {})\<rparr>"

definition spec_set_tags :: "TagsPayload \<Rightarrow> fleet \<Rightarrow> (fsm_error, fleet) result" where
  "spec_set_tags p v =
     (if fl_sites v (tp_SiteClusterID p) = None then Inl (ESql NoRows)
      else if \<not> distinct (tp_Tags p) then Inl (ESql UniqueViolation)
      else Inr (v\<lparr>fl_tags := (fl_tags v)(tp_SiteClusterID p := set (tp_Tags p))\<rparr>))"

definition spec_materialize :: "string \<Rightarrow> string \<Rightarrow> json option \<Rightarrow> fleet \<Rightarrow> (fsm_error, fleet) result" where
  "spec_materialize kind obj payload v =
     (if kind = KindGroupPut then res_bind (err_json (unmarshal group_fields zero_group payload)) (\<lambda>p. spec_put_group p v)
      else if kind = KindSitePut then res_bind (err_json (unmarshal site_fields zero_site payload)) (\<lambda>p. spec_put_site p v)
      else if kind = KindSiteArchive
      then res_bind (err_json (unmarshal site_fields zero_site payload)) (\<lambda>p. Inr (spec_archive_site p v))
      else if kind = KindSiteDelete then Inr (spec_delete_site obj v)
      else if kind = KindTagsSet then res_bind (err_json (unmarshal tags_fields zero_tags payload)) (\<lambda>p. spec_set_tags p v)
      else Inl (EUnsupported kind))"

subsection \<open>The abstraction\<close>

definition group_view_of :: "group_row \<Rightarrow> group_view" where
  "group_view_of g = \<lparr>gv_org = grp_org g, gv_name = grp_name g, gv_created = grp_created g\<rparr>"

definition site_view_of :: "group_row list \<Rightarrow> site_row \<Rightarrow> site_view" where
  "site_view_of gs s = \<lparr>sv_org = site_org s, sv_name = site_name s, sv_url = site_url s, sv_enabled = site_enabled s,
     sv_group = group_ref_cid gs (site_group s), sv_archived = site_archived s, sv_created = site_created s,
     sv_updated = site_updated s\<rparr>"

definition view :: "db \<Rightarrow> fleet" where
  "view d = \<lparr>fl_orgs = set (org_ids d),
     fl_groups = (\<lambda>c. map_option group_view_of (first_row (group_cid c) (db_groups d))),
     fl_sites = (\<lambda>c. map_option (site_view_of (db_groups d)) (first_row (site_cid c) (db_sites d))),
     fl_tags = (\<lambda>c. set (tags_of d c))\<rparr>"

text \<open>A node whose fleet rows all have a cluster id, as \<^verbatim>\<open>NewReplication\<close> checks.\<close>

definition replica_ok :: "db \<Rightarrow> bool" where
  "replica_ok d \<longleftrightarrow> db_ok d \<and> (\<forall>g \<in> set (db_groups d). grp_cluster g \<noteq> None) \<and>
     (\<forall>s \<in> set (db_sites d). site_cluster s \<noteq> None)"

lemma replica_ok_init [simp]: "replica_ok init_db"
  by (simp add: replica_ok_def) (simp add: init_db_def)

lemma group_row_iff:
  assumes "db_ok d"
  shows "first_row (group_cid c) (db_groups d) = Some g \<longleftrightarrow> g \<in> set (db_groups d) \<and> grp_cluster g = Some c"
proof
  assume "g \<in> set (db_groups d) \<and> grp_cluster g = Some c"
  moreover then obtain g' where "first_row (group_cid c) (db_groups d) = Some g'"
    using first_row_None [of "group_cid c" "db_groups d"] unfolding group_cid_def by fastforce
  ultimately show "first_row (group_cid c) (db_groups d) = Some g"
    using assms indexed_inj [of grp_cluster "db_groups d" g g' c] first_row_Some [of "group_cid c" "db_groups d" g']
    by (auto simp: group_cid_def db_ok_def groups_ok_def)
qed (auto simp: group_cid_def dest: first_row_Some)

lemma site_row_iff:
  assumes "db_ok d"
  shows "first_row (site_cid c) (db_sites d) = Some s \<longleftrightarrow> s \<in> set (db_sites d) \<and> site_cluster s = Some c"
proof
  assume "s \<in> set (db_sites d) \<and> site_cluster s = Some c"
  moreover then obtain s' where "first_row (site_cid c) (db_sites d) = Some s'"
    using first_row_None [of "site_cid c" "db_sites d"] unfolding site_cid_def by fastforce
  ultimately show "first_row (site_cid c) (db_sites d) = Some s"
    using assms indexed_inj [of site_cluster "db_sites d" s s' c] first_row_Some [of "site_cid c" "db_sites d" s']
    by (auto simp: site_cid_def db_ok_def sites_ok_def)
qed (auto simp: site_cid_def dest: first_row_Some)

lemma group_ref_cid_row:
  assumes "db_ok d" "g \<in> set (db_groups d)"
  shows "group_ref_cid (db_groups d) (Some (grp_id g)) = coalesce (grp_cluster g)"
proof -
  have "first_row (\<lambda>x. grp_id x = grp_id g) (db_groups d) = Some g"
    using assms by (intro first_row_unique [where g = grp_id]) (auto simp: db_ok_def groups_ok_def)
  then show ?thesis by (simp add: group_ref_cid_def)
qed

text \<open>Two databases that differ in tables outside the fleet have the same view.\<close>

lemma view_cong:
  "db_orgs d' = db_orgs d \<Longrightarrow> db_groups d' = db_groups d \<Longrightarrow> db_sites d' = db_sites d \<Longrightarrow> db_tags d' = db_tags d \<Longrightarrow>
     view d' = view d"
  by (simp add: view_def tags_of_def)

lemma view_markers [simp]: "view (put_markers i dg l d) = view d"
  by (simp add: put_markers_def view_def tags_of_def)

lemma replica_ok_markers [simp]: "replica_ok (put_markers i dg l d) = replica_ok d"
  by (simp add: put_markers_def replica_ok_def db_ok_def)

subsection \<open>Groups\<close>

lemma view_groups:
  assumes "\<And>s. s \<in> set (db_sites d) \<Longrightarrow> group_ref_cid gs (site_group s) = group_ref_cid (db_groups d) (site_group s)"
  shows "view (d\<lparr>db_groups := gs\<rparr>) = (view d)\<lparr>fl_groups := (\<lambda>c. map_option group_view_of (first_row (group_cid c) gs))\<rparr>"
proof -
  have "map_option (site_view_of gs) (first_row (site_cid c) (db_sites d)) =
      map_option (site_view_of (db_groups d)) (first_row (site_cid c) (db_sites d))" for c
    using assms by (cases "first_row (site_cid c) (db_sites d)") (auto simp: site_view_of_def dest: first_row_Some)
  then show ?thesis by (simp add: view_def tags_of_def)
qed

lemma site_group_known:
  assumes "db_ok d" "s \<in> set (db_sites d)" "site_group s = Some i"
  obtains g where "first_row (\<lambda>g. grp_id g = i) (db_groups d) = Some g"
proof -
  have "i \<in> set (group_ids d)" using assms by (auto simp: db_ok_def sites_ok_def split: option.splits)
  then show ?thesis
    using that first_row_None [of "\<lambda>g. grp_id g = i" "db_groups d"]
    by (cases "first_row (\<lambda>g. grp_id g = i) (db_groups d)") auto
qed

lemma view_insert_group:
  assumes "db_ok d" "insert_group org nm created (Some c) d = Inr (i, d')"
  shows "view d' = (view d)\<lparr>fl_groups := (fl_groups (view d))(c \<mapsto> \<lparr>gv_org = org, gv_name = nm, gv_created = created\<rparr>)\<rparr>"
proof -
  let ?g = "\<lparr>grp_id = i, grp_org = org, grp_name = nm, grp_created = created, grp_cluster = Some c\<rparr>"
  have d': "d' = d\<lparr>db_groups := db_groups d @ [?g]\<rparr>" "\<forall>g \<in> set (db_groups d). grp_cluster g \<noteq> Some c"
    using assms(2) unfolding insert_group_def Let_def by (auto split: if_splits)
  have "first_row (group_cid c) (db_groups d) = None" using d'(2) by (simp add: first_row_None group_cid_def)
  then have "(\<lambda>x. map_option group_view_of (first_row (group_cid x) (db_groups d @ [?g]))) =
      (fl_groups (view d))(c \<mapsto> \<lparr>gv_org = org, gv_name = nm, gv_created = created\<rparr>)"
    by (intro ext) (auto simp: view_def first_row_append group_cid_def group_view_of_def split: option.splits)
  moreover have "group_ref_cid (db_groups d @ [?g]) (site_group s) = group_ref_cid (db_groups d) (site_group s)"
    if s: "s \<in> set (db_sites d)" for s
  proof (cases "site_group s")
    case (Some j)
    then obtain g where "first_row (\<lambda>g. grp_id g = j) (db_groups d) = Some g"
      using site_group_known [OF assms(1) s Some] by blast
    with Some show ?thesis by (simp add: group_ref_cid_def first_row_append)
  qed (simp add: group_ref_cid_def)
  ultimately show ?thesis unfolding d'(1) by (subst view_groups) simp_all
qed

lemma group_ref_cid_upd:
  assumes "\<And>g. grp_id (f g) = grp_id g \<and> grp_cluster (f g) = grp_cluster g"
  shows "group_ref_cid (upd_where P f gs) gid = group_ref_cid gs gid"
proof (cases gid)
  case (Some i)
  have "first_row (\<lambda>g. grp_id g = i) (upd_where P f gs) =
      map_option (\<lambda>r. if P r then f r else r) (first_row (\<lambda>g. grp_id g = i) gs)"
    by (rule first_row_upd_where) (simp add: assms)
  with Some assms show ?thesis
    by (cases "first_row (\<lambda>g. grp_id g = i) gs") (simp_all add: group_ref_cid_def)
qed (simp add: group_ref_cid_def)

lemma view_update_group:
  assumes "update_group org nm c d = Inr d'" "first_row (group_cid c) (db_groups d) = Some g"
  shows "view d' = (view d)\<lparr>fl_groups := (fl_groups (view d))(c \<mapsto> (group_view_of g)\<lparr>gv_org := org, gv_name := nm\<rparr>)\<rparr>"
proof -
  let ?f = "\<lambda>g. g\<lparr>grp_org := org, grp_name := nm\<rparr>"
  have d': "d' = d\<lparr>db_groups := upd_where (\<lambda>g. grp_cluster g = Some c) ?f (db_groups d)\<rparr>"
    using assms(1) unfolding update_group_def by (auto split: if_splits)
  have row: "first_row (group_cid x) (upd_where (\<lambda>g. grp_cluster g = Some c) ?f (db_groups d)) =
      map_option (\<lambda>r. if grp_cluster r = Some c then ?f r else r) (first_row (group_cid x) (db_groups d))" for x
    by (rule first_row_upd_where) (simp add: group_cid_def)
  have "(\<lambda>x. map_option group_view_of (first_row (group_cid x) (upd_where (\<lambda>g. grp_cluster g = Some c) ?f (db_groups d)))) =
      (fl_groups (view d))(c \<mapsto> (group_view_of g)\<lparr>gv_org := org, gv_name := nm\<rparr>)"
  proof
    fix x
    show "map_option group_view_of (first_row (group_cid x) (upd_where (\<lambda>g. grp_cluster g = Some c) ?f (db_groups d))) =
      ((fl_groups (view d))(c \<mapsto> (group_view_of g)\<lparr>gv_org := org, gv_name := nm\<rparr>)) x"
      using assms(2) first_row_Some [of "group_cid x" "db_groups d"] first_row_Some [OF assms(2)]
      by (cases "first_row (group_cid x) (db_groups d)") (auto simp: row view_def group_view_of_def group_cid_def)
  qed
  then show ?thesis unfolding d' by (subst view_groups) (simp_all add: group_ref_cid_upd)
qed

text \<open>On a node without pre-cluster rows, the group of a name is the group of a cluster id.\<close>

lemma name_clash_iff:
  assumes "replica_ok d"
  shows "(\<exists>x g. fl_groups (view d) x = Some g \<and> gv_org g = org \<and> gv_name g = nm \<and> x \<noteq> c) \<longleftrightarrow>
    (\<exists>g \<in> set (db_groups d). grp_org g = org \<and> grp_name g = nm \<and> grp_cluster g \<noteq> Some c)"
proof
  assume "\<exists>x g. fl_groups (view d) x = Some g \<and> gv_org g = org \<and> gv_name g = nm \<and> x \<noteq> c"
  then show "\<exists>g \<in> set (db_groups d). grp_org g = org \<and> grp_name g = nm \<and> grp_cluster g \<noteq> Some c"
    using assms by (auto simp: view_def group_view_of_def replica_ok_def group_row_iff)
next
  assume "\<exists>g \<in> set (db_groups d). grp_org g = org \<and> grp_name g = nm \<and> grp_cluster g \<noteq> Some c"
  then obtain g x where g: "g \<in> set (db_groups d)" "grp_org g = org" "grp_name g = nm" "grp_cluster g = Some x" "x \<noteq> c"
    using assms by (auto simp: replica_ok_def)
  then have "first_row (group_cid x) (db_groups d) = Some g"
    using assms by (simp add: replica_ok_def group_row_iff)
  with g show "\<exists>x g. fl_groups (view d) x = Some g \<and> gv_org g = org \<and> gv_name g = nm \<and> x \<noteq> c"
    by (intro exI [of _ x] exI [of _ "group_view_of g"]) (simp add: view_def group_view_of_def)
qed

lemma put_group_conflict_iff:
  assumes "replica_ok d"
  shows "put_group p d = (if \<exists>g \<in> set (db_groups d). grp_org g = gp_OrgID p \<and> grp_name g = gp_Name p \<and>
       grp_cluster g \<noteq> Some (gp_ClusterID p) then Inl EGroupConflict else upsert_group p d)"
proof (cases "first_row (\<lambda>g. grp_org g = gp_OrgID p \<and> grp_name g = gp_Name p) (db_groups d)")
  case None
  then have "\<forall>g \<in> set (db_groups d). \<not> (grp_org g = gp_OrgID p \<and> grp_name g = gp_Name p)"
    by (simp add: first_row_None)
  with None show ?thesis by (auto simp: put_group_def)
next
  case (Some g)
  have same: "g' = g" if "g' \<in> set (db_groups d)" "grp_org g' = gp_OrgID p" "grp_name g' = gp_Name p" for g'
    using assms that first_row_Some [OF Some]
      distinct_map_inj [of "\<lambda>g. (grp_org g, grp_name g)" "db_groups d" g' g]
    by (simp add: replica_ok_def db_ok_def groups_ok_def)
  have g: "g \<in> set (db_groups d)" "grp_org g = gp_OrgID p" "grp_name g = gp_Name p"
    using first_row_Some [OF Some] by simp_all
  obtain x where x: "grp_cluster g = Some x" using assms g(1) by (auto simp: replica_ok_def)
  have "(\<exists>g \<in> set (db_groups d). grp_org g = gp_OrgID p \<and> grp_name g = gp_Name p \<and>
      grp_cluster g \<noteq> Some (gp_ClusterID p)) \<longleftrightarrow> x \<noteq> gp_ClusterID p"
  proof
    assume "\<exists>g \<in> set (db_groups d). grp_org g = gp_OrgID p \<and> grp_name g = gp_Name p \<and>
      grp_cluster g \<noteq> Some (gp_ClusterID p)"
    then obtain g' where g': "g' \<in> set (db_groups d)" "grp_org g' = gp_OrgID p" "grp_name g' = gp_Name p"
      "grp_cluster g' \<noteq> Some (gp_ClusterID p)" by blast
    then show "x \<noteq> gp_ClusterID p" using same [OF g'(1-3)] x by simp
  qed (use g x in auto)
  then show ?thesis using Some x by (simp add: put_group_def coalesce_def)
qed

lemma put_group_refines:
  assumes "replica_ok d"
  shows "res_map view (put_group p d) = spec_put_group p (view d)"
proof (cases "\<exists>g \<in> set (db_groups d). grp_org g = gp_OrgID p \<and> grp_name g = gp_Name p \<and> grp_cluster g \<noteq> Some (gp_ClusterID p)")
  case True
  then show ?thesis
    using put_group_conflict_iff [OF assms, of p] name_clash_iff [OF assms, of "gp_OrgID p" "gp_Name p" "gp_ClusterID p"]
    by (simp add: spec_put_group_def)
next
  case clash: False
  have put: "put_group p d = upsert_group p d"
    using put_group_conflict_iff [OF assms, of p] clash by simp
  have spec: "spec_put_group p (view d) =
      (if gp_OrgID p \<notin> fl_orgs (view d) then Inl (ESql ForeignKeyViolation)
       else Inr ((view d)\<lparr>fl_groups := (fl_groups (view d))(gp_ClusterID p \<mapsto>
             (case fl_groups (view d) (gp_ClusterID p) of
                None \<Rightarrow> \<lparr>gv_org = gp_OrgID p, gv_name = gp_Name p, gv_created = gp_CreatedAt p\<rparr>
              | Some g \<Rightarrow> g\<lparr>gv_org := gp_OrgID p, gv_name := gp_Name p\<rparr>))\<rparr>))"
    unfolding spec_put_group_def name_clash_iff [OF assms] using clash by (simp only: if_False)
  have ok: "db_ok d" using assms by (simp add: replica_ok_def)
  have orgs: "fl_orgs (view d) = set (org_ids d)" by (simp add: view_def)
  show ?thesis
  proof (cases "first_row (group_cid (gp_ClusterID p)) (db_groups d)")
    case None
    then have no: "\<forall>g \<in> set (db_groups d). grp_cluster g \<noteq> Some (gp_ClusterID p)"
      by (simp add: first_row_None group_cid_def)
    have fl: "fl_groups (view d) (gp_ClusterID p) = None" using None by (simp add: view_def)
    show ?thesis
    proof (cases "gp_OrgID p \<in> set (org_ids d)")
      case True
      then obtain i d' where ins: "insert_group (gp_OrgID p) (gp_Name p) (gp_CreatedAt p) (Some (gp_ClusterID p)) d = Inr (i, d')"
        using no clash insert_group_succeeds [of d "gp_OrgID p" "gp_Name p"] by metis
      then show ?thesis
        using None True fl by (simp add: put upsert_group_def spec orgs view_insert_group [OF ok ins])
    next
      case False
      have "insert_group (gp_OrgID p) (gp_Name p) (gp_CreatedAt p) (Some (gp_ClusterID p)) d = Inl ForeignKeyViolation"
        using no clash False unfolding insert_group_def by auto
      with None False show ?thesis by (simp add: put upsert_group_def spec orgs)
    qed
  next
    case (Some g)
    then have ex: "\<exists>g \<in> set (db_groups d). grp_cluster g = Some (gp_ClusterID p)"
      using ok by (auto simp: group_row_iff)
    have fl: "fl_groups (view d) (gp_ClusterID p) = Some (group_view_of g)" using Some by (simp add: view_def)
    show ?thesis
    proof (cases "gp_OrgID p \<in> set (org_ids d)")
      case True
      then obtain d' where upd: "update_group (gp_OrgID p) (gp_Name p) (gp_ClusterID p) d = Inr d'"
        using clash update_group_succeeds [of d "gp_OrgID p" "gp_Name p"] by metis
      then show ?thesis using Some True fl by (simp add: put upsert_group_def spec orgs view_update_group [OF upd Some])
    next
      case False
      have "update_group (gp_OrgID p) (gp_Name p) (gp_ClusterID p) d = Inl ForeignKeyViolation"
        using ex clash False unfolding update_group_def by auto
      with Some False show ?thesis by (simp add: put upsert_group_def spec orgs)
    qed
  qed
qed

subsection \<open>Sites\<close>

lemma insert_site_row:
  assumes "insert_site r d = Inr (i, d')"
  shows "d' = d\<lparr>db_sites := db_sites d @ [r\<lparr>site_id := i\<rparr>]\<rparr>" "i = fresh_id (site_ids d)"
  using assms unfolding insert_site_def Let_def by (auto split: if_splits)

lemma fresh_site_unused:
  assumes "db_ok d" "i = fresh_id (site_ids d)"
  shows "\<forall>m \<in> set (db_monitors d). mon_site m \<noteq> i" "\<forall>h \<in> set (db_health d). hl_site h \<noteq> i"
    "\<forall>h \<in> set (db_headers d). hx_site h \<noteq> i" "\<forall>t \<in> set (db_tags d). tag_site t \<noteq> i"
    "\<forall>s \<in> set (db_sites d). site_id s \<noteq> i"
proof -
  have "i \<notin> set (site_ids d)" unfolding assms(2) by (rule fresh_id_notin)
  with assms(1) show "\<forall>m \<in> set (db_monitors d). mon_site m \<noteq> i" "\<forall>h \<in> set (db_health d). hl_site h \<noteq> i"
    "\<forall>h \<in> set (db_headers d). hx_site h \<noteq> i" "\<forall>t \<in> set (db_tags d). tag_site t \<noteq> i"
    "\<forall>s \<in> set (db_sites d). site_id s \<noteq> i"
    unfolding db_ok_def monitors_ok_def health_ok_def headers_ok_def tags_ok_def by auto
qed

lemma insert_site_succeeds:
  assumes "\<forall>s \<in> set (db_sites d). site_cluster s \<noteq> Some c" "site_cluster r = Some c" "site_org r \<in> set (org_ids d)"
    and "\<And>g. site_group r = Some g \<Longrightarrow> g \<in> set (group_ids d)"
  obtains i d' where "insert_site r d = Inr (i, d')"
proof -
  have no: "\<not> (\<exists>s \<in> set (db_sites d). site_cluster s = Some c)"
    "\<not> (\<exists>g. site_group r = Some g \<and> g \<notin> set (group_ids d))"
    using assms(1,4) by blast+
  show ?thesis
    by (rule that) (simp only: insert_site_def assms(2,3) no if_False not_True_eq_False simp_thms Let_def)
qed

text \<open>The rows created with a new site are always accepted and touch nothing else.\<close>

lemma insert_headers_rows:
  assumes "distinct names" "\<forall>h \<in> set (db_headers d). hx_site h = i \<longrightarrow> hx_name h \<notin> set names" "i \<in> set (site_ids d)"
  shows "\<exists>hs. res_fold (insert_header i) names d = Inr (d\<lparr>db_headers := hs\<rparr>)"
  using assms
proof (induction names arbitrary: d)
  case Nil
  show ?case by (rule exI [of _ "db_headers d"]) simp
next
  case (Cons n ns)
  let ?h = "\<lparr>hx_id = fresh_id (map hx_id (db_headers d)), hx_site = i, hx_name = n, hx_required = True\<rparr>"
  let ?d = "d\<lparr>db_headers := db_headers d @ [?h]\<rparr>"
  have "insert_header i n d = Inr ?d" using Cons.prems unfolding insert_header_def by auto
  moreover obtain hs where "res_fold (insert_header i) ns ?d = Inr (?d\<lparr>db_headers := hs\<rparr>)"
    using Cons.IH [of ?d] Cons.prems by auto
  ultimately have "res_fold (insert_header i) (n # ns) d = Inr (d\<lparr>db_headers := hs\<rparr>)" by simp
  then show ?case by blast
qed

lemma insert_site_rows_succeeds:
  assumes "\<forall>m \<in> set (db_monitors d). mon_site m \<noteq> i" "\<forall>h \<in> set (db_health d). hl_site h \<noteq> i"
    and "\<forall>h \<in> set (db_headers d). hx_site h \<noteq> i" "i \<in> set (site_ids d)"
  obtains ms hs xs where "insert_site_rows i created d = Inr (d\<lparr>db_monitors := ms, db_health := hs, db_headers := xs\<rparr>)"
proof -
  obtain ms where m: "insert_monitor i ''http'' 10000 200 399 created d = Inr (d\<lparr>db_monitors := ms\<rparr>)"
    using assms(1,4) unfolding insert_monitor_def by auto
  let ?h = "\<lparr>hl_site = i, hl_state = ''unknown'', hl_fails = 0, hl_last_check = None,
         hl_change = created, hl_success = None, hl_failure = None\<rparr>"
  obtain hs where h: "insert_health ?h (d\<lparr>db_monitors := ms\<rparr>) = Inr (d\<lparr>db_monitors := ms, db_health := hs\<rparr>)"
    using assms(2,4) unfolding insert_health_def by auto
  have dist: "distinct default_headers" by (simp add: default_headers_def)
  obtain xs where x: "res_fold (insert_header i) default_headers (d\<lparr>db_monitors := ms, db_health := hs\<rparr>) =
      Inr (d\<lparr>db_monitors := ms, db_health := hs, db_headers := xs\<rparr>)"
    using insert_headers_rows [OF dist, of "d\<lparr>db_monitors := ms, db_health := hs\<rparr>" i] assms(3,4) by auto
  show ?thesis by (rule that [where ms = ms and hs = hs and xs = xs]) (simp add: insert_site_rows_def m h x)
qed

lemma insert_site_rows_ok:
  assumes "db_ok d" "insert_site_rows i cr d = Inr d'"
  shows "db_ok d'"
proof -
  obtain d1 d2 where d1: "insert_monitor i ''http'' 10000 200 399 cr d = Inr d1"
    and d2: "insert_health \<lparr>hl_site = i, hl_state = ''unknown'', hl_fails = 0, hl_last_check = None,
         hl_change = cr, hl_success = None, hl_failure = None\<rparr> d1 = Inr d2"
    and d3: "res_fold (insert_header i) default_headers d2 = Inr d'"
    using assms(2) unfolding insert_site_rows_def by auto
  have "db_ok d2" using insert_health_ok [OF insert_monitor_ok [OF assms(1) d1] d2] .
  with d3 show ?thesis by (rule res_fold_invariant) (rule insert_header_ok)
qed

lemma site_group_ref_view:
  assumes "db_ok d"
  shows "site_group_ref c d = (if c \<noteq> '''' \<and> fl_groups (view d) c = None then Inl (ESql NoRows)
     else Inr (if c = '''' then None else map_option grp_id (first_row (group_cid c) (db_groups d))))"
  by (cases "first_row (group_cid c) (db_groups d)") (auto simp: site_group_ref_def view_def)

lemma group_ref_cid_of_ref:
  assumes "db_ok d" "site_group_ref c d = Inr gid"
  shows "group_ref_cid (db_groups d) gid = c" "\<And>i. gid = Some i \<Longrightarrow> i \<in> set (group_ids d)"
proof -
  have "c = '''' \<and> gid = None \<or> (\<exists>g. c \<noteq> '''' \<and> first_row (group_cid c) (db_groups d) = Some g \<and> gid = Some (grp_id g))"
    using assms(2) by (auto simp: site_group_ref_def split: if_splits option.splits)
  then show "group_ref_cid (db_groups d) gid = c" "\<And>i. gid = Some i \<Longrightarrow> i \<in> set (group_ids d)"
    using group_ref_cid_row [OF assms(1)] group_row_iff [OF assms(1)]
    by (auto simp: group_ref_cid_def coalesce_def)
qed

lemma view_insert_site:
  assumes "db_ok d" "insert_site r d = Inr (i, d')" "site_cluster r = Some c"
  shows "view d' = (view d)\<lparr>fl_sites := (fl_sites (view d))(c \<mapsto> site_view_of (db_groups d) r)\<rparr>"
proof -
  note d' = insert_site_row [OF assms(2)]
  have no: "first_row (site_cid c) (db_sites d) = None"
    using assms(2,3) unfolding insert_site_def Let_def
    by (auto simp: first_row_None site_cid_def split: if_splits)
  have "(\<lambda>x. map_option (site_view_of (db_groups d)) (first_row (site_cid x) (db_sites d @ [r\<lparr>site_id := i\<rparr>]))) =
      (fl_sites (view d))(c \<mapsto> site_view_of (db_groups d) r)"
    using no assms(3)
    by (intro ext) (auto simp: view_def first_row_append site_cid_def site_view_of_def split: option.splits)
  moreover have "tags_of d' x = tags_of d x" for x
  proof -
    have "filter (\<lambda>t. \<exists>s \<in> set (db_sites d @ [r\<lparr>site_id := i\<rparr>]). site_id s = tag_site t \<and> site_cid x s) (db_tags d) =
        filter (\<lambda>t. \<exists>s \<in> set (db_sites d). site_id s = tag_site t \<and> site_cid x s) (db_tags d)"
      using fresh_site_unused(4) [OF assms(1) d'(2)] by (intro filter_cong refl) auto
    then show ?thesis by (simp add: tags_of_def d'(1))
  qed
  ultimately show ?thesis by (simp add: view_def d'(1) tags_of_def)
qed

lemma view_update_sites:
  assumes "update_sites P f d = Inr d'"
    and "\<And>s. site_id (f s) = site_id s \<and> site_cluster (f s) = site_cluster s"
  shows "view d' = (view d)\<lparr>fl_sites := (\<lambda>x. map_option (\<lambda>s. site_view_of (db_groups d) (if P s then f s else s))
     (first_row (site_cid x) (db_sites d)))\<rparr>"
proof -
  have d': "d' = d\<lparr>db_sites := upd_where P f (db_sites d)\<rparr>"
    using assms(1) unfolding update_sites_def by (auto split: if_splits)
  have row: "first_row (site_cid x) (upd_where P f (db_sites d)) =
      map_option (\<lambda>r. if P r then f r else r) (first_row (site_cid x) (db_sites d))" for x
    by (rule first_row_upd_where) (simp add: site_cid_def assms(2))
  have "(\<exists>s \<in> set (upd_where P f (db_sites d)). site_id s = y \<and> site_cid x s) \<longleftrightarrow>
      (\<exists>s \<in> set (db_sites d). site_id s = y \<and> site_cid x s)" for x y
    unfolding upd_where_def set_map bex_simps using assms(2) by (intro bex_cong refl) (simp add: site_cid_def)
  then show ?thesis by (simp add: view_def tags_of_def d' row option.map_comp comp_def)
qed

lemma put_site_insert_refines:
  assumes "replica_ok d" "site_group_ref (sp_GroupClusterID p) d = Inr gid"
    and "first_row (site_cid (sp_ClusterID p)) (db_sites d) = None"
  shows "res_map view (put_site p d) =
     (if sp_OrgID p \<notin> set (org_ids d) then Inl (ESql ForeignKeyViolation)
      else Inr ((view d)\<lparr>fl_sites := (fl_sites (view d))(sp_ClusterID p \<mapsto>
         \<lparr>sv_org = sp_OrgID p, sv_name = sp_Name p, sv_url = sp_PrimaryURL p, sv_enabled = sp_Enabled p,
          sv_group = sp_GroupClusterID p, sv_archived = archived_value p,
          sv_created = sp_CreatedAt p, sv_updated = sp_UpdatedAt p\<rparr>)\<rparr>))"
proof -
  let ?r = "\<lparr>site_id = 0, site_org = sp_OrgID p, site_name = sp_Name p, site_url = sp_PrimaryURL p,
     site_enabled = sp_Enabled p, site_group = gid, site_archived = archived_value p,
     site_created = sp_CreatedAt p, site_updated = sp_UpdatedAt p, site_cluster = Some (sp_ClusterID p)\<rparr>"
  have ok: "db_ok d" using assms(1) by (simp add: replica_ok_def)
  note gid = group_ref_cid_of_ref [OF ok assms(2)]
  have no: "\<forall>s \<in> set (db_sites d). site_cluster s \<noteq> Some (sp_ClusterID p)"
    using assms(3) by (simp add: first_row_None site_cid_def)
  show ?thesis
  proof (cases "sp_OrgID p \<in> set (org_ids d)")
    case True
    obtain i d1 where ins: "insert_site ?r d = Inr (i, d1)"
      using insert_site_succeeds [OF no, of ?r] True gid(2) by auto
    note d1 = insert_site_row [OF ins]
    have "\<forall>m \<in> set (db_monitors d1). mon_site m \<noteq> i" "\<forall>h \<in> set (db_health d1). hl_site h \<noteq> i"
      "\<forall>h \<in> set (db_headers d1). hx_site h \<noteq> i" "i \<in> set (site_ids d1)"
      using fresh_site_unused [OF ok d1(2)] by (simp_all add: d1(1))
    then obtain ms hs xs where rows: "insert_site_rows i (sp_CreatedAt p) d1 =
        Inr (d1\<lparr>db_monitors := ms, db_health := hs, db_headers := xs\<rparr>)"
      by (rule insert_site_rows_succeeds)
    have "view (d1\<lparr>db_monitors := ms, db_health := hs, db_headers := xs\<rparr>) = view d1"
      by (rule view_cong) simp_all
    moreover have "site_view_of (db_groups d) ?r = \<lparr>sv_org = sp_OrgID p, sv_name = sp_Name p, sv_url = sp_PrimaryURL p,
        sv_enabled = sp_Enabled p, sv_group = sp_GroupClusterID p, sv_archived = archived_value p,
        sv_created = sp_CreatedAt p, sv_updated = sp_UpdatedAt p\<rparr>"
      by (simp add: site_view_of_def gid(1))
    ultimately show ?thesis
      using True view_insert_site [OF ok ins] by (simp add: put_site_def assms(2,3) ins rows)
  next
    case False
    have "insert_site ?r d = Inl ForeignKeyViolation"
      using no False unfolding insert_site_def by auto
    with False show ?thesis by (simp add: put_site_def assms(2,3))
  qed
qed

lemma update_sites_succeeds:
  assumes "\<And>s g. s \<in> set (db_sites d) \<Longrightarrow> P s \<Longrightarrow> site_group (f s) = Some g \<Longrightarrow> g \<in> set (group_ids d)"
  shows "update_sites P f d = Inr (d\<lparr>db_sites := upd_where P f (db_sites d)\<rparr>)"
proof -
  have no: "\<not> (\<exists>s \<in> set (db_sites d). P s \<and> (\<exists>g. site_group (f s) = Some g \<and> g \<notin> set (group_ids d)))"
    using assms by blast
  show ?thesis by (simp only: update_sites_def no if_False)
qed

lemma site_same_id:
  assumes "db_ok d" "s \<in> set (db_sites d)" "s' \<in> set (db_sites d)"
  shows "site_id s = site_id s' \<longleftrightarrow> s = s'"
  using assms distinct_map_inj [of site_id "db_sites d" s s'] by (auto simp: db_ok_def sites_ok_def)

lemma put_site_update_refines:
  assumes "replica_ok d" "site_group_ref (sp_GroupClusterID p) d = Inr gid"
    and "first_row (site_cid (sp_ClusterID p)) (db_sites d) = Some s"
  shows "res_map view (put_site p d) = Inr ((view d)\<lparr>fl_sites := (fl_sites (view d))(sp_ClusterID p \<mapsto>
     (site_view_of (db_groups d) s)\<lparr>sv_name := sp_Name p, sv_url := sp_PrimaryURL p, sv_enabled := sp_Enabled p,
        sv_group := sp_GroupClusterID p, sv_archived := archived_value p, sv_updated := sp_UpdatedAt p\<rparr>)\<rparr>)"
proof -
  let ?P = "\<lambda>r. site_id r = site_id s"
  let ?f = "\<lambda>r. r\<lparr>site_name := sp_Name p, site_url := sp_PrimaryURL p, site_enabled := sp_Enabled p,
      site_group := gid, site_archived := archived_value p, site_updated := sp_UpdatedAt p\<rparr>"
  have ok: "db_ok d" using assms(1) by (simp add: replica_ok_def)
  note gid = group_ref_cid_of_ref [OF ok assms(2)]
  note s = assms(3) [unfolded site_row_iff [OF ok]]
  have upd: "update_sites ?P ?f d = Inr (d\<lparr>db_sites := upd_where ?P ?f (db_sites d)\<rparr>)"
    by (rule update_sites_succeeds) (use gid(2) in simp)
  have "map_option (\<lambda>r. site_view_of (db_groups d) (if ?P r then ?f r else r)) (first_row (site_cid x) (db_sites d)) =
      ((fl_sites (view d))(sp_ClusterID p \<mapsto> (site_view_of (db_groups d) s)\<lparr>sv_name := sp_Name p,
        sv_url := sp_PrimaryURL p, sv_enabled := sp_Enabled p, sv_group := sp_GroupClusterID p,
        sv_archived := archived_value p, sv_updated := sp_UpdatedAt p\<rparr>)) x" for x
  proof (cases "first_row (site_cid x) (db_sites d)")
    case None
    with assms(3) show ?thesis by (auto simp: view_def)
  next
    case (Some r)
    note r = Some [unfolded site_row_iff [OF ok]]
    have "?P r \<longleftrightarrow> x = sp_ClusterID p" using site_same_id [OF ok] r s assms(3) Some by auto
    with Some assms(3) show ?thesis by (auto simp: view_def site_view_of_def gid(1))
  qed
  then have "(\<lambda>x. map_option (\<lambda>r. site_view_of (db_groups d) (if ?P r then ?f r else r)) (first_row (site_cid x) (db_sites d))) =
      (fl_sites (view d))(sp_ClusterID p \<mapsto> (site_view_of (db_groups d) s)\<lparr>sv_name := sp_Name p,
        sv_url := sp_PrimaryURL p, sv_enabled := sp_Enabled p, sv_group := sp_GroupClusterID p,
        sv_archived := archived_value p, sv_updated := sp_UpdatedAt p\<rparr>)"
    by (rule ext)
  then show ?thesis
    using view_update_sites [OF upd] by (simp add: put_site_def assms(2,3) upd)
qed

lemma put_site_refines:
  assumes "replica_ok d"
  shows "res_map view (put_site p d) = spec_put_site p (view d)"
proof (cases "site_group_ref (sp_GroupClusterID p) d")
  case (Inl e)
  then show ?thesis
    using assms site_group_ref_view [of d "sp_GroupClusterID p"]
    by (auto simp: put_site_def spec_put_site_def replica_ok_def split: if_splits)
next
  case (Inr gid)
  then have g: "\<not> (sp_GroupClusterID p \<noteq> '''' \<and> fl_groups (view d) (sp_GroupClusterID p) = None)"
    using assms site_group_ref_view [of d "sp_GroupClusterID p"] by (auto simp: replica_ok_def split: if_splits)
  show ?thesis
  proof (cases "first_row (site_cid (sp_ClusterID p)) (db_sites d)")
    case None
    then show ?thesis unfolding put_site_insert_refines [OF assms Inr None] spec_put_site_def
      using g by (simp add: view_def)
  next
    case (Some s)
    then show ?thesis unfolding put_site_update_refines [OF assms Inr Some] spec_put_site_def
      using g by (simp add: view_def)
  qed
qed

lemma archive_site_refines:
  assumes "replica_ok d"
  shows "res_map view (archive_site p d) = Inr (spec_archive_site p (view d))"
proof -
  let ?f = "\<lambda>r. r\<lparr>site_archived := archived_value p, site_updated := sp_UpdatedAt p\<rparr>"
  have ok: "db_ok d" using assms by (simp add: replica_ok_def)
  have upd: "update_sites (site_cid (sp_ClusterID p)) ?f d =
      Inr (d\<lparr>db_sites := upd_where (site_cid (sp_ClusterID p)) ?f (db_sites d)\<rparr>)"
    by (rule update_sites_succeeds) (use ok in \<open>auto simp: db_ok_def sites_ok_def split: option.splits\<close>)
  have "map_option (\<lambda>r. site_view_of (db_groups d) (if site_cid (sp_ClusterID p) r then ?f r else r))
      (first_row (site_cid x) (db_sites d)) = fl_sites (spec_archive_site p (view d)) x" for x
  proof (cases "first_row (site_cid x) (db_sites d)")
    case None
    then show ?thesis by (auto simp: view_def spec_archive_site_def split: option.splits)
  next
    case (Some r)
    then have "site_cid (sp_ClusterID p) r \<longleftrightarrow> x = sp_ClusterID p"
      using first_row_Some [OF Some] by (auto simp: site_cid_def)
    with Some show ?thesis
      by (auto simp: view_def spec_archive_site_def site_view_of_def split: option.splits)
  qed
  then have "(\<lambda>x. map_option (\<lambda>r. site_view_of (db_groups d) (if site_cid (sp_ClusterID p) r then ?f r else r))
      (first_row (site_cid x) (db_sites d))) = fl_sites (spec_archive_site p (view d))"
    by (rule ext)
  moreover have "(view d)\<lparr>fl_sites := fl_sites (spec_archive_site p (view d))\<rparr> = spec_archive_site p (view d)"
    by (simp add: spec_archive_site_def split: option.split)
  ultimately show ?thesis
    using view_update_sites [OF upd] by (simp add: archive_site_def upd)
qed

subsection \<open>Deletions and tags\<close>

lemma delete_sites_tables [simp]:
  "db_orgs (delete_sites P d) = db_orgs d" "db_groups (delete_sites P d) = db_groups d"
  "db_sites (delete_sites P d) = del_where P (db_sites d)"
  "db_tags (delete_sites P d) = del_where (\<lambda>t. tag_site t \<in> site_id ` {s \<in> set (db_sites d). P s}) (db_tags d)"
  "db_meta (delete_sites P d) = db_meta d" "db_claims (delete_sites P d) = db_claims d"
  by (simp_all add: delete_sites_def Let_def)

lemma set_tags_of: "set (tags_of d c) = {tag_text t | t s. t \<in> set (db_tags d) \<and> s \<in> set (db_sites d) \<and>
    site_id s = tag_site t \<and> site_cid c s}"
  by (auto simp: tags_of_def)

lemma view_delete_site:
  assumes "db_ok d"
  shows "view (delete_sites (site_cid c) d) = spec_delete_site c (view d)"
proof -
  let ?gone = "site_id ` {s \<in> set (db_sites d). site_cid c s}"
  have keep: "s \<in> set (db_sites d) \<Longrightarrow> \<not> site_cid c s \<Longrightarrow> site_id s \<notin> ?gone" for s
    using site_same_id [OF assms] by auto
  have "first_row (site_cid x) (del_where (site_cid c) (db_sites d)) =
      (if x = c then None else first_row (site_cid x) (db_sites d))" for x
    by (auto simp: first_row_del_where_same site_cid_def intro: first_row_del_where_other)
  moreover have "set (tags_of (delete_sites (site_cid c) d) x) = (if x = c then {} else set (tags_of d x))" for x
  proof (cases "x = c")
    case False
    then have "\<not> site_cid c s" if "site_cid x s" for s using that by (simp add: site_cid_def)
    then have "(t \<in> set (db_tags d) \<and> tag_site t \<notin> ?gone) \<and> (s \<in> set (db_sites d) \<and> \<not> site_cid c s) \<and>
        site_id s = tag_site t \<and> site_cid x s \<longleftrightarrow>
        t \<in> set (db_tags d) \<and> s \<in> set (db_sites d) \<and> site_id s = tag_site t \<and> site_cid x s" for t s
      using keep [of s] by metis
    with False show ?thesis unfolding set_tags_of by simp
  qed (auto simp: set_tags_of)
  ultimately show ?thesis by (auto simp: view_def spec_delete_site_def fun_upd_def intro!: ext)
qed

lemma insert_tags_rows:
  assumes "i \<in> set (site_ids d)" "\<forall>x \<in> set (db_tags d). tag_site x = i \<longrightarrow> tag_text x \<notin> set ts"
  shows "res_fold (insert_tag i) ts d =
    (if distinct ts then Inr (d\<lparr>db_tags := db_tags d @ map (\<lambda>t. \<lparr>tag_site = i, tag_text = t\<rparr>) ts\<rparr>) else Inl UniqueViolation)"
  using assms
proof (induction ts arbitrary: d)
  case (Cons t ts)
  let ?d = "d\<lparr>db_tags := db_tags d @ [\<lparr>tag_site = i, tag_text = t\<rparr>]\<rparr>"
  have ins: "insert_tag i t d = Inr ?d" using Cons.prems unfolding insert_tag_def by auto
  show ?case
  proof (cases "t \<in> set ts")
    case True
    have "res_fold (insert_tag i) us e = Inl UniqueViolation"
      if "t \<in> set us" "\<exists>x \<in> set (db_tags e). tag_site x = i \<and> tag_text x = t" "i \<in> set (site_ids e)" for us e
      using that
    proof (induction us arbitrary: e)
      case (Cons u us)
      show ?case
      proof (cases "insert_tag i u e")
        case (Inl err)
        with Cons.prems show ?thesis by (auto simp: insert_tag_def split: if_splits)
      next
        case (Inr e')
        then have "u \<noteq> t" "e' = e\<lparr>db_tags := db_tags e @ [\<lparr>tag_site = i, tag_text = u\<rparr>]\<rparr>"
          using Cons.prems by (auto simp: insert_tag_def split: if_splits)
        with Inr Cons.IH [of e'] Cons.prems show ?thesis by auto
      qed
    qed simp
    with True ins Cons.prems show ?thesis by simp
  next
    case False
    with ins Cons.IH [of ?d] Cons.prems show ?thesis by auto
  qed
qed simp

lemma set_tags_refines:
  assumes "replica_ok d"
  shows "res_map view (set_tags p d) = spec_set_tags p (view d)"
proof (cases "first_row (site_cid (tp_SiteClusterID p)) (db_sites d)")
  case None
  then show ?thesis by (simp add: set_tags_def spec_set_tags_def view_def)
next
  case (Some s)
  let ?c = "tp_SiteClusterID p"
  have ok: "db_ok d" using assms by (simp add: replica_ok_def)
  note s = Some [unfolded site_row_iff [OF ok]]
  have known: "fl_sites (view d) ?c \<noteq> None" using Some by (simp add: view_def)
  have tags: "res_fold (insert_tag (site_id s)) (tp_Tags p) (delete_tags (site_id s) d) =
      (if distinct (tp_Tags p) then Inr (d\<lparr>db_tags := del_where (\<lambda>t. tag_site t = site_id s) (db_tags d) @
         map (\<lambda>t. \<lparr>tag_site = site_id s, tag_text = t\<rparr>) (tp_Tags p)\<rparr>) else Inl UniqueViolation)"
    using insert_tags_rows [of "site_id s" "delete_tags (site_id s) d" "tp_Tags p"] s
    by (simp add: delete_tags_def)
  let ?d = "d\<lparr>db_tags := del_where (\<lambda>t. tag_site t = site_id s) (db_tags d) @
      map (\<lambda>t. \<lparr>tag_site = site_id s, tag_text = t\<rparr>) (tp_Tags p)\<rparr>"
  have own: "r \<in> set (db_sites d) \<Longrightarrow> site_cid x r \<Longrightarrow> site_id r = site_id s \<longleftrightarrow> x = ?c" for r x
    using site_same_id [OF ok, of r s] s site_row_iff [OF ok, of x r] site_row_iff [OF ok, of x s]
    by (auto simp: site_cid_def)
  have "set (tags_of ?d x) = (if x = ?c then set (tp_Tags p) else set (tags_of d x))" for x
  proof (cases "x = ?c")
    case True
    have "set (tags_of ?d ?c) = set (tp_Tags p)"
      unfolding set_tags_of using own s by (auto simp: site_cid_def image_iff) (metis tag_row.select_convs)+
    with True show ?thesis by simp
  next
    case False
    then show ?thesis unfolding set_tags_of using own by (auto simp: image_iff)
  qed
  then have "view ?d = (view d)\<lparr>fl_tags := (fl_tags (view d))(?c := set (tp_Tags p))\<rparr>"
    by (auto simp: view_def fun_upd_def)
  with Some known tags show ?thesis by (auto simp: set_tags_def spec_set_tags_def)
qed

theorem materialize_refines:
  assumes "replica_ok d"
  shows "res_map view (materialize kind obj payload d) = spec_materialize kind obj payload (view d)"
proof -
  have bind: "res_map view (res_bind r (\<lambda>p. f p d)) = res_bind r (\<lambda>p. res_map view (f p d))"
    for r :: "(fsm_error, 'b) result" and f :: "'b \<Rightarrow> db \<Rightarrow> (fsm_error, db) result"
    by (cases r) simp_all
  have "db_ok d" using assms by (simp add: replica_ok_def)
  then show ?thesis
    unfolding materialize_def spec_materialize_def
    by (simp add: bind put_group_refines [OF assms] put_site_refines [OF assms] archive_site_refines [OF assms]
        set_tags_refines [OF assms] view_delete_site)
qed

end
