(* ===== verification/Replication.thy ===== *)
theory Replication
  imports Fleet_Spec
begin

text \<open>
  The life of a replica: a node applies the entries of the Raft log, restarts from its own tables and
  installs snapshots. The locale \<open>replicated_machine\<close> states what a state machine owes Raft (its
  reaction to an entry is a function of the abstract state), and derives convergence; the
  interpretation discharges it for \<^verbatim>\<open>FSM.Apply\<close> over the refinement of \<open>Fleet_Spec\<close>.
\<close>

subsection \<open>Integrity of the replica\<close>

lemma put_group_ok:
  assumes "replica_ok d" "put_group p d = Inr d'"
  shows "replica_ok d'"
proof -
  have up: "upsert_group p d = Inr d'"
    using assms(2) unfolding put_group_def by (auto split: option.splits if_splits)
  have ok: "db_ok d" using assms(1) by (simp add: replica_ok_def)
  show ?thesis
  proof (cases "first_row (group_cid (gp_ClusterID p)) (db_groups d)")
    case None
    then obtain i where ins: "insert_group (gp_OrgID p) (gp_Name p) (gp_CreatedAt p) (Some (gp_ClusterID p)) d = Inr (i, d')"
      using up unfolding upsert_group_def
      by (cases "insert_group (gp_OrgID p) (gp_Name p) (gp_CreatedAt p) (Some (gp_ClusterID p)) d") auto
    then have "db_groups d' = db_groups d @ [\<lparr>grp_id = i, grp_org = gp_OrgID p, grp_name = gp_Name p,
        grp_created = gp_CreatedAt p, grp_cluster = Some (gp_ClusterID p)\<rparr>]" "db_sites d' = db_sites d"
      unfolding insert_group_def Let_def by (auto split: if_splits)
    with insert_group_ok [OF ok ins] assms(1) show ?thesis by (auto simp: replica_ok_def)
  next
    case (Some g)
    then have upd: "update_group (gp_OrgID p) (gp_Name p) (gp_ClusterID p) d = Inr d'"
      using up unfolding upsert_group_def
      by (cases "update_group (gp_OrgID p) (gp_Name p) (gp_ClusterID p) d") auto
    then have "db_groups d' = upd_where (\<lambda>g. grp_cluster g = Some (gp_ClusterID p))
        (\<lambda>g. g\<lparr>grp_org := gp_OrgID p, grp_name := gp_Name p\<rparr>) (db_groups d)" "db_sites d' = db_sites d"
      unfolding update_group_def by (auto split: if_splits)
    with update_group_ok [OF ok upd] assms(1) show ?thesis by (auto simp: replica_ok_def set_upd_where)
  qed
qed

lemma update_sites_replica_ok:
  assumes "replica_ok d" "update_sites P f d = Inr d'"
    and "\<And>s. site_id (f s) = site_id s \<and> site_cluster (f s) = site_cluster s \<and> site_org (f s) = site_org s"
  shows "replica_ok d'"
proof -
  have "db_ok d'" using update_sites_ok [OF _ assms(2,3)] assms(1) by (simp add: replica_ok_def)
  moreover have "db_groups d' = db_groups d" "db_sites d' = upd_where P f (db_sites d)"
    using assms(2) unfolding update_sites_def by (auto split: if_splits)
  ultimately show ?thesis using assms(1,3) by (auto simp: replica_ok_def set_upd_where)
qed

lemma err_sql_Inr [simp]: "err_sql r = Inr x \<longleftrightarrow> r = Inr x"
  by (cases r) auto

lemma err_json_Inr [simp]: "err_json r = Inr x \<longleftrightarrow> r = Inr x"
  by (cases r) auto

lemma insert_site_rows_tables:
  assumes "insert_site_rows i cr d = Inr d'"
  shows "db_groups d' = db_groups d \<and> db_sites d' = db_sites d"
proof -
  obtain d1 d2 where d1: "insert_monitor i ''http'' 10000 200 399 cr d = Inr d1"
    and d2: "insert_health \<lparr>hl_site = i, hl_state = ''unknown'', hl_fails = 0, hl_last_check = None,
         hl_change = cr, hl_success = None, hl_failure = None\<rparr> d1 = Inr d2"
    and d3: "res_fold (insert_header i) default_headers d2 = Inr d'"
    using assms unfolding insert_site_rows_def by auto
  have "db_groups d2 = db_groups d \<and> db_sites d2 = db_sites d"
    using d1 d2 unfolding insert_monitor_def insert_health_def by (auto split: if_splits)
  with d3 show ?thesis
    by (rule res_fold_invariant [where I = "\<lambda>x. db_groups x = db_groups d \<and> db_sites x = db_sites d"])
      (auto simp: insert_header_def split: if_splits)
qed

lemma put_site_ok:
  assumes "replica_ok d" "put_site p d = Inr d'"
  shows "replica_ok d'"
proof -
  have ok: "db_ok d" using assms(1) by (simp add: replica_ok_def)
  obtain gid where gid: "site_group_ref (sp_GroupClusterID p) d = Inr gid"
    using assms(2) unfolding put_site_def by auto
  show ?thesis
  proof (cases "first_row (site_cid (sp_ClusterID p)) (db_sites d)")
    case None
    let ?r = "\<lparr>site_id = 0, site_org = sp_OrgID p, site_name = sp_Name p, site_url = sp_PrimaryURL p,
       site_enabled = sp_Enabled p, site_group = gid, site_archived = archived_value p,
       site_created = sp_CreatedAt p, site_updated = sp_UpdatedAt p, site_cluster = Some (sp_ClusterID p)\<rparr>"
    obtain i d1 where ins: "insert_site ?r d = Inr (i, d1)" "insert_site_rows i (sp_CreatedAt p) d1 = Inr d'"
      using assms(2) None gid unfolding put_site_def by auto
    have "db_ok d'" using insert_site_rows_ok [OF insert_site_ok [OF ok ins(1)] ins(2)] .
    moreover have "db_groups d' = db_groups d" "db_sites d' = db_sites d @ [?r\<lparr>site_id := i\<rparr>]"
      using insert_site_rows_tables [OF ins(2)] insert_site_row [OF ins(1)] by simp_all
    ultimately show ?thesis using assms(1) by (auto simp: replica_ok_def)
  next
    case (Some s)
    then show ?thesis
      using assms gid unfolding put_site_def by (auto elim!: update_sites_replica_ok [rotated])
  qed
qed

lemma set_tags_ok:
  assumes "replica_ok d" "set_tags p d = Inr d'"
  shows "replica_ok d'"
proof -
  obtain s :: site_row where s: "res_fold (insert_tag (site_id s)) (tp_Tags p) (delete_tags (site_id s) d) = Inr d'"
    using assms(2) unfolding set_tags_def by (auto split: option.splits)
  have "replica_ok (delete_tags (site_id s) d)"
    using assms(1) delete_tags_ok [of d "site_id s"] by (simp add: replica_ok_def delete_tags_def)
  with s show ?thesis
  proof (rule res_fold_invariant)
    fix t x x' assume "replica_ok x" "insert_tag (site_id s) t x = Inr x'"
    moreover from this have "db_groups x' = db_groups x" "db_sites x' = db_sites x"
      unfolding insert_tag_def by (auto split: if_splits)
    ultimately show "replica_ok x'" using insert_tag_ok [of x "site_id s" t x'] by (simp add: replica_ok_def)
  qed
qed

lemma delete_sites_replica_ok: "replica_ok d \<Longrightarrow> replica_ok (delete_sites P d)"
  using delete_sites_ok [of d P] by (simp add: replica_ok_def)

lemma materialize_ok:
  assumes "replica_ok d" "materialize kind obj payload d = Inr d'"
  shows "replica_ok d'"
proof -
  have "archive_site p d = Inr d' \<Longrightarrow> replica_ok d'" for p
    unfolding archive_site_def err_sql_Inr by (erule update_sites_replica_ok [OF assms(1)]) simp
  then show ?thesis
    using assms(2) put_group_ok [OF assms(1)] put_site_ok [OF assms(1)] set_tags_ok [OF assms(1)]
      delete_sites_replica_ok [OF assms(1)]
    unfolding materialize_def by (auto split: if_splits)
qed
subsection \<open>What a state machine owes Raft\<close>

fun run_log :: "('e \<Rightarrow> 's \<Rightarrow> 'r \<times> 's) \<Rightarrow> 'e list \<Rightarrow> 's \<Rightarrow> 'r list \<times> 's" where
  "run_log step [] s = ([], s)"
| "run_log step (e # es) s = (let (r, s1) = step e s; (rs, s2) = run_log step es s1 in (r # rs, s2))"

lemma run_log_Cons:
  "run_log step (e # es) s =
     (fst (step e s) # fst (run_log step es (snd (step e s))), snd (run_log step es (snd (step e s))))"
  by (simp add: run_log.simps(2) Let_def split: prod.split)

declare run_log.simps(2) [simp del]

lemma run_log_append:
  "run_log step (es @ fs) s =
     (fst (run_log step es s) @ fst (run_log step fs (snd (run_log step es s))),
      snd (run_log step fs (snd (run_log step es s))))"
  by (induction es arbitrary: s) (simp_all add: run_log_Cons)

lemma run_log_invariant:
  "I s \<Longrightarrow> (\<And>e s. e \<in> set es \<Longrightarrow> I s \<Longrightarrow> I (snd (step e s))) \<Longrightarrow> I (snd (run_log step es s))"
  by (induction es arbitrary: s) (simp_all add: run_log_Cons)

locale replicated_machine =
  fixes ok :: "'s \<Rightarrow> bool"
    and step :: "'e \<Rightarrow> 's \<Rightarrow> 'r \<times> 's"
    and abs :: "'s \<Rightarrow> 'a"
    and spec :: "'e \<Rightarrow> 'a \<Rightarrow> 'r \<times> 'a"
  assumes ok_step: "ok s \<Longrightarrow> ok (snd (step e s))"
    and refines: "ok s \<Longrightarrow> map_prod id abs (step e s) = spec e (abs s)"
begin

lemma run_ok: "ok s \<Longrightarrow> ok (snd (run_log step es s))"
  by (rule run_log_invariant) (simp_all add: ok_step)

lemma run_refines: "ok s \<Longrightarrow> map_prod id abs (run_log step es s) = run_log spec es (abs s)"
proof (induction es arbitrary: s)
  case (Cons e es)
  have "fst (spec e (abs s)) = fst (step e s)" "snd (spec e (abs s)) = abs (snd (step e s))"
    using refines [OF Cons.prems, of e] by (metis fst_map_prod id_apply, metis snd_map_prod)
  moreover have "map_prod id abs (run_log step es (snd (step e s))) = run_log spec es (abs (snd (step e s)))"
    using Cons.IH ok_step [OF Cons.prems] .
  then have "fst (run_log spec es (abs (snd (step e s)))) = fst (run_log step es (snd (step e s)))"
    "snd (run_log spec es (abs (snd (step e s)))) = abs (snd (run_log step es (snd (step e s))))"
    by (metis fst_map_prod id_apply, metis snd_map_prod)
  ultimately show ?case by (simp add: run_log_Cons)
qed simp

text \<open>Nodes that agree keep agreeing, and answer every entry alike.\<close>

lemma converge:
  assumes "ok s" "ok t" "abs s = abs t"
  shows "fst (run_log step es s) = fst (run_log step es t) \<and> abs (snd (run_log step es s)) = abs (snd (run_log step es t))"
proof -
  have "map_prod id abs (run_log step es s) = map_prod id abs (run_log step es t)"
    using assms run_refines by simp
  then show ?thesis by (metis fst_map_prod snd_map_prod id_apply)
qed

end

subsection \<open>The FSM is one\<close>

record replica =
  rv_fleet :: fleet
  rv_applied :: "string \<rightharpoonup> string"
  rv_index :: "64 word"
  rv_term :: "64 word"
  rv_failure :: "fsm_error option"

definition replica_view :: "FSM \<Rightarrow> replica" where
  "replica_view f = \<lparr>rv_fleet = view (fsm_db f), rv_applied = fsm_applied f, rv_index = fsm_index f,
     rv_term = fsm_term f, rv_failure = fsm_failure f\<rparr>"

definition spec_Apply ::
  "(string \<Rightarrow> (string, operation) result) \<Rightarrow> (operation \<Rightarrow> (string, string) result) \<Rightarrow> (string \<Rightarrow> json option) \<Rightarrow>
   raft_log \<Rightarrow> replica \<Rightarrow> (fsm_error, apply_result) result \<times> replica" where
  "spec_Apply DecodeOperation Digest parse l v =
     (case DecodeOperation (log_Data l) of
        Inl e \<Rightarrow> (Inl (EDecode e), if rv_failure v = None then v\<lparr>rv_failure := Some (EDecode e)\<rparr> else v)
      | Inr op \<Rightarrow>
          (case rv_failure v of
             Some e \<Rightarrow> (Inl e, v)
           | None \<Rightarrow>
          (case Digest op of
             Inl e \<Rightarrow> (Inl (EDigest e), v)
           | Inr dg \<Rightarrow>
          (case rv_applied v (op_ID op) of
             Some old \<Rightarrow>
               if old \<noteq> dg then (Inl EReused, v)
               else (Inr (result_of l op), v\<lparr>rv_index := log_Index l, rv_term := log_Term l\<rparr>)
           | None \<Rightarrow>
          (case spec_materialize (op_Kind op) (op_ObjectID op) (parse (op_Payload op)) (rv_fleet v) of
             Inl e \<Rightarrow> (Inl e, if e = EGroupConflict then v else v\<lparr>rv_failure := Some e\<rparr>)
           | Inr fl \<Rightarrow> (Inr (result_of l op),
               v\<lparr>rv_fleet := fl, rv_applied := (rv_applied v)(op_ID op \<mapsto> dg),
                 rv_index := log_Index l, rv_term := log_Term l\<rparr>))))))"

lemma apply_tx_Inr:
  "apply_tx parse commits l op dg d = Inr d' \<longleftrightarrow>
     commits \<and> (\<exists>d1. materialize (op_Kind op) (op_ObjectID op) (parse (op_Payload op)) d = Inr d1 \<and>
       d' = put_markers (op_ID op) dg l d1)"
  by (auto simp: apply_tx_def)

lemma apply_tx_refines:
  assumes "replica_ok d"
  shows "res_map view (apply_tx parse True l op dg d) =
    spec_materialize (op_Kind op) (op_ObjectID op) (parse (op_Payload op)) (view d)"
  using materialize_refines [OF assms, of "op_Kind op" "op_ObjectID op" "parse (op_Payload op)", symmetric]
  by (cases "materialize (op_Kind op) (op_ObjectID op) (parse (op_Payload op)) d") (simp_all add: apply_tx_def)

text \<open>The outcomes of \<^verbatim>\<open>Apply\<close>, in the order of the code.\<close>

lemma Apply_cases:
  obtains (decode) e where "DecodeOperation (log_Data l) = Inl e"
      "Apply DecodeOperation Digest parse commits l f = (Inl (EDecode e), fail (EDecode e) f)"
  | (failed) op e where "DecodeOperation (log_Data l) = Inr op" "fsm_failure f = Some e"
      "Apply DecodeOperation Digest parse commits l f = (Inl e, f)"
  | (digest) op e where "DecodeOperation (log_Data l) = Inr op" "fsm_failure f = None" "Digest op = Inl e"
      "Apply DecodeOperation Digest parse commits l f = (Inl (EDigest e), f)"
  | (reused) op dg old where "DecodeOperation (log_Data l) = Inr op" "fsm_failure f = None" "Digest op = Inr dg"
      "fsm_applied f (op_ID op) = Some old" "old \<noteq> dg"
      "Apply DecodeOperation Digest parse commits l f = (Inl EReused, f)"
  | (known) op dg where "DecodeOperation (log_Data l) = Inr op" "fsm_failure f = None" "Digest op = Inr dg"
      "fsm_applied f (op_ID op) = Some dg"
      "Apply DecodeOperation Digest parse commits l f =
         (Inr (result_of l op), f\<lparr>fsm_index := log_Index l, fsm_term := log_Term l\<rparr>)"
  | (rejected) op dg e where "DecodeOperation (log_Data l) = Inr op" "fsm_failure f = None" "Digest op = Inr dg"
      "fsm_applied f (op_ID op) = None" "apply_tx parse commits l op dg (fsm_db f) = Inl e"
      "Apply DecodeOperation Digest parse commits l f =
         (Inl e, if e = EGroupConflict then f else f\<lparr>fsm_failure := Some e\<rparr>)"
  | (applied) op dg d where "DecodeOperation (log_Data l) = Inr op" "fsm_failure f = None" "Digest op = Inr dg"
      "fsm_applied f (op_ID op) = None" "apply_tx parse commits l op dg (fsm_db f) = Inr d"
      "Apply DecodeOperation Digest parse commits l f =
         (Inr (result_of l op), f\<lparr>fsm_db := d, fsm_applied := (fsm_applied f)(op_ID op \<mapsto> dg),
            fsm_index := log_Index l, fsm_term := log_Term l\<rparr>)"
proof (cases "DecodeOperation (log_Data l)")
  case (Inl e)
  then show ?thesis by (intro decode [of e]) (simp_all add: Apply_def)
next
  case op: (Inr op)
  show ?thesis
  proof (cases "fsm_failure f")
    case (Some e)
    with op show ?thesis by (intro failed [of op e]) (simp_all add: Apply_def)
  next
    case ok: None
    show ?thesis
    proof (cases "Digest op")
      case (Inl e)
      with op ok show ?thesis by (intro digest [of op e]) (simp_all add: Apply_def)
    next
      case dg: (Inr dg)
      show ?thesis
      proof (cases "fsm_applied f (op_ID op)")
        case (Some old)
        with op ok dg show ?thesis
          by (cases "old = dg") (auto intro: known [of op dg] reused [of op dg old] simp: Apply_def)
      next
        case None
        with op ok dg show ?thesis
          by (cases "apply_tx parse commits l op dg (fsm_db f)")
            (auto intro: rejected [of op dg] applied [of op dg] simp: Apply_def)
      qed
    qed
  qed
qed

lemma Apply_ok:
  assumes "replica_ok (fsm_db f)"
  shows "replica_ok (fsm_db (snd (Apply DecodeOperation Digest parse commits l f)))"
proof (cases rule: Apply_cases [of DecodeOperation l Digest parse commits f])
  case (applied op dg d)
  then show ?thesis using materialize_ok [OF assms] by (auto simp: apply_tx_Inr)
qed (simp_all add: assms fail_def)

lemma Apply_refines:
  assumes "replica_ok (fsm_db f)"
  shows "map_prod id replica_view (Apply DecodeOperation Digest parse True l f) =
    spec_Apply DecodeOperation Digest parse l (replica_view f)"
proof (cases rule: Apply_cases [of DecodeOperation l Digest parse True f])
  case (rejected op dg e)
  then show ?thesis using apply_tx_refines [OF assms, of parse l op dg, symmetric] by (simp add: spec_Apply_def replica_view_def)
next
  case (applied op dg d)
  then show ?thesis using apply_tx_refines [OF assms, of parse l op dg, symmetric] by (simp add: spec_Apply_def replica_view_def)
qed (simp_all add: spec_Apply_def replica_view_def fail_def)

interpretation fsm: replicated_machine "\<lambda>f. replica_ok (fsm_db f)" "Apply DecodeOperation Digest parse True"
  replica_view "spec_Apply DecodeOperation Digest parse" for DecodeOperation Digest parse
  by unfold_locales (simp_all add: Apply_ok Apply_refines)

subsection \<open>Markers\<close>

lemma put_group_meta: "put_group p d = Inr d' \<Longrightarrow> db_meta d' = db_meta d"
  unfolding put_group_def upsert_group_def insert_group_def update_group_def
  by (auto split: option.splits if_splits simp: Let_def)

lemma insert_site_rows_meta: "insert_site_rows i cr d = Inr d' \<Longrightarrow> db_meta d' = db_meta d"
proof -
  assume "insert_site_rows i cr d = Inr d'"
  then obtain d1 d2 where d1: "insert_monitor i ''http'' 10000 200 399 cr d = Inr d1"
    and d2: "insert_health \<lparr>hl_site = i, hl_state = ''unknown'', hl_fails = 0, hl_last_check = None,
         hl_change = cr, hl_success = None, hl_failure = None\<rparr> d1 = Inr d2"
    and d3: "res_fold (insert_header i) default_headers d2 = Inr d'"
    unfolding insert_site_rows_def by auto
  have "db_meta d2 = db_meta d"
    using d1 d2 unfolding insert_monitor_def insert_health_def by (auto split: if_splits)
  with d3 show ?thesis
    by (rule res_fold_invariant [where I = "\<lambda>x. db_meta x = db_meta d"])
      (auto simp: insert_header_def split: if_splits)
qed

lemma update_sites_meta: "update_sites P f d = Inr d' \<Longrightarrow> db_meta d' = db_meta d"
  by (auto simp: update_sites_def split: if_splits)

lemma put_site_meta:
  assumes "put_site p d = Inr d'"
  shows "db_meta d' = db_meta d"
proof -
  obtain gid where gid: "site_group_ref (sp_GroupClusterID p) d = Inr gid"
    using assms unfolding put_site_def by auto
  show ?thesis
  proof (cases "first_row (site_cid (sp_ClusterID p)) (db_sites d)")
    case None
    then obtain r i d1 where "insert_site r d = Inr (i, d1)" "insert_site_rows i (sp_CreatedAt p) d1 = Inr d'"
      using assms gid unfolding put_site_def by auto
    then show ?thesis using insert_site_row(1) [of r d i d1] insert_site_rows_meta by simp
  next
    case (Some s)
    then show ?thesis using assms gid unfolding put_site_def by (auto dest: update_sites_meta)
  qed
qed

lemma set_tags_meta: "set_tags p d = Inr d' \<Longrightarrow> db_meta d' = db_meta d"
  unfolding set_tags_def
  by (auto split: option.splits elim!: res_fold_invariant [where I = "\<lambda>x. db_meta x = db_meta d"])
    (auto simp: insert_tag_def delete_tags_def split: if_splits)

lemma materialize_meta: "materialize kind obj payload d = Inr d' \<Longrightarrow> db_meta d' = db_meta d"
  unfolding materialize_def archive_site_def
  by (auto split: if_splits dest: put_group_meta put_site_meta set_tags_meta update_sites_meta)

lemma op_key_simps [simp]: "op_key i \<noteq> ''index''" "op_key i \<noteq> ''term''" "op_key i = op_key j \<longleftrightarrow> i = j"
  by (simp_all add: op_key_def)

lemma digits_string_of_nat:
  "list_all is_digit (string_of_nat n) \<and> string_of_nat n \<noteq> [] \<and> digits_value (string_of_nat n) = n"
proof (induction n rule: less_induct)
  case (less n)
  have dig: "is_digit (digit k)" "of_char (digit k) - (48::nat) = k" if "k < 10" for k
    using that by (simp_all add: is_digit_def digit_def of_char_of)
  show ?case
  proof (cases "n < 10")
    case True
    then show ?thesis by (simp add: string_of_nat.simps [of n] dig digits_value_def)
  next
    case False
    then have "n div 10 < n" by simp
    from less.IH [OF this] False show ?thesis
      by (simp add: string_of_nat.simps [of n] dig digits_value_def)
  qed
qed

lemma parse_sprint_uint [simp]: "parse_uint (sprint_uint w) = w"
  using digits_string_of_nat [of "unat w"] unsigned_less [of w, where ?'a = nat] by (simp add: parse_uint_def sprint_uint_def)

text \<open>The markers in the tables agree with the map in memory, so that a restart forgets nothing.\<close>

definition durable :: "FSM \<Rightarrow> bool" where
  "durable f \<longleftrightarrow> (\<forall>i. i \<noteq> '''' \<longrightarrow> fsm_applied (NewFSM (fsm_db f)) i = fsm_applied f i)"

lemma NewFSM_simps [simp]: "fsm_db (NewFSM d) = d" "fsm_failure (NewFSM d) = None"
  by (simp_all add: NewFSM_def)

lemma durable_NewFSM [simp]: "durable (NewFSM d)"
  by (simp add: durable_def NewFSM_def)

lemma durable_Apply: "durable f \<Longrightarrow> durable (snd (Apply DecodeOperation Digest parse commits l f))"
proof (cases rule: Apply_cases [of DecodeOperation l Digest parse commits f])
  case (applied op dg d)
  assume "durable f"
  with applied show ?thesis
    by (auto simp: durable_def NewFSM_def apply_tx_Inr put_markers_def dest: materialize_meta)
qed (simp_all add: durable_def fail_def NewFSM_def)

subsection \<open>Poisoning, idempotence and restart\<close>

lemma Apply_failed:
  assumes "fsm_failure f = Some e"
  shows "\<exists>e'. Apply DecodeOperation Digest parse commits l f = (Inl e', f)"
  using assms by (cases rule: Apply_cases [of DecodeOperation l Digest parse commits f]) (auto simp: fail_def)

lemma run_failed:
  assumes "fsm_failure f = Some e"
  shows "snd (run_log (Apply DecodeOperation Digest parse commits) ls f) = f \<and>
    (\<forall>r \<in> set (fst (run_log (Apply DecodeOperation Digest parse commits) ls f)). isl r)"
proof (induction ls)
  case (Cons l ls)
  obtain e' where "Apply DecodeOperation Digest parse commits l f = (Inl e', f)"
    using Apply_failed [OF assms] by blast
  with Cons show ?case by (simp add: run_log_Cons)
qed simp

lemma Apply_known_mono:
  assumes "fsm_applied f i = Some dg"
  shows "fsm_applied (snd (Apply DecodeOperation Digest parse commits l f)) i = Some dg"
  using assms by (cases rule: Apply_cases [of DecodeOperation l Digest parse commits f]) (auto simp: fail_def)

lemma run_known_mono:
  "fsm_applied f i = Some dg \<Longrightarrow>
     fsm_applied (snd (run_log (Apply DecodeOperation Digest parse commits) ls f)) i = Some dg"
  by (rule run_log_invariant) (simp_all add: Apply_known_mono)

lemma Apply_success:
  assumes "Apply DecodeOperation Digest parse commits l f = (Inr r, f')"
  obtains op dg where "DecodeOperation (log_Data l) = Inr op" "Digest op = Inr dg" "fsm_applied f' (op_ID op) = Some dg"
    "fsm_failure f' = None" "r = result_of l op"
  using assms by (cases rule: Apply_cases [of DecodeOperation l Digest parse commits f]) auto

text \<open>An entry whose operation is known changes nothing but the position.\<close>

lemma Apply_known:
  assumes "DecodeOperation (log_Data l) = Inr op" "Digest op = Inr dg" "fsm_applied f (op_ID op) = Some dg"
    and "fsm_failure f = None"
  shows "Apply DecodeOperation Digest parse commits l f =
    (Inr (result_of l op), f\<lparr>fsm_index := log_Index l, fsm_term := log_Term l\<rparr>)"
  using assms by (simp add: Apply_def)

lemma run_known:
  assumes "\<forall>l \<in> set ls. \<exists>op dg. DecodeOperation (log_Data l) = Inr op \<and> Digest op = Inr dg \<and> fsm_applied f (op_ID op) = Some dg"
    and "fsm_failure f = None"
  shows "fsm_db (snd (run_log (Apply DecodeOperation Digest parse commits) ls f)) = fsm_db f \<and>
    (\<forall>r \<in> set (fst (run_log (Apply DecodeOperation Digest parse commits) ls f)). \<not> isl r)"
  using assms
proof (induction ls arbitrary: f)
  case (Cons l ls)
  then obtain op dg where op: "DecodeOperation (log_Data l) = Inr op" "Digest op = Inr dg" "fsm_applied f (op_ID op) = Some dg"
    by auto
  note a = Apply_known [of DecodeOperation l op Digest dg f parse commits, OF op Cons.prems(2)]
  have "fsm_db (snd (run_log (Apply DecodeOperation Digest parse commits) ls
          (f\<lparr>fsm_index := log_Index l, fsm_term := log_Term l\<rparr>))) = fsm_db f \<and>
    (\<forall>r \<in> set (fst (run_log (Apply DecodeOperation Digest parse commits) ls
          (f\<lparr>fsm_index := log_Index l, fsm_term := log_Term l\<rparr>))). \<not> isl r)"
    using Cons.IH [of "f\<lparr>fsm_index := log_Index l, fsm_term := log_Term l\<rparr>"] Cons.prems by simp
  with a show ?case by (simp add: run_log_Cons)
qed simp

lemma run_success_known:
  assumes "\<forall>r \<in> set (fst (run_log (Apply DecodeOperation Digest parse commits) ls f)). \<not> isl r"
    and "l \<in> set ls"
  shows "\<exists>op dg. DecodeOperation (log_Data l) = Inr op \<and> Digest op = Inr dg \<and>
    fsm_applied (snd (run_log (Apply DecodeOperation Digest parse commits) ls f)) (op_ID op) = Some dg"
  using assms
proof (induction ls arbitrary: f)
  case (Cons k ls)
  let ?step = "Apply DecodeOperation Digest parse commits"
  obtain r f1 where step: "?step k f = (r, f1)" by fastforce
  show ?case
  proof (cases "l = k")
    case True
    from Cons.prems(1) step obtain x where x: "?step k f = (Inr x, f1)"
      by (cases r) (simp_all add: run_log_Cons)
    then show ?thesis using True
      by (elim Apply_success) (auto simp: run_log_Cons x intro!: run_known_mono)
  next
    case False
    with Cons.prems have "l \<in> set ls" "\<forall>r \<in> set (fst (run_log ?step ls f1)). \<not> isl r"
      using step by (simp_all add: run_log_Cons)
    from Cons.IH [OF this(2,1)] step show ?thesis by (simp add: run_log_Cons)
  qed
qed simp

subsection \<open>Properties\<close>

text \<open>C1. Convergence. Two replicas that agree on the replicated state (fleet, known operations, position,
  failure), whatever row ids, observations and claims each keeps for itself, answer every entry of
  a log alike and agree again afterwards. The entries may be of any kind, decodable or not.\<close>

theorem replicas_converge:
  assumes "replica_ok (fsm_db f)" "replica_ok (fsm_db g)" "replica_view f = replica_view g"
  shows "fst (run_log (Apply DecodeOperation Digest parse True) ls f) = fst (run_log (Apply DecodeOperation Digest parse True) ls g) \<and>
    replica_view (snd (run_log (Apply DecodeOperation Digest parse True) ls f)) =
    replica_view (snd (run_log (Apply DecodeOperation Digest parse True) ls g))"
  using assms by (rule fsm.converge)

theorem replicas_converge_witness:
  "let d = init_db\<lparr>db_claims := [\<lparr>cl_kind = ''site'', cl_site = 1, cl_next_due = '''', cl_owner = ''w'',
        cl_generation = 4, cl_lease = ''''\<rparr>]\<rparr>;
      op = \<lparr>op_ID = ''o1'', op_ObjectID = ''s1'', op_Kind = KindSiteDelete, op_Version = 1, op_Payload = ''''\<rparr>;
      step = Apply (\<lambda>x. Inr op) (\<lambda>o'. Inr ''d'') (\<lambda>x. None) True;
      ls = [\<lparr>log_Index = 3, log_Term = 1, log_Data = ''x''\<rparr>]
   in replica_ok init_db \<and> replica_ok d \<and>
     replica_view (snd (run_log step ls (NewFSM init_db))) = replica_view (snd (run_log step ls (NewFSM d)))"
proof -
  let ?d = "init_db\<lparr>db_claims := [\<lparr>cl_kind = ''site'', cl_site = 1, cl_next_due = '''', cl_owner = ''w'',
        cl_generation = 4, cl_lease = ''''\<rparr>]\<rparr>"
  have ok: "replica_ok ?d" using replica_ok_init by (simp add: replica_ok_def db_ok_def)
  have v: "replica_view (NewFSM init_db) = replica_view (NewFSM ?d)"
    by (simp add: replica_view_def NewFSM_def view_def tags_of_def init_db_def cong: if_cong)
  show ?thesis
    using replicas_converge [OF _ _ v] ok unfolding Let_def by simp
qed



text \<open>C4. Exactly once. After an operation has been applied, any redelivery of its entry, at whatever later
  position and after whatever other entries, reports success and leaves the tables and the known operations
  alone; an entry that reuses its id for another operation is refused. (As long as the replica has
  not failed; a failed one refuses everything.)\<close>

theorem redelivery_idempotent:
  assumes "Apply DecodeOperation Digest parse commits l f = (Inr r, f1)"
    and "f2 = snd (run_log (Apply DecodeOperation Digest parse commits) ls f1)" "fsm_failure f2 = None"
    and "DecodeOperation (log_Data l) = Inr op" "Digest op = Inr dg"
    and "DecodeOperation (log_Data l') = Inr op'" "op_ID op' = op_ID op" "Digest op' = Inr dg'"
  shows "Apply DecodeOperation Digest parse commits l' f2 =
    (if dg' = dg then (Inr (result_of l' op'), f2\<lparr>fsm_index := log_Index l', fsm_term := log_Term l'\<rparr>)
     else (Inl EReused, f2))"
proof -
  have "fsm_applied f1 (op_ID op) = Some dg"
    using assms(1,4,5) by (elim Apply_success) auto
  then have "fsm_applied f2 (op_ID op') = Some dg"
    unfolding assms(2) assms(7) by (rule run_known_mono)
  with assms show ?thesis by (simp add: Apply_def)
qed

theorem redelivery_idempotent_witness:
  "let op = \<lparr>op_ID = ''o1'', op_ObjectID = ''s1'', op_Kind = KindSiteDelete, op_Version = 1, op_Payload = ''''\<rparr>;
       step = Apply (\<lambda>x. Inr op) (\<lambda>o'. Inr ''d'') (\<lambda>x. None) True;
       f1 = snd (step \<lparr>log_Index = 3, log_Term = 1, log_Data = ''x''\<rparr> (NewFSM init_db))
   in fsm_db (snd (step \<lparr>log_Index = 9, log_Term = 2, log_Data = ''y''\<rparr> f1)) = fsm_db f1 \<and>
      AppliedIndex (snd (step \<lparr>log_Index = 9, log_Term = 2, log_Data = ''y''\<rparr> f1)) = (9, 2)"
proof -
  define op where "op = \<lparr>op_ID = ''o1'', op_ObjectID = ''s1'', op_Kind = KindSiteDelete, op_Version = 1, op_Payload = ''''\<rparr>"
  define l where "l = \<lparr>log_Index = 3::64 word, log_Term = 1::64 word, log_Data = ''x''\<rparr>"
  define l' where "l' = \<lparr>log_Index = 9::64 word, log_Term = 2::64 word, log_Data = ''y''\<rparr>"
  define f1 where "f1 = snd (Apply (\<lambda>x. Inr op) (\<lambda>o'. Inr ''d'') (\<lambda>x. None) True l (NewFSM init_db))"
  have step: "Apply (\<lambda>x. Inr op) (\<lambda>o'. Inr ''d'') (\<lambda>x. None) True l (NewFSM init_db) = (Inr (result_of l op), f1)"
    "fsm_failure f1 = None"
    unfolding f1_def by (simp_all add: Apply_def NewFSM_def init_db_def op_def apply_tx_def materialize_def)
  have "Apply (\<lambda>x. Inr op) (\<lambda>o'. Inr ''d'') (\<lambda>x. None) True l' f1 =
      (Inr (result_of l' op), f1\<lparr>fsm_index := log_Index l', fsm_term := log_Term l'\<rparr>)"
    using redelivery_idempotent [OF step(1), where ?f2.0 = f1 and ls = "[]" and op = op and dg = "''d''" and l' = l' and op' = op and dg' = "''d''"] step(2) by simp
  then show ?thesis
    unfolding Let_def op_def [symmetric] l_def [symmetric] l'_def [symmetric] f1_def [symmetric]
    by (simp add: AppliedIndex_def l'_def)
qed



end
