(* ===== verification/Snapshots.thy ===== *)
theory Snapshots
  imports Replication
begin

text \<open>
  Snapshot and restore. Installing the snapshot of one node on another makes the replicated state
  of the second that of the first, provided the second holds no group under a name the snapshot
  gives to another group; and it keeps the local rows (ids, checks, incidents) of every site that
  the snapshot still has.
\<close>

subsection \<open>Deleting stale rows\<close>

definition spec_delete_group :: "string \<Rightarrow> fleet \<Rightarrow> fleet" where
  "spec_delete_group c v = v\<lparr>fl_groups := (fl_groups v)(c := None),
     fl_sites := (\<lambda>x. map_option (\<lambda>s. if sv_group s = c then s\<lparr>sv_group := ''''\<rparr> else s) (fl_sites v x))\<rparr>"

lemma delete_groups_tables [simp]:
  "db_orgs (delete_groups P d) = db_orgs d" "db_groups (delete_groups P d) = del_where P (db_groups d)"
  "db_sites (delete_groups P d) = upd_where (\<lambda>s. \<exists>g \<in> set (map grp_id (filter P (db_groups d))). site_group s = Some g)
     (\<lambda>s. s\<lparr>site_group := None\<rparr>) (db_sites d)"
  "db_tags (delete_groups P d) = db_tags d" "db_meta (delete_groups P d) = db_meta d"
  "db_checks (delete_groups P d) = db_checks d" "db_incidents (delete_groups P d) = db_incidents d"
  "db_monitors (delete_groups P d) = db_monitors d"
  by (simp_all add: delete_groups_def Let_def)

lemma delete_groups_replica_ok:
  assumes "replica_ok d"
  shows "replica_ok (delete_groups P d)"
  using assms delete_groups_ok [of d P] by (auto simp: replica_ok_def set_upd_where)

lemma group_same_id:
  assumes "db_ok d" "g \<in> set (db_groups d)" "g' \<in> set (db_groups d)"
  shows "grp_id g = grp_id g' \<longleftrightarrow> g = g'"
  using assms distinct_map_inj [of grp_id "db_groups d" g g'] by (auto simp: db_ok_def groups_ok_def)

lemma group_ref_after_delete:
  fixes c :: string
  assumes "replica_ok d" "s \<in> set (db_sites d)"
  defines "Q \<equiv> \<lambda>s. \<exists>g \<in> set (map grp_id (filter (group_cid c) (db_groups d))). site_group s = Some g"
  shows "group_ref_cid (del_where (group_cid c) (db_groups d)) (if Q s then None else site_group s) =
    (if group_ref_cid (db_groups d) (site_group s) = c then '''' else group_ref_cid (db_groups d) (site_group s))"
proof (cases "site_group s")
  case None
  then show ?thesis by (simp add: group_ref_cid_def)
next
  case (Some i)
  have ok: "db_ok d" using assms(1) by (simp add: replica_ok_def)
  obtain g where g: "first_row (\<lambda>g. grp_id g = i) (db_groups d) = Some g"
    using site_group_known [OF ok assms(2) Some] by blast
  then have gi: "g \<in> set (db_groups d)" "grp_id g = i" using first_row_Some by fastforce+
  obtain x where x: "grp_cluster g = Some x" using assms(1) gi by (auto simp: replica_ok_def)
  have Q: "Q s \<longleftrightarrow> x = c"
  proof -
    have "Q s \<longleftrightarrow> (\<exists>h \<in> set (db_groups d). grp_cluster h = Some c \<and> grp_id g = grp_id h)"
      using Some gi(2) by (auto simp: Q_def group_cid_def)
    also have "\<dots> \<longleftrightarrow> (\<exists>h \<in> set (db_groups d). grp_cluster h = Some c \<and> g = h)"
      using group_same_id [OF ok gi(1)] by (intro bex_cong) auto
    finally show ?thesis using gi x by auto
  qed
  have ref: "group_ref_cid (db_groups d) (site_group s) = x" using Some g x by (simp add: group_ref_cid_def coalesce_def)
  show ?thesis
  proof (cases "x = c")
    case True
    with Q ref show ?thesis by (simp add: group_ref_cid_def)
  next
    case False
    have "first_row (\<lambda>h. grp_id h = i) (del_where (group_cid c) (db_groups d)) = Some g"
      using ok gi x False by (intro first_row_unique [where g = grp_id])
        (auto simp: group_cid_def db_ok_def groups_ok_def)
    with False Q ref Some x show ?thesis by (simp add: group_ref_cid_def coalesce_def)
  qed
qed

lemma view_delete_group:
  assumes "replica_ok d"
  shows "view (delete_groups (group_cid c) d) = spec_delete_group c (view d)"
proof -
  let ?Q = "\<lambda>s. \<exists>g \<in> set (map grp_id (filter (group_cid c) (db_groups d))). site_group s = Some g"
  let ?f = "\<lambda>s. s\<lparr>site_group := None\<rparr>"
  have groups: "first_row (group_cid x) (del_where (group_cid c) (db_groups d)) =
      (if x = c then None else first_row (group_cid x) (db_groups d))" for x
    by (auto simp: first_row_del_where_same group_cid_def intro: first_row_del_where_other)
  have row: "first_row (site_cid x) (upd_where ?Q ?f (db_sites d)) =
      map_option (\<lambda>r. if ?Q r then ?f r else r) (first_row (site_cid x) (db_sites d))" for x
    by (rule first_row_upd_where) (simp add: site_cid_def)
  have sites: "map_option (site_view_of (del_where (group_cid c) (db_groups d)))
      (first_row (site_cid x) (upd_where ?Q ?f (db_sites d))) = fl_sites (spec_delete_group c (view d)) x" for x
  proof (cases "first_row (site_cid x) (db_sites d)")
    case (Some s)
    then have "s \<in> set (db_sites d)" using first_row_Some by fastforce
    from group_ref_after_delete [OF assms this, of c] Some row show ?thesis
      by (auto simp: spec_delete_group_def view_def site_view_of_def split: if_splits)
  next
    case None
    then show ?thesis unfolding row by (simp add: spec_delete_group_def view_def)
  qed
  have tags: "tags_of (delete_groups (group_cid c) d) x = tags_of d x" for x
  proof -
    have "(\<exists>s \<in> set (upd_where ?Q ?f (db_sites d)). site_id s = y \<and> site_cid x s) \<longleftrightarrow>
        (\<exists>s \<in> set (db_sites d). site_id s = y \<and> site_cid x s)" for y
      unfolding upd_where_def set_map bex_simps by (intro bex_cong refl) (simp add: site_cid_def)
    then show ?thesis by (simp add: tags_of_def)
  qed
  have "fl_groups (view (delete_groups (group_cid c) d)) = (fl_groups (view d))(c := None)"
    by (rule ext) (simp add: view_def groups)
  moreover have "fl_sites (view (delete_groups (group_cid c) d)) = fl_sites (spec_delete_group c (view d))"
    by (rule ext) (simp add: view_def sites del: set_map)
  moreover have "fl_tags (view (delete_groups (group_cid c) d)) = fl_tags (view d)"
    "fl_orgs (view (delete_groups (group_cid c) d)) = fl_orgs (view d)"
    by (simp_all add: view_def tags)
  ultimately show ?thesis by (simp add: spec_delete_group_def)
qed

lemma fold_delete_sites:
  assumes "replica_ok d"
  shows "replica_ok (fold (\<lambda>c. delete_sites (site_cid c)) cs d) \<and>
    view (fold (\<lambda>c. delete_sites (site_cid c)) cs d) = fold spec_delete_site cs (view d)"
  using assms
proof (induction cs arbitrary: d)
  case (Cons c cs)
  have "replica_ok (delete_sites (site_cid c) d)" "view (delete_sites (site_cid c) d) = spec_delete_site c (view d)"
    using Cons.prems delete_sites_replica_ok view_delete_site by (auto simp: replica_ok_def)
  with Cons.IH [of "delete_sites (site_cid c) d"] show ?case by simp
qed simp

lemma fold_delete_groups:
  assumes "replica_ok d"
  shows "replica_ok (fold (\<lambda>c. delete_groups (group_cid c)) cs d) \<and>
    view (fold (\<lambda>c. delete_groups (group_cid c)) cs d) = fold spec_delete_group cs (view d)"
  using assms
proof (induction cs arbitrary: d)
  case (Cons c cs)
  then show ?case
    using delete_groups_replica_ok [of d "group_cid c"] view_delete_group [of d c] by simp
qed simp

lemma fold_spec_delete_site:
  "fold spec_delete_site cs v = v\<lparr>fl_sites := (\<lambda>c. if c \<in> set cs then None else fl_sites v c),
     fl_tags := (\<lambda>c. if c \<in> set cs then {} else fl_tags v c)\<rparr>"
  by (induction cs arbitrary: v) (auto simp: spec_delete_site_def fun_eq_iff)

lemma fold_spec_delete_group:
  "fold spec_delete_group cs v = v\<lparr>fl_groups := (\<lambda>c. if c \<in> set cs then None else fl_groups v c),
     fl_sites := (\<lambda>x. map_option (\<lambda>s. if sv_group s \<in> set cs then s\<lparr>sv_group := ''''\<rparr> else s) (fl_sites v x))\<rparr>"
proof (induction cs arbitrary: v)
  case Nil
  then show ?case by (simp add: option.map_ident)
next
  case (Cons c cs)
  have "map_option (\<lambda>s. if sv_group s \<in> set cs then s\<lparr>sv_group := ''''\<rparr> else s)
        (map_option (\<lambda>s. if sv_group s = c then s\<lparr>sv_group := ''''\<rparr> else s) x) =
      map_option (\<lambda>s. if sv_group s \<in> set (c # cs) then s\<lparr>sv_group := ''''\<rparr> else s) x" for x :: "site_view option"
    by (cases x) auto
  note comp = this
  have "fold spec_delete_group (c # cs) v = fold spec_delete_group cs (spec_delete_group c v)" by simp
  also have "\<dots> = (spec_delete_group c v)\<lparr>
      fl_groups := (\<lambda>x. if x \<in> set cs then None else fl_groups (spec_delete_group c v) x),
      fl_sites := (\<lambda>x. map_option (\<lambda>s. if sv_group s \<in> set cs then s\<lparr>sv_group := ''''\<rparr> else s)
        (fl_sites (spec_delete_group c v) x))\<rparr>"
    by (rule Cons.IH)
  also have "\<dots> = v\<lparr>fl_groups := (\<lambda>x. if x \<in> set (c # cs) then None else fl_groups v x),
     fl_sites := (\<lambda>x. map_option (\<lambda>s. if sv_group s \<in> set (c # cs) then s\<lparr>sv_group := ''''\<rparr> else s) (fl_sites v x))\<rparr>"
  proof -
    have "(\<lambda>x. if x \<in> set cs then None else fl_groups (spec_delete_group c v) x) =
        (\<lambda>x. if x \<in> set (c # cs) then None else fl_groups v x)"
      by (auto simp: spec_delete_group_def)
    moreover have "(\<lambda>x. map_option (\<lambda>s. if sv_group s \<in> set cs then s\<lparr>sv_group := ''''\<rparr> else s)
        (fl_sites (spec_delete_group c v) x)) =
        (\<lambda>x. map_option (\<lambda>s. if sv_group s \<in> set (c # cs) then s\<lparr>sv_group := ''''\<rparr> else s) (fl_sites v x))"
      using comp by (simp add: spec_delete_group_def)
    ultimately show ?thesis by (simp only:) (simp add: spec_delete_group_def)
  qed
  finally show ?case .
qed

subsection \<open>Upserting a list of payloads\<close>

definition gview :: "GroupPayload \<Rightarrow> group_view" where
  "gview p = \<lparr>gv_org = gp_OrgID p, gv_name = gp_Name p, gv_created = gp_CreatedAt p\<rparr>"

definition sview :: "SitePayload \<Rightarrow> site_view" where
  "sview p = \<lparr>sv_org = sp_OrgID p, sv_name = sp_Name p, sv_url = sp_PrimaryURL p, sv_enabled = sp_Enabled p,
     sv_group = sp_GroupClusterID p, sv_archived = archived_value p, sv_created = sp_CreatedAt p,
     sv_updated = sp_UpdatedAt p\<rparr>"

definition group_map :: "GroupPayload list \<Rightarrow> string \<rightharpoonup> group_view" where
  "group_map ps = map_of (map (\<lambda>p. (gp_ClusterID p, gview p)) ps)"

definition site_map :: "SitePayload list \<Rightarrow> string \<rightharpoonup> site_view" where
  "site_map ps = map_of (map (\<lambda>p. (sp_ClusterID p, sview p)) ps)"

lemma map_add_fresh: "k \<notin> fst ` set xs \<Longrightarrow> (m(k \<mapsto> v)) ++ map_of xs = m ++ map_of ((k, v) # xs)"
proof -
  assume "k \<notin> fst ` set xs"
  then have "map_of xs k = None" by (simp add: map_of_eq_None_iff)
  then show ?thesis by (auto simp: fun_eq_iff map_add_def split: option.split)
qed

lemma spec_put_groups:
  assumes "distinct (map gp_ClusterID ps)" "\<forall>p \<in> set ps. gp_OrgID p \<in> fl_orgs v"
    and "\<forall>p \<in> set ps. \<forall>p' \<in> set ps. gp_OrgID p = gp_OrgID p' \<and> gp_Name p = gp_Name p' \<longrightarrow> gp_ClusterID p = gp_ClusterID p'"
    and "\<forall>p \<in> set ps. \<forall>c g. fl_groups v c = Some g \<and> gv_org g = gp_OrgID p \<and> gv_name g = gp_Name p \<longrightarrow> c = gp_ClusterID p"
    and "\<forall>p \<in> set ps. \<forall>g. fl_groups v (gp_ClusterID p) = Some g \<longrightarrow> gv_created g = gp_CreatedAt p"
  shows "res_fold spec_put_group ps v = Inr (v\<lparr>fl_groups := fl_groups v ++ group_map ps\<rparr>)"
  using assms
proof (induction ps arbitrary: v)
  case Nil
  then show ?case by (simp add: group_map_def)
next
  case (Cons p ps)
  let ?v = "v\<lparr>fl_groups := (fl_groups v)(gp_ClusterID p \<mapsto> gview p)\<rparr>"
  have noclash: "\<not> (\<exists>c g. fl_groups v c = Some g \<and> gv_org g = gp_OrgID p \<and> gv_name g = gp_Name p \<and> c \<noteq> gp_ClusterID p)"
    using Cons.prems(4) by auto
  have "(case fl_groups v (gp_ClusterID p) of
        None \<Rightarrow> \<lparr>gv_org = gp_OrgID p, gv_name = gp_Name p, gv_created = gp_CreatedAt p\<rparr>
      | Some g \<Rightarrow> g\<lparr>gv_org := gp_OrgID p, gv_name := gp_Name p\<rparr>) = gview p"
  proof (cases "fl_groups v (gp_ClusterID p)")
    case (Some g)
    then show ?thesis using Cons.prems(5) by (cases g) (simp add: gview_def)
  qed (simp add: gview_def)
  then have step: "spec_put_group p v = Inr ?v"
    using Cons.prems(2) unfolding spec_put_group_def if_not_P [OF noclash] by simp
  have fresh: "gp_ClusterID p \<notin> gp_ClusterID ` set ps" using Cons.prems(1) by simp
  have "res_fold spec_put_group ps ?v = Inr (?v\<lparr>fl_groups := fl_groups ?v ++ group_map ps\<rparr>)"
  proof (rule Cons.IH)
    show "\<forall>q \<in> set ps. \<forall>c g. fl_groups ?v c = Some g \<and> gv_org g = gp_OrgID q \<and> gv_name g = gp_Name q \<longrightarrow> c = gp_ClusterID q"
    proof (intro ballI allI impI)
      fix q c g assume q: "q \<in> set ps" "fl_groups ?v c = Some g \<and> gv_org g = gp_OrgID q \<and> gv_name g = gp_Name q"
      show "c = gp_ClusterID q"
      proof (cases "c = gp_ClusterID p")
        case True
        with q(2) have "gp_OrgID p = gp_OrgID q \<and> gp_Name p = gp_Name q" by (auto simp: gview_def)
        with Cons.prems(3) q(1) have "gp_ClusterID p = gp_ClusterID q" by (meson list.set_intros)
        with True show ?thesis by simp
      next
        case False
        with q Cons.prems(4) show ?thesis by auto
      qed
    qed
    show "\<forall>q \<in> set ps. \<forall>g. fl_groups ?v (gp_ClusterID q) = Some g \<longrightarrow> gv_created g = gp_CreatedAt q"
    proof (intro ballI allI impI)
      fix q g assume q: "q \<in> set ps" "fl_groups ?v (gp_ClusterID q) = Some g"
      have "gp_ClusterID q \<noteq> gp_ClusterID p" using fresh q(1) by (metis imageI)
      with q Cons.prems(5) show "gv_created g = gp_CreatedAt q" by simp
    qed
    show "distinct (map gp_ClusterID ps)" using Cons.prems(1) by simp
    show "\<forall>q \<in> set ps. gp_OrgID q \<in> fl_orgs ?v" using Cons.prems(2) by simp
    show "\<forall>q \<in> set ps. \<forall>q' \<in> set ps. gp_OrgID q = gp_OrgID q' \<and> gp_Name q = gp_Name q' \<longrightarrow> gp_ClusterID q = gp_ClusterID q'"
      using Cons.prems(3) by (meson list.set_intros(2))
  qed
  moreover have "fl_groups ?v ++ group_map ps = fl_groups v ++ group_map (p # ps)"
    using map_add_fresh [of "gp_ClusterID p" "map (\<lambda>p. (gp_ClusterID p, gview p)) ps" "fl_groups v" "gview p"] fresh
    by (simp add: group_map_def image_image)
  ultimately show ?case using step by simp
qed

lemma spec_put_sites:
  assumes "distinct (map sp_ClusterID ps)"
    and "\<forall>p \<in> set ps. sp_GroupClusterID p = '''' \<or> fl_groups v (sp_GroupClusterID p) \<noteq> None"
    and "\<forall>p \<in> set ps. sp_OrgID p \<in> fl_orgs v"
    and "\<forall>p \<in> set ps. \<forall>s. fl_sites v (sp_ClusterID p) = Some s \<longrightarrow> sv_org s = sp_OrgID p \<and> sv_created s = sp_CreatedAt p"
  shows "res_fold spec_put_site ps v = Inr (v\<lparr>fl_sites := fl_sites v ++ site_map ps\<rparr>)"
  using assms
proof (induction ps arbitrary: v)
  case Nil
  then show ?case by (simp add: site_map_def)
next
  case (Cons p ps)
  let ?v = "v\<lparr>fl_sites := (fl_sites v)(sp_ClusterID p \<mapsto> sview p)\<rparr>"
  have step: "spec_put_site p v = Inr ?v"
  proof (cases "fl_sites v (sp_ClusterID p)")
    case None
    then show ?thesis using Cons.prems(2-4) by (auto simp: spec_put_site_def sview_def)
  next
    case (Some s)
    then have "s\<lparr>sv_name := sp_Name p, sv_url := sp_PrimaryURL p, sv_enabled := sp_Enabled p,
        sv_group := sp_GroupClusterID p, sv_archived := archived_value p, sv_updated := sp_UpdatedAt p\<rparr> = sview p"
      using Cons.prems(4) by (cases s) (simp add: sview_def)
    then show ?thesis using Some Cons.prems(2,3) by (auto simp: spec_put_site_def)
  qed
  have fresh: "sp_ClusterID p \<notin> sp_ClusterID ` set ps" using Cons.prems(1) by simp
  have "res_fold spec_put_site ps ?v = Inr (?v\<lparr>fl_sites := fl_sites ?v ++ site_map ps\<rparr>)"
  proof (rule Cons.IH)
    show "\<forall>q \<in> set ps. \<forall>s. fl_sites ?v (sp_ClusterID q) = Some s \<longrightarrow> sv_org s = sp_OrgID q \<and> sv_created s = sp_CreatedAt q"
    proof (intro ballI allI impI)
      fix q s assume q: "q \<in> set ps" "fl_sites ?v (sp_ClusterID q) = Some s"
      have "sp_ClusterID q \<noteq> sp_ClusterID p" using fresh q(1) by (metis imageI)
      with q Cons.prems(4) show "sv_org s = sp_OrgID q \<and> sv_created s = sp_CreatedAt q" by simp
    qed
  qed (use Cons.prems in simp_all)
  moreover have "fl_sites ?v ++ site_map ps = fl_sites v ++ site_map (p # ps)"
    using map_add_fresh [of "sp_ClusterID p" "map (\<lambda>p. (sp_ClusterID p, sview p)) ps" "fl_sites v" "sview p"] fresh
    by (simp add: site_map_def image_image)
  ultimately show ?case using step by simp
qed

lemma spec_set_all_tags:
  assumes "\<forall>p \<in> set ps. fl_sites v (tp_SiteClusterID (f p)) \<noteq> None \<and> distinct (tp_Tags (f p)) \<and>
      tp_SiteClusterID (f p) = c p \<and> set (tp_Tags (f p)) = t (c p)"
  shows "res_fold (\<lambda>p. spec_set_tags (f p)) ps v =
    Inr (v\<lparr>fl_tags := (\<lambda>x. if x \<in> c ` set ps then t x else fl_tags v x)\<rparr>)"
  using assms
proof (induction ps arbitrary: v)
  case (Cons p ps)
  let ?v = "v\<lparr>fl_tags := (fl_tags v)(c p := t (c p))\<rparr>"
  have "spec_set_tags (f p) v = Inr ?v" using Cons.prems by (auto simp: spec_set_tags_def)
  moreover have "res_fold (\<lambda>p. spec_set_tags (f p)) ps ?v =
      Inr (?v\<lparr>fl_tags := (\<lambda>x. if x \<in> c ` set ps then t x else fl_tags ?v x)\<rparr>)"
    using Cons.prems by (intro Cons.IH) auto
  ultimately show ?case by (auto simp: fun_eq_iff)
qed simp

subsection \<open>What a snapshot contains\<close>

text \<open>The state machine stamps \<^verbatim>\<open>archived_at\<close> with the time of the update, so the flag in a snapshot
  determines it.\<close>

definition archived_stamped :: "db \<Rightarrow> bool" where
  "archived_stamped d \<longleftrightarrow> (\<forall>s \<in> set (db_sites d). site_archived s = None \<or> site_archived s = Some (site_updated s))"

definition orgs_fit :: "db \<Rightarrow> bool" where
  "orgs_fit d \<longleftrightarrow> (\<forall>i \<in> set (org_ids d). fits64 i)"

lemma snapshot_groups:
  assumes "replica_ok (fsm_db f)"
  shows "distinct (map gp_ClusterID (sn_Groups (Snapshot f)))"
    and "set (sn_Groups (Snapshot f)) = group_payload ` set (db_groups (fsm_db f))"
    and "group_map (sn_Groups (Snapshot f)) = fl_groups (view (fsm_db f))"
proof -
  let ?gs = "filter (\<lambda>g. grp_cluster g \<noteq> None) (db_groups (fsm_db f))"
  have all: "?gs = db_groups (fsm_db f)" using assms by (simp add: replica_ok_def)
  have sn: "sn_Groups (Snapshot f) = sort_key gp_ClusterID (map group_payload (db_groups (fsm_db f)))"
    unfolding Snapshot_def Let_def all by simp
  show set: "set (sn_Groups (Snapshot f)) = group_payload ` set (db_groups (fsm_db f))" by (simp add: sn)
  have ok: "db_ok (fsm_db f)" using assms by (simp add: replica_ok_def)
  have cid: "gp_ClusterID (group_payload g) = c \<longleftrightarrow> grp_cluster g = Some c" if "g \<in> set (db_groups (fsm_db f))" for g c
    using assms that by (auto simp: group_payload_def coalesce_def replica_ok_def split: option.split)
  have "distinct (map gp_ClusterID (map group_payload (db_groups (fsm_db f))))"
  proof -
    have "distinct (db_groups (fsm_db f))" using ok by (simp add: db_ok_def groups_ok_def distinct_map)
    moreover have "inj_on (gp_ClusterID \<circ> group_payload) (set (db_groups (fsm_db f)))"
    proof (rule inj_onI)
      fix g g' assume g: "g \<in> set (db_groups (fsm_db f))" "g' \<in> set (db_groups (fsm_db f))"
        "(gp_ClusterID \<circ> group_payload) g = (gp_ClusterID \<circ> group_payload) g'"
      then obtain c where "grp_cluster g = Some c" "grp_cluster g' = Some c" using cid by (metis comp_apply)
      then show "g = g'" using indexed_inj [of grp_cluster "db_groups (fsm_db f)" g g' c] g ok
        by (simp add: db_ok_def groups_ok_def)
    qed
    ultimately show ?thesis by (simp add: distinct_map)
  qed
  then show dist: "distinct (map gp_ClusterID (sn_Groups (Snapshot f)))"
    unfolding sn by (auto simp: distinct_map intro: inj_on_imageI inj_on_imageI2)
  show "group_map (sn_Groups (Snapshot f)) = fl_groups (view (fsm_db f))"
  proof
    fix c
    have keys: "distinct (map fst (map (\<lambda>p. (gp_ClusterID p, gview p)) (sn_Groups (Snapshot f))))"
      using dist by (simp add: comp_def)
    show "group_map (sn_Groups (Snapshot f)) c = fl_groups (view (fsm_db f)) c"
    proof (cases "first_row (group_cid c) (db_groups (fsm_db f))")
      case None
      then have "\<forall>g \<in> set (db_groups (fsm_db f)). grp_cluster g \<noteq> Some c" by (simp add: first_row_None group_cid_def)
      then have "c \<notin> gp_ClusterID ` set (sn_Groups (Snapshot f))" unfolding set using cid by auto
      then show ?thesis using None by (simp add: group_map_def view_def map_of_eq_None_iff image_image)
    next
      case (Some g)
      note g = Some [unfolded group_row_iff [OF ok]]
      have "(c, gview (group_payload g)) \<in> set (map (\<lambda>p. (gp_ClusterID p, gview p)) (sn_Groups (Snapshot f)))"
        using g cid [of g c] unfolding set_map set by (intro image_eqI [of _ _ "group_payload g"]) auto
      with keys have "group_map (sn_Groups (Snapshot f)) c = Some (gview (group_payload g))"
        unfolding group_map_def by (rule map_of_is_SomeI)
      then show ?thesis using Some by (simp add: view_def gview_def group_payload_def group_view_of_def)
    qed
  qed
qed

lemma snapshot_sites:
  assumes "replica_ok (fsm_db f)" "archived_stamped (fsm_db f)"
  shows "distinct (map sp_ClusterID (sn_Sites (Snapshot f)))"
    and "set (sn_Sites (Snapshot f)) = site_payload (db_groups (fsm_db f)) ` set (db_sites (fsm_db f))"
    and "site_map (sn_Sites (Snapshot f)) = fl_sites (view (fsm_db f))"
proof -
  let ?pay = "site_payload (db_groups (fsm_db f))"
  let ?ss = "filter (\<lambda>s. site_cluster s \<noteq> None) (db_sites (fsm_db f))"
  have all: "?ss = db_sites (fsm_db f)" using assms(1) by (simp add: replica_ok_def)
  have sn: "sn_Sites (Snapshot f) = sort_key sp_ClusterID (map ?pay (db_sites (fsm_db f)))"
    unfolding Snapshot_def Let_def all by simp
  show set: "set (sn_Sites (Snapshot f)) = ?pay ` set (db_sites (fsm_db f))" by (simp add: sn)
  have ok: "db_ok (fsm_db f)" using assms(1) by (simp add: replica_ok_def)
  have cid: "sp_ClusterID (?pay s) = c \<longleftrightarrow> site_cluster s = Some c" if "s \<in> set (db_sites (fsm_db f))" for s c
    using assms(1) that by (auto simp: site_payload_def coalesce_def replica_ok_def split: option.split)
  have "distinct (map sp_ClusterID (map ?pay (db_sites (fsm_db f))))"
  proof -
    have "distinct (db_sites (fsm_db f))" using ok by (simp add: db_ok_def sites_ok_def distinct_map)
    moreover have "inj_on (sp_ClusterID \<circ> ?pay) (set (db_sites (fsm_db f)))"
    proof (rule inj_onI)
      fix s s' assume s: "s \<in> set (db_sites (fsm_db f))" "s' \<in> set (db_sites (fsm_db f))"
        "(sp_ClusterID \<circ> ?pay) s = (sp_ClusterID \<circ> ?pay) s'"
      then obtain c where "site_cluster s = Some c" "site_cluster s' = Some c" using cid by (metis comp_apply)
      then show "s = s'" using indexed_inj [of site_cluster "db_sites (fsm_db f)" s s' c] s ok
        by (simp add: db_ok_def sites_ok_def)
    qed
    ultimately show ?thesis by (simp add: distinct_map)
  qed
  then show dist: "distinct (map sp_ClusterID (sn_Sites (Snapshot f)))"
    unfolding sn by (auto simp: distinct_map intro: inj_on_imageI inj_on_imageI2)
  show "site_map (sn_Sites (Snapshot f)) = fl_sites (view (fsm_db f))"
  proof
    fix c
    have keys: "distinct (map fst (map (\<lambda>p. (sp_ClusterID p, sview p)) (sn_Sites (Snapshot f))))"
      using dist by (simp add: comp_def)
    show "site_map (sn_Sites (Snapshot f)) c = fl_sites (view (fsm_db f)) c"
    proof (cases "first_row (site_cid c) (db_sites (fsm_db f))")
      case None
      then have "\<forall>s \<in> set (db_sites (fsm_db f)). site_cluster s \<noteq> Some c" by (simp add: first_row_None site_cid_def)
      then have "c \<notin> sp_ClusterID ` set (sn_Sites (Snapshot f))" unfolding set using cid by auto
      then show ?thesis using None by (simp add: site_map_def view_def map_of_eq_None_iff image_image)
    next
      case (Some s)
      note s = Some [unfolded site_row_iff [OF ok]]
      have "(c, sview (?pay s)) \<in> set (map (\<lambda>p. (sp_ClusterID p, sview p)) (sn_Sites (Snapshot f)))"
        using s cid [of s c] unfolding set_map set by (intro image_eqI [of _ _ "?pay s"]) auto
      with keys have "site_map (sn_Sites (Snapshot f)) c = Some (sview (?pay s))"
        unfolding site_map_def by (rule map_of_is_SomeI)
      moreover have "archived_value (?pay s) = site_archived s"
        using assms(2) s by (auto simp: archived_stamped_def archived_value_def site_payload_def)
      ultimately show ?thesis using Some by (simp add: view_def sview_def site_payload_def site_view_of_def)
    qed
  qed
qed

lemma view_tags_empty: "fl_sites (view d) c = None \<Longrightarrow> fl_tags (view d) c = {}"
  by (auto simp: view_def set_tags_of first_row_None)

lemma tags_of_distinct:
  assumes "db_ok d"
  shows "distinct (tags_of d c)"
proof -
  let ?ts = "filter (\<lambda>t. \<exists>s \<in> set (db_sites d). site_id s = tag_site t \<and> site_cid c s) (db_tags d)"
  have d: "distinct (db_tags d)" "inj_on (\<lambda>t. (tag_site t, tag_text t)) (set (db_tags d))"
    using assms by (auto simp: db_ok_def tags_ok_def distinct_map)
  have "inj_on tag_text (set ?ts)"
  proof (rule inj_onI)
    fix t t' assume t: "t \<in> set ?ts" "t' \<in> set ?ts" "tag_text t = tag_text t'"
    then obtain s s' where "s \<in> set (db_sites d)" "site_id s = tag_site t" "site_cid c s"
      "s' \<in> set (db_sites d)" "site_id s' = tag_site t'" "site_cid c s'" by auto
    then have "tag_site t = tag_site t'"
      using site_row_iff [OF assms, of c s] site_row_iff [OF assms, of c s'] by (simp add: site_cid_def)
    with t d(2) show "t = t'" by (auto simp: inj_on_def)
  qed
  with d(1) show ?thesis by (simp add: tags_of_def distinct_map)
qed

subsection \<open>Restoring\<close>

lemma materialize_put_group [simp]:
  "fits64 (gp_OrgID p) \<Longrightarrow> materialize KindGroupPut obj (Some (mustJSON_group p)) d = put_group p d"
  by (simp add: materialize_def del: unmarshal.simps)

lemma materialize_put_site [simp]:
  "fits64 (sp_OrgID p) \<Longrightarrow> materialize KindSitePut obj (Some (mustJSON_site p)) d = put_site p d"
  by (simp add: materialize_def del: unmarshal.simps)

lemma materialize_set_tags [simp]: "materialize KindTagsSet obj (Some (mustJSON_tags p)) d = set_tags p d"
  by (simp add: materialize_def del: unmarshal.simps)

text \<open>A loop of operations that refine abstract ones refines the abstract loop.\<close>

lemma res_fold_refines:
  assumes "replica_ok d"
    and "\<And>p d. p \<in> set ps \<Longrightarrow> replica_ok d \<Longrightarrow> res_map view (f p d) = g p (view d)"
    and "\<And>p d d'. p \<in> set ps \<Longrightarrow> replica_ok d \<Longrightarrow> f p d = Inr d' \<Longrightarrow> replica_ok d'"
  shows "res_map view (res_fold f ps d) = res_fold g ps (view d) \<and> (\<forall>d'. res_fold f ps d = Inr d' \<longrightarrow> replica_ok d')"
  using assms
proof (induction ps arbitrary: d)
  case (Cons p ps)
  have eq: "res_map view (f p d) = g p (view d)" using Cons.prems by simp
  show ?case
  proof (cases "f p d")
    case (Inl e)
    with eq show ?thesis by (simp flip: eq)
  next
    case (Inr d1)
    then have "replica_ok d1" using Cons.prems(1) Cons.prems(3) [of p d d1] by simp
    have "res_map view (res_fold f ps d1) = res_fold g ps (view d1) \<and> (\<forall>d'. res_fold f ps d1 = Inr d' \<longrightarrow> replica_ok d')"
    proof (rule Cons.IH [OF \<open>replica_ok d1\<close>])
      fix q e e' assume q: "q \<in> set ps" "replica_ok e"
      then show "res_map view (f q e) = g q (view e)" using Cons.prems(2) [of q e] by simp
      assume "f q e = Inr e'"
      with q show "replica_ok e'" using Cons.prems(3) [of q e e'] by simp
    qed
    with Inr show ?thesis by (simp flip: eq)
  qed
qed simp

text \<open>The target of a restore may lag behind the source or be empty: rows it shares with the source
  agree on what an upsert leaves alone, and no name moved to another group.\<close>

definition restorable :: "fleet \<Rightarrow> fleet \<Rightarrow> bool" where
  "restorable src v \<longleftrightarrow> fl_orgs v = fl_orgs src \<and>
     (\<forall>c g c' g'. fl_groups src c = Some g \<and> fl_groups v c' = Some g' \<and> gv_org g' = gv_org g \<and> gv_name g' = gv_name g \<longrightarrow> c' = c) \<and>
     (\<forall>c g g'. fl_groups src c = Some g \<and> fl_groups v c = Some g' \<longrightarrow> gv_created g' = gv_created g) \<and>
     (\<forall>c s s'. fl_sites src c = Some s \<and> fl_sites v c = Some s' \<longrightarrow> sv_org s' = sv_org s \<and> sv_created s' = sv_created s)"

lemma map_of_in:
  assumes "distinct (map k ps)" "p \<in> set ps"
  shows "map_of (map (\<lambda>p. (k p, h p)) ps) (k p) = Some (h p)"
  using assms by (intro map_of_is_SomeI) (auto simp: comp_def)

lemma restore_groups:
  assumes src: "replica_ok (fsm_db f)" "orgs_fit (fsm_db f)"
    and tgt: "replica_ok d" "restorable (view (fsm_db f)) (view d)"
  shows "\<exists>d1. res_fold (\<lambda>p. materialize KindGroupPut '''' (Some (mustJSON_group p))) (sn_Groups (Snapshot f)) d = Inr d1 \<and>
    replica_ok d1 \<and> view d1 = (view d)\<lparr>fl_groups := fl_groups (view d) ++ fl_groups (view (fsm_db f))\<rparr>"
proof -
  let ?ps = "sn_Groups (Snapshot f)"
  note sn = snapshot_groups [OF src(1)]
  have ok: "db_ok (fsm_db f)" using src(1) by (simp add: replica_ok_def)
  have gm: "fl_groups (view (fsm_db f)) (gp_ClusterID p) = Some (gview p)" if "p \<in> set ?ps" for p
    using map_of_in [OF sn(1) that, of gview] by (simp add: sn(3) [symmetric] group_map_def)
  have orgs: "gp_OrgID p \<in> set (org_ids (fsm_db f))" if "p \<in> set ?ps" for p
    using ok that unfolding sn(2) by (auto simp: group_payload_def db_ok_def groups_ok_def)
  have "res_fold spec_put_group ?ps (view d) = Inr ((view d)\<lparr>fl_groups := fl_groups (view d) ++ group_map ?ps\<rparr>)"
  proof (rule spec_put_groups [OF sn(1)])
    show "\<forall>p \<in> set ?ps. gp_OrgID p \<in> fl_orgs (view d)"
      using orgs tgt(2) by (simp add: restorable_def view_def)
    show "\<forall>p \<in> set ?ps. \<forall>p' \<in> set ?ps. gp_OrgID p = gp_OrgID p' \<and> gp_Name p = gp_Name p' \<longrightarrow> gp_ClusterID p = gp_ClusterID p'"
    proof (intro ballI impI)
      fix p p' assume p: "p \<in> set ?ps" "p' \<in> set ?ps" "gp_OrgID p = gp_OrgID p' \<and> gp_Name p = gp_Name p'"
      then obtain g g' where g: "g \<in> set (db_groups (fsm_db f))" "p = group_payload g"
        "g' \<in> set (db_groups (fsm_db f))" "p' = group_payload g'" unfolding sn(2) by auto
      then have "g = g'" using p(3) ok distinct_map_inj [of "\<lambda>g. (grp_org g, grp_name g)" "db_groups (fsm_db f)" g g']
        by (simp add: group_payload_def db_ok_def groups_ok_def)
      with g show "gp_ClusterID p = gp_ClusterID p'" by simp
    qed
    show "\<forall>p \<in> set ?ps. \<forall>c g. fl_groups (view d) c = Some g \<and> gv_org g = gp_OrgID p \<and> gv_name g = gp_Name p \<longrightarrow> c = gp_ClusterID p"
    proof (intro ballI allI impI)
      fix p c g assume p: "p \<in> set ?ps" "fl_groups (view d) c = Some g \<and> gv_org g = gp_OrgID p \<and> gv_name g = gp_Name p"
      from tgt(2) have "\<forall>c g c' g'. fl_groups (view (fsm_db f)) c = Some g \<and> fl_groups (view d) c' = Some g' \<and>
          gv_org g' = gv_org g \<and> gv_name g' = gv_name g \<longrightarrow> c' = c"
        unfolding restorable_def by blast
      from this [rule_format, of "gp_ClusterID p" "gview p" c g] gm [OF p(1)] p(2)
      show "c = gp_ClusterID p" by (simp add: gview_def)
    qed
    show "\<forall>p \<in> set ?ps. \<forall>g. fl_groups (view d) (gp_ClusterID p) = Some g \<longrightarrow> gv_created g = gp_CreatedAt p"
    proof (intro ballI allI impI)
      fix p g assume p: "p \<in> set ?ps" "fl_groups (view d) (gp_ClusterID p) = Some g"
      from tgt(2) have "\<forall>c g g'. fl_groups (view (fsm_db f)) c = Some g \<and> fl_groups (view d) c = Some g' \<longrightarrow>
          gv_created g' = gv_created g"
        unfolding restorable_def by blast
      from this [rule_format, of "gp_ClusterID p" "gview p" g] gm [OF p(1)] p(2)
      show "gv_created g = gp_CreatedAt p" by (simp add: gview_def)
    qed
  qed
  moreover have fit: "fits64 (gp_OrgID p)" if "p \<in> set ?ps" for p
    using src(2) orgs [OF that] by (auto simp: orgs_fit_def)
  have "res_map view (res_fold (\<lambda>p. materialize KindGroupPut '''' (Some (mustJSON_group p))) ?ps d) =
      res_fold spec_put_group ?ps (view d) \<and>
      (\<forall>d'. res_fold (\<lambda>p. materialize KindGroupPut '''' (Some (mustJSON_group p))) ?ps d = Inr d' \<longrightarrow> replica_ok d')"
    using tgt(1) by (rule res_fold_refines) (simp_all add: fit put_group_refines put_group_ok)
  ultimately show ?thesis
    by (cases "res_fold (\<lambda>p. materialize KindGroupPut '''' (Some (mustJSON_group p))) ?ps d") (auto simp: sn(3))
qed

lemma restore_sites:
  assumes src: "replica_ok (fsm_db f)" "orgs_fit (fsm_db f)" "archived_stamped (fsm_db f)"
    and tgt: "replica_ok d" "fl_orgs (view d) = fl_orgs (view (fsm_db f))"
    and groups: "fl_groups (view (fsm_db f)) \<subseteq>\<^sub>m fl_groups (view d)"
    and same: "\<forall>c s s'. fl_sites (view (fsm_db f)) c = Some s \<and> fl_sites (view d) c = Some s' \<longrightarrow>
      sv_org s' = sv_org s \<and> sv_created s' = sv_created s"
  shows "\<exists>d1. res_fold (\<lambda>p. materialize KindSitePut '''' (Some (mustJSON_site p))) (sn_Sites (Snapshot f)) d = Inr d1 \<and>
    replica_ok d1 \<and> view d1 = (view d)\<lparr>fl_sites := fl_sites (view d) ++ fl_sites (view (fsm_db f))\<rparr>"
proof -
  let ?ps = "sn_Sites (Snapshot f)"
  note sn = snapshot_sites [OF src(1,3)]
  have ok: "db_ok (fsm_db f)" using src(1) by (simp add: replica_ok_def)
  have sm: "fl_sites (view (fsm_db f)) (sp_ClusterID p) = Some (sview p)" if "p \<in> set ?ps" for p
    using map_of_in [OF sn(1) that, of sview] by (simp add: sn(3) [symmetric] site_map_def)
  have orgs: "sp_OrgID p \<in> set (org_ids (fsm_db f))" if "p \<in> set ?ps" for p
    using ok that unfolding sn(2) by (auto simp: site_payload_def db_ok_def sites_ok_def)
  have gref: "sp_GroupClusterID p = '''' \<or> fl_groups (view (fsm_db f)) (sp_GroupClusterID p) \<noteq> None" if "p \<in> set ?ps" for p
  proof -
    from that obtain s where s: "s \<in> set (db_sites (fsm_db f))" "p = site_payload (db_groups (fsm_db f)) s"
      unfolding sn(2) by auto
    show ?thesis
    proof (cases "site_group s")
      case (Some i)
      then obtain g where g: "first_row (\<lambda>g. grp_id g = i) (db_groups (fsm_db f)) = Some g"
        using site_group_known [OF ok s(1)] by blast
      then have "g \<in> set (db_groups (fsm_db f))" using first_row_Some by fastforce
      moreover from this obtain c where "grp_cluster g = Some c" using src(1) by (auto simp: replica_ok_def)
      ultimately show ?thesis
        using s(2) Some g group_row_iff [OF ok, of c g] by (simp add: site_payload_def group_ref_cid_def coalesce_def view_def)
    qed (simp add: s(2) site_payload_def group_ref_cid_def)
  qed
  have "res_fold spec_put_site ?ps (view d) = Inr ((view d)\<lparr>fl_sites := fl_sites (view d) ++ site_map ?ps\<rparr>)"
  proof (rule spec_put_sites [OF sn(1)])
    show "\<forall>p \<in> set ?ps. sp_GroupClusterID p = '''' \<or> fl_groups (view d) (sp_GroupClusterID p) \<noteq> None"
      using gref groups by (metis domIff map_le_def)
    show "\<forall>p \<in> set ?ps. sp_OrgID p \<in> fl_orgs (view d)"
      using orgs tgt(2) by (simp add: view_def)
    show "\<forall>p \<in> set ?ps. \<forall>s. fl_sites (view d) (sp_ClusterID p) = Some s \<longrightarrow> sv_org s = sp_OrgID p \<and> sv_created s = sp_CreatedAt p"
    proof (intro ballI allI impI)
      fix p s assume p: "p \<in> set ?ps" "fl_sites (view d) (sp_ClusterID p) = Some s"
      from same [rule_format, of "sp_ClusterID p" "sview p" s] sm [OF p(1)] p(2)
      show "sv_org s = sp_OrgID p \<and> sv_created s = sp_CreatedAt p" by (simp add: sview_def)
    qed
  qed
  moreover have fit: "fits64 (sp_OrgID p)" if "p \<in> set ?ps" for p
    using src(2) orgs [OF that] by (auto simp: orgs_fit_def)
  have "res_map view (res_fold (\<lambda>p. materialize KindSitePut '''' (Some (mustJSON_site p))) ?ps d) =
      res_fold spec_put_site ?ps (view d) \<and>
      (\<forall>d'. res_fold (\<lambda>p. materialize KindSitePut '''' (Some (mustJSON_site p))) ?ps d = Inr d' \<longrightarrow> replica_ok d')"
    using tgt(1) by (rule res_fold_refines) (simp_all add: fit put_site_refines put_site_ok)
  ultimately show ?thesis
    by (cases "res_fold (\<lambda>p. materialize KindSitePut '''' (Some (mustJSON_site p))) ?ps d") (auto simp: sn(3))
qed

lemma stale_sites_set:
  assumes "db_ok d"
  shows "c \<in> set (indexed site_cluster (db_sites d)) \<longleftrightarrow> fl_sites (view d) c \<noteq> None"
  using site_row_iff [OF assms, of c] unfolding set_indexed
  by (cases "first_row (site_cid c) (db_sites d)") (auto simp: view_def)

lemma stale_groups_set:
  assumes "db_ok d"
  shows "c \<in> set (indexed grp_cluster (db_groups d)) \<longleftrightarrow> fl_groups (view d) c \<noteq> None"
  using group_row_iff [OF assms, of c] unfolding set_indexed
  by (cases "first_row (group_cid c) (db_groups d)") (auto simp: view_def)

lemma dom_site_map: "c \<in> sp_ClusterID ` set ps \<longleftrightarrow> site_map ps c \<noteq> None"
  by (simp add: site_map_def map_of_eq_None_iff image_image)

lemma dom_group_map: "c \<in> gp_ClusterID ` set ps \<longleftrightarrow> group_map ps c \<noteq> None"
  by (simp add: group_map_def map_of_eq_None_iff image_image)

lemma view_site_group:
  assumes "replica_ok d" "fl_sites (view d) c = Some s"
  shows "sv_group s = '''' \<or> fl_groups (view d) (sv_group s) \<noteq> None"
proof -
  have ok: "db_ok d" using assms(1) by (simp add: replica_ok_def)
  obtain r where r: "r \<in> set (db_sites d)" "s = site_view_of (db_groups d) r"
    using assms(2) site_row_iff [OF ok] by (auto simp: view_def)
  show ?thesis
  proof (cases "site_group r")
    case (Some i)
    then obtain g where g: "first_row (\<lambda>g. grp_id g = i) (db_groups d) = Some g"
      using site_group_known [OF ok r(1)] by blast
    then have "g \<in> set (db_groups d)" using first_row_Some by fastforce
    moreover from this obtain x where "grp_cluster g = Some x" using assms(1) by (auto simp: replica_ok_def)
    ultimately show ?thesis using r(2) Some g group_row_iff [OF ok, of x g]
      by (simp add: site_view_of_def group_ref_cid_def coalesce_def view_def)
  qed (simp add: r(2) site_view_of_def group_ref_cid_def)
qed

text \<open>After the upserts, pruning and retagging leave exactly the fleet of the source.\<close>

lemma restore_prune:
  assumes src: "replica_ok (fsm_db f)" "archived_stamped (fsm_db f)"
    and d: "replica_ok d" "view d = v\<lparr>fl_groups := fl_groups v ++ fl_groups (view (fsm_db f)),
        fl_sites := fl_sites v ++ fl_sites (view (fsm_db f))\<rparr>"
    and v: "\<And>c. fl_sites v c = None \<Longrightarrow> fl_tags v c = {}" "fl_orgs v = fl_orgs (view (fsm_db f))"
  defines "d2 \<equiv> delete_stale_groups (Snapshot f) (delete_stale_sites (Snapshot f) d)"
  shows "replica_ok d2 \<and> fl_orgs (view d2) = fl_orgs (view (fsm_db f)) \<and> fl_groups (view d2) = fl_groups (view (fsm_db f)) \<and>
    fl_sites (view d2) = fl_sites (view (fsm_db f)) \<and>
    (\<forall>c. fl_sites (view (fsm_db f)) c = None \<longrightarrow> fl_tags (view d2) c = {})"
proof -
  let ?T = "fl_sites (view (fsm_db f))" and ?S = "fl_groups (view (fsm_db f))"
  define cs where "cs = filter (\<lambda>c. c \<notin> set (map sp_ClusterID (sn_Sites (Snapshot f)))) (indexed site_cluster (db_sites d))"
  define d1 where "d1 = delete_stale_sites (Snapshot f) d"
  have d1: "replica_ok d1" "view d1 = fold spec_delete_site cs (view d)"
    using fold_delete_sites [OF d(1), of cs] by (simp_all add: d1_def delete_stale_sites_def cs_def)
  define gs where "gs = filter (\<lambda>c. c \<notin> set (map gp_ClusterID (sn_Groups (Snapshot f)))) (indexed grp_cluster (db_groups d1))"
  have d2: "replica_ok d2" "view d2 = fold spec_delete_group gs (view d1)"
    using fold_delete_groups [OF d1(1), of gs] by (simp_all add: d2_def d1_def [symmetric] delete_stale_groups_def gs_def)
  have ok: "db_ok d" "db_ok d1" using d(1) d1(1) by (simp_all add: replica_ok_def)
  have sites: "c \<in> set cs \<longleftrightarrow> ?T c = None \<and> fl_sites v c \<noteq> None" for c
    using stale_sites_set [OF ok(1), of c] dom_site_map [of c "sn_Sites (Snapshot f)"]
    by (auto simp: cs_def snapshot_sites [OF src] d(2) map_add_def split: option.splits)
  have v1: "fl_sites (view d1) = ?T" "fl_groups (view d1) = fl_groups v ++ ?S" "fl_orgs (view d1) = fl_orgs v"
    "\<And>c. ?T c = None \<Longrightarrow> fl_tags (view d1) c = {}"
    using v(1) unfolding d1(2) fold_spec_delete_site d(2) by (auto simp: sites map_add_def fun_eq_iff split: option.split)
  have groups: "c \<in> set gs \<longleftrightarrow> ?S c = None \<and> fl_groups v c \<noteq> None" for c
    using stale_groups_set [OF ok(2), of c] dom_group_map [of c "sn_Groups (Snapshot f)"]
    by (auto simp: gs_def snapshot_groups [OF src(1)] v1 map_add_def split: option.splits)
  have "map_option (\<lambda>s. if sv_group s \<in> set gs then s\<lparr>sv_group := ''''\<rparr> else s) (?T x) = ?T x" for x
  proof (cases "?T x")
    case (Some s)
    have "sv_group s \<in> set gs \<Longrightarrow> sv_group s = ''''"
      using view_site_group [OF src(1) Some] groups by auto
    with Some show ?thesis by (cases s) auto
  qed simp
  then have "fl_sites (view d2) = ?T" unfolding d2(2) fold_spec_delete_group by (simp add: v1)
  moreover have "fl_groups (view d2) = ?S"
    unfolding d2(2) fold_spec_delete_group by (auto simp: v1 groups map_add_def fun_eq_iff split: option.split)
  moreover have "fl_tags (view d2) = fl_tags (view d1)" "fl_orgs (view d2) = fl_orgs v"
    unfolding d2(2) fold_spec_delete_group by (simp_all add: v1)
  ultimately show ?thesis using d2(1) v1(4) v(2) by simp
qed

lemma restore_tags:
  assumes src: "replica_ok (fsm_db f)" "archived_stamped (fsm_db f)"
    and d: "replica_ok d" "fl_sites (view d) = fl_sites (view (fsm_db f))"
      "\<forall>c. fl_sites (view (fsm_db f)) c = None \<longrightarrow> fl_tags (view d) c = {}"
  shows "\<exists>d1. res_fold (\<lambda>p. materialize KindTagsSet '''' (Some (mustJSON_tags (snapshot_tags (Snapshot f) p))))
      (sn_Sites (Snapshot f)) d = Inr d1 \<and> replica_ok d1 \<and>
    view d1 = (view d)\<lparr>fl_tags := fl_tags (view (fsm_db f))\<rparr>"
proof -
  let ?ps = "sn_Sites (Snapshot f)" and ?t = "\<lambda>p. snapshot_tags (Snapshot f) p"
  have ok: "db_ok (fsm_db f)" using src(1) by (simp add: replica_ok_def)
  note sn = snapshot_sites [OF src]
  have tags: "tp_Tags (?t p) = tags_of (fsm_db f) (sp_ClusterID p)" if "p \<in> set ?ps" for p
    using that by (auto simp: snapshot_tags_def Snapshot_def Let_def)
  have "res_fold (\<lambda>p. spec_set_tags (?t p)) ?ps (view d) =
      Inr ((view d)\<lparr>fl_tags := (\<lambda>x. if x \<in> sp_ClusterID ` set ?ps then fl_tags (view (fsm_db f)) x else fl_tags (view d) x)\<rparr>)"
  proof (rule spec_set_all_tags, intro ballI conjI)
    fix p assume p: "p \<in> set ?ps"
    show "fl_sites (view d) (tp_SiteClusterID (?t p)) \<noteq> None"
      using p dom_site_map [of "sp_ClusterID p" ?ps] by (simp add: snapshot_tags_def d(2) sn(3))
    show "distinct (tp_Tags (?t p))" using tags [OF p] tags_of_distinct [OF ok] by simp
    show "set (tp_Tags (?t p)) = fl_tags (view (fsm_db f)) (sp_ClusterID p)" using tags [OF p] by (simp add: view_def)
  qed (simp add: snapshot_tags_def)
  moreover have "(\<lambda>x. if x \<in> sp_ClusterID ` set ?ps then fl_tags (view (fsm_db f)) x else fl_tags (view d) x) =
      fl_tags (view (fsm_db f))"
    using d(3) view_tags_empty by (auto simp: dom_site_map sn(3) fun_eq_iff)
  moreover have "res_map view (res_fold (\<lambda>p. materialize KindTagsSet '''' (Some (mustJSON_tags (?t p)))) ?ps d) =
      res_fold (\<lambda>p. spec_set_tags (?t p)) ?ps (view d) \<and>
      (\<forall>d'. res_fold (\<lambda>p. materialize KindTagsSet '''' (Some (mustJSON_tags (?t p)))) ?ps d = Inr d' \<longrightarrow> replica_ok d')"
    using d(1) by (rule res_fold_refines) (simp_all add: set_tags_refines set_tags_ok)
  ultimately show ?thesis
    by (cases "res_fold (\<lambda>p. materialize KindTagsSet '''' (Some (mustJSON_tags (?t p)))) ?ps d") auto
qed

lemma restore_db_view:
  assumes src: "replica_ok (fsm_db f)" "orgs_fit (fsm_db f)" "archived_stamped (fsm_db f)"
    and tgt: "replica_ok d" "restorable (view (fsm_db f)) (view d)"
  shows "\<exists>d'. restore_db (Snapshot f) d = Inr d' \<and> replica_ok d' \<and> view d' = view (fsm_db f) \<and>
    db_meta d' = restore_meta (Snapshot f)"
proof -
  let ?V = "view (fsm_db f)"
  obtain d1 where d1: "res_fold (\<lambda>p. materialize KindGroupPut '''' (Some (mustJSON_group p))) (sn_Groups (Snapshot f)) d = Inr d1"
    "replica_ok d1" "view d1 = (view d)\<lparr>fl_groups := fl_groups (view d) ++ fl_groups ?V\<rparr>"
    using restore_groups [OF src(1,2) tgt] by blast
  obtain d2 where d2: "res_fold (\<lambda>p. materialize KindSitePut '''' (Some (mustJSON_site p))) (sn_Sites (Snapshot f)) d1 = Inr d2"
    "replica_ok d2" "view d2 = (view d1)\<lparr>fl_sites := fl_sites (view d1) ++ fl_sites ?V\<rparr>"
    using restore_sites [OF src d1(2)] tgt(2) d1(3) by (auto simp: restorable_def)
  define d3 where "d3 = delete_stale_groups (Snapshot f) (delete_stale_sites (Snapshot f) d2)"
  have d3: "replica_ok d3" "fl_orgs (view d3) = fl_orgs ?V" "fl_groups (view d3) = fl_groups ?V"
    "fl_sites (view d3) = fl_sites ?V" "\<forall>c. fl_sites ?V c = None \<longrightarrow> fl_tags (view d3) c = {}"
    using restore_prune [OF src(1,3) d2(2), of "view d"] d1(3) d2(3) view_tags_empty [of d] tgt(2)
    unfolding d3_def by (simp_all add: restorable_def)
  obtain d4 where d4: "res_fold (\<lambda>p. materialize KindTagsSet '''' (Some (mustJSON_tags (snapshot_tags (Snapshot f) p))))
      (sn_Sites (Snapshot f)) d3 = Inr d4" "replica_ok d4" "view d4 = (view d3)\<lparr>fl_tags := fl_tags ?V\<rparr>"
    using restore_tags [OF src(1,3) d3(1,4,5)] by blast
  have "view d4 = ?V" using d4(3) d3 by (cases "view d3"; cases ?V) simp
  moreover have "view (d4\<lparr>db_meta := m\<rparr>) = view d4" "replica_ok (d4\<lparr>db_meta := m\<rparr>) = replica_ok d4" for m
    by (simp_all add: view_def tags_of_def replica_ok_def db_ok_def)
  ultimately show ?thesis
    using d4 by (simp add: restore_db_def d1 d2 d3_def [symmetric] del: materialize_put_group materialize_put_site materialize_set_tags)
qed

subsection \<open>Local rows\<close>

text \<open>The rows that hang on the sites of the cluster ids \<open>C\<close>: the site keeps its local id, and its
  monitors, their checks and its incidents stay.\<close>

definition keeps :: "string set \<Rightarrow> db \<Rightarrow> db \<Rightarrow> bool" where
  "keeps C d d' \<longleftrightarrow> (\<forall>s \<in> set (db_sites d). \<forall>c \<in> C. site_cluster s = Some c \<longrightarrow>
     (\<exists>s' \<in> set (db_sites d'). site_id s' = site_id s \<and> site_cluster s' = Some c) \<and>
     (\<forall>m \<in> set (db_monitors d). mon_site m = site_id s \<longrightarrow> m \<in> set (db_monitors d')) \<and>
     (\<forall>k \<in> set (db_checks d). chk_site k = site_id s \<and> (\<exists>m \<in> set (db_monitors d). mon_id m = chk_monitor k \<and> mon_site m = site_id s)
        \<longrightarrow> k \<in> set (db_checks d')) \<and>
     (\<forall>i \<in> set (db_incidents d). inc_site i = site_id s \<longrightarrow> i \<in> set (db_incidents d')))"

lemma keeps_refl: "keeps C d d"
  by (auto simp: keeps_def)

lemma keeps_trans:
  assumes "keeps C a b" "keeps C b c"
  shows "keeps C a c"
  unfolding keeps_def
proof (intro ballI impI)
  fix s x assume s: "s \<in> set (db_sites a)" "x \<in> C" "site_cluster s = Some x"
  from assms(1) s obtain s' where s': "s' \<in> set (db_sites b)" "site_id s' = site_id s" "site_cluster s' = Some x"
    and ab: "\<forall>m \<in> set (db_monitors a). mon_site m = site_id s \<longrightarrow> m \<in> set (db_monitors b)"
      "\<forall>k \<in> set (db_checks a). chk_site k = site_id s \<and> (\<exists>m \<in> set (db_monitors a). mon_id m = chk_monitor k \<and> mon_site m = site_id s)
        \<longrightarrow> k \<in> set (db_checks b)"
      "\<forall>i \<in> set (db_incidents a). inc_site i = site_id s \<longrightarrow> i \<in> set (db_incidents b)"
    unfolding keeps_def by blast
  from assms(2) s' s(2) have bc: "\<exists>t \<in> set (db_sites c). site_id t = site_id s \<and> site_cluster t = Some x"
      "\<forall>m \<in> set (db_monitors b). mon_site m = site_id s \<longrightarrow> m \<in> set (db_monitors c)"
      "\<forall>k \<in> set (db_checks b). chk_site k = site_id s \<and> (\<exists>m \<in> set (db_monitors b). mon_id m = chk_monitor k \<and> mon_site m = site_id s)
        \<longrightarrow> k \<in> set (db_checks c)"
      "\<forall>i \<in> set (db_incidents b). inc_site i = site_id s \<longrightarrow> i \<in> set (db_incidents c)"
    unfolding keeps_def by metis+
  show "(\<exists>t \<in> set (db_sites c). site_id t = site_id s \<and> site_cluster t = Some x) \<and>
     (\<forall>m \<in> set (db_monitors a). mon_site m = site_id s \<longrightarrow> m \<in> set (db_monitors c)) \<and>
     (\<forall>k \<in> set (db_checks a). chk_site k = site_id s \<and> (\<exists>m \<in> set (db_monitors a). mon_id m = chk_monitor k \<and> mon_site m = site_id s)
        \<longrightarrow> k \<in> set (db_checks c)) \<and>
     (\<forall>i \<in> set (db_incidents a). inc_site i = site_id s \<longrightarrow> i \<in> set (db_incidents c))"
    using ab bc by blast
qed

lemma keepsI:
  assumes "\<And>s. s \<in> set (db_sites d) \<Longrightarrow> \<exists>s' \<in> set (db_sites d'). site_id s' = site_id s \<and> site_cluster s' = site_cluster s"
    and "set (db_monitors d) \<subseteq> set (db_monitors d')" "set (db_checks d) \<subseteq> set (db_checks d')"
    and "set (db_incidents d) \<subseteq> set (db_incidents d')"
  shows "keeps C d d'"
  unfolding keeps_def using assms by (metis subsetD)

lemma keeps_upd_sites:
  assumes "\<And>s. site_id (f s) = site_id s \<and> site_cluster (f s) = site_cluster s"
    and "db_sites d' = upd_where P f (db_sites d)" "db_monitors d' = db_monitors d" "db_checks d' = db_checks d"
    and "db_incidents d' = db_incidents d"
  shows "keeps C d d'"
proof (rule keepsI)
  fix s assume "s \<in> set (db_sites d)"
  then have "(if P s then f s else s) \<in> set (db_sites d')" unfolding assms(2) upd_where_def by auto
  then show "\<exists>s' \<in> set (db_sites d'). site_id s' = site_id s \<and> site_cluster s' = site_cluster s"
    using assms(1) by (intro bexI) auto
qed (simp_all add: assms)

lemma put_group_keeps: "put_group p d = Inr d' \<Longrightarrow> keeps C d d'"
  unfolding put_group_def upsert_group_def insert_group_def update_group_def
  by (intro keepsI) (auto split: option.splits if_splits simp: Let_def)

lemma insert_site_rows_keeps:
  assumes "insert_site_rows i cr d = Inr d'"
  shows "keeps C d d'"
proof -
  obtain d1 d2 where d1: "insert_monitor i ''http'' 10000 200 399 cr d = Inr d1"
    and d2: "insert_health \<lparr>hl_site = i, hl_state = ''unknown'', hl_fails = 0, hl_last_check = None,
         hl_change = cr, hl_success = None, hl_failure = None\<rparr> d1 = Inr d2"
    and d3: "res_fold (insert_header i) default_headers d2 = Inr d'"
    using assms unfolding insert_site_rows_def by auto
  have "keeps C d d1" using d1 unfolding insert_monitor_def by (intro keepsI) (auto split: if_splits)
  moreover have "keeps C d1 d2" using d2 unfolding insert_health_def by (intro keepsI) (auto split: if_splits)
  moreover have "keeps C d2 d'"
  proof (rule res_fold_invariant [OF d3])
    fix x t t' assume "keeps C d2 t" "insert_header i x t = Inr t'"
    moreover from this(2) have "keeps C t t'" unfolding insert_header_def by (intro keepsI) (auto split: if_splits)
    ultimately show "keeps C d2 t'" by (blast intro: keeps_trans)
  qed (rule keeps_refl)
  ultimately show ?thesis using keeps_trans by blast
qed

lemma put_site_keeps:
  assumes "put_site p d = Inr d'"
  shows "keeps C d d'"
proof -
  obtain gid where gid: "site_group_ref (sp_GroupClusterID p) d = Inr gid"
    using assms unfolding put_site_def by auto
  show ?thesis
  proof (cases "first_row (site_cid (sp_ClusterID p)) (db_sites d)")
    case None
    then obtain r i d1 where ins: "insert_site r d = Inr (i, d1)" "insert_site_rows i (sp_CreatedAt p) d1 = Inr d'"
      using assms gid unfolding put_site_def by auto
    have "keeps C d d1" using insert_site_row(1) [OF ins(1)] by (intro keepsI) auto
    with insert_site_rows_keeps [OF ins(2)] show ?thesis using keeps_trans by blast
  next
    case (Some s)
    then obtain P f where upd: "update_sites P f d = Inr d'" and f: "\<And>r. site_id (f r) = site_id r \<and> site_cluster (f r) = site_cluster r"
      using assms gid unfolding put_site_def by auto
    from upd have "d' = d\<lparr>db_sites := upd_where P f (db_sites d)\<rparr>"
      unfolding update_sites_def by (auto split: if_splits)
    then show ?thesis by (intro keeps_upd_sites [OF f]) simp_all
  qed
qed

lemma set_tags_keeps:
  assumes "set_tags p d = Inr d'"
  shows "keeps C d d'"
proof -
  obtain s :: site_row where s: "res_fold (insert_tag (site_id s)) (tp_Tags p) (delete_tags (site_id s) d) = Inr d'"
    using assms unfolding set_tags_def by (auto split: option.splits)
  have "keeps C d (delete_tags (site_id s) d)" by (intro keepsI) (auto simp: delete_tags_def)
  moreover have "keeps C (delete_tags (site_id s) d) d'"
  proof (rule res_fold_invariant [OF s])
    fix x t t' assume "keeps C (delete_tags (site_id s) d) t" "insert_tag (site_id s) x t = Inr t'"
    moreover from this(2) have "keeps C t t'" unfolding insert_tag_def by (intro keepsI) (auto split: if_splits)
    ultimately show "keeps C (delete_tags (site_id s) d) t'" by (blast intro: keeps_trans)
  qed (rule keeps_refl)
  ultimately show ?thesis by (rule keeps_trans)
qed

lemma delete_sites_keeps:
  assumes "db_ok d" "c \<notin> C"
  shows "keeps C d (delete_sites (site_cid c) d)"
proof -
  let ?gone = "site_id ` {s \<in> set (db_sites d). site_cid c s}"
  have mons: "distinct (map mon_id (db_monitors d))" using assms(1) by (simp add: db_ok_def monitors_ok_def)
  show ?thesis
    unfolding keeps_def
  proof (intro ballI impI)
    fix s x assume s: "s \<in> set (db_sites d)" "x \<in> C" "site_cluster s = Some x"
    then have ns: "\<not> site_cid c s" using assms(2) by (auto simp: site_cid_def)
    then have keep: "site_id s \<notin> ?gone" using site_same_id [OF assms(1) s(1)] by auto
    have mk: "m \<in> set (db_monitors d) \<Longrightarrow> mon_site m = site_id s \<Longrightarrow> m' \<in> set (db_monitors d) \<Longrightarrow>
        mon_site m' \<in> ?gone \<Longrightarrow> mon_id m \<noteq> mon_id m'" for m m'
      using distinct_map_inj [OF mons, of m m'] keep by metis
    show "(\<exists>s' \<in> set (db_sites (delete_sites (site_cid c) d)). site_id s' = site_id s \<and> site_cluster s' = Some x) \<and>
     (\<forall>m \<in> set (db_monitors d). mon_site m = site_id s \<longrightarrow> m \<in> set (db_monitors (delete_sites (site_cid c) d))) \<and>
     (\<forall>k \<in> set (db_checks d). chk_site k = site_id s \<and> (\<exists>m \<in> set (db_monitors d). mon_id m = chk_monitor k \<and> mon_site m = site_id s)
        \<longrightarrow> k \<in> set (db_checks (delete_sites (site_cid c) d))) \<and>
     (\<forall>i \<in> set (db_incidents d). inc_site i = site_id s \<longrightarrow> i \<in> set (db_incidents (delete_sites (site_cid c) d)))"
    proof (intro conjI ballI impI)
      show "\<exists>s' \<in> set (db_sites (delete_sites (site_cid c) d)). site_id s' = site_id s \<and> site_cluster s' = Some x"
        using s ns by (intro bexI [of _ s]) simp_all
    next
      fix m assume "m \<in> set (db_monitors d)" "mon_site m = site_id s"
      then show "m \<in> set (db_monitors (delete_sites (site_cid c) d))"
        using keep by (simp add: delete_sites_def Let_def)
    next
      fix k assume k: "k \<in> set (db_checks d)"
        "chk_site k = site_id s \<and> (\<exists>m \<in> set (db_monitors d). mon_id m = chk_monitor k \<and> mon_site m = site_id s)"
      then have "chk_monitor k \<notin> mon_id ` {m \<in> set (db_monitors d). mon_site m \<in> ?gone}"
        using mk by (metis (no_types, lifting) imageE mem_Collect_eq)
      with k keep show "k \<in> set (db_checks (delete_sites (site_cid c) d))"
        by (simp add: delete_sites_def Let_def)
    next
      fix i assume "i \<in> set (db_incidents d)" "inc_site i = site_id s"
      then show "i \<in> set (db_incidents (delete_sites (site_cid c) d))"
        using keep by (simp add: delete_sites_def Let_def)
    qed
  qed
qed

lemma fold_delete_sites_keeps:
  assumes "db_ok d" "\<forall>c \<in> set cs. c \<notin> C"
  shows "keeps C d (fold (\<lambda>c. delete_sites (site_cid c)) cs d)"
  using assms
proof (induction cs arbitrary: d)
  case (Cons c cs)
  have "keeps C d (delete_sites (site_cid c) d)" using Cons.prems by (intro delete_sites_keeps) simp_all
  moreover have "keeps C (delete_sites (site_cid c) d) (fold (\<lambda>c. delete_sites (site_cid c)) cs (delete_sites (site_cid c) d))"
    using Cons.prems delete_sites_ok by (intro Cons.IH) auto
  ultimately have "keeps C d (fold (\<lambda>c. delete_sites (site_cid c)) cs (delete_sites (site_cid c) d))"
    by (rule keeps_trans)
  then show ?case by simp
qed (simp add: keeps_refl)

lemma delete_groups_keeps: "keeps C d (delete_groups P d)"
  by (rule keeps_upd_sites [where f = "\<lambda>s. s\<lparr>site_group := None\<rparr>"]) simp_all

lemma fold_delete_groups_keeps: "keeps C d (fold (\<lambda>c. delete_groups (group_cid c)) cs d)"
proof (induction cs arbitrary: d)
  case (Cons c cs)
  from keeps_trans [OF delete_groups_keeps Cons.IH, of d "group_cid c"] show ?case by simp
qed (simp add: keeps_refl)

lemma res_fold_keeps:
  assumes "res_fold f ps d = Inr d'" "\<And>p x x'. f p x = Inr x' \<Longrightarrow> keeps C x x'"
  shows "keeps C d d'"
  by (rule res_fold_invariant [OF assms(1), where I = "keeps C d"]) (auto intro: keeps_refl keeps_trans assms(2))

lemma materialize_put_ok:
  "materialize KindGroupPut obj (Some j) d = Inr d' \<Longrightarrow> keeps C d d' \<and> (replica_ok d \<longrightarrow> replica_ok d')"
  "materialize KindSitePut obj (Some j) d = Inr d' \<Longrightarrow> keeps C d d' \<and> (replica_ok d \<longrightarrow> replica_ok d')"
  "materialize KindTagsSet obj (Some j) d = Inr d' \<Longrightarrow> keeps C d d' \<and> (replica_ok d \<longrightarrow> replica_ok d')"
  by (auto simp: materialize_def intro: put_group_keeps put_site_keeps set_tags_keeps put_group_ok put_site_ok set_tags_ok)

text \<open>Whatever snapshot is installed, the rows of the sites it names are kept.\<close>

lemma restore_db_keeps:
  assumes "replica_ok d" "restore_db s d = Inr d'"
  shows "keeps (sp_ClusterID ` set (sn_Sites s)) d d'"
proof -
  let ?C = "sp_ClusterID ` set (sn_Sites s)"
  obtain d1 d2 d3 where
    d1: "res_fold (\<lambda>p. materialize KindGroupPut '''' (Some (mustJSON_group p))) (sn_Groups s) d = Inr d1" and
    d2: "res_fold (\<lambda>p. materialize KindSitePut '''' (Some (mustJSON_site p))) (sn_Sites s) d1 = Inr d2" and
    d3: "res_fold (\<lambda>p. materialize KindTagsSet '''' (Some (mustJSON_tags (snapshot_tags s p)))) (sn_Sites s)
         (delete_stale_groups s (delete_stale_sites s d2)) = Inr d3" and d': "d' = d3\<lparr>db_meta := restore_meta s\<rparr>"
    using assms(2) unfolding restore_db_def by (auto simp del: materialize_put_group materialize_put_site materialize_set_tags)
  have k1: "keeps ?C d d1" by (rule res_fold_keeps [OF d1]) (blast dest: materialize_put_ok(1))
  have k2: "keeps ?C d1 d2" by (rule res_fold_keeps [OF d2]) (blast dest: materialize_put_ok(2))
  have "replica_ok d1"
    by (rule res_fold_invariant [OF d1, where I = replica_ok]) (use assms(1) in \<open>auto dest: materialize_put_ok(1)\<close>)
  then have "replica_ok d2"
    by (intro res_fold_invariant [OF d2, where I = replica_ok]) (auto dest: materialize_put_ok(2))
  then have k3: "keeps ?C d2 (delete_stale_sites s d2)"
    unfolding delete_stale_sites_def by (intro fold_delete_sites_keeps) (auto simp: replica_ok_def)
  have k4: "keeps ?C (delete_stale_sites s d2) (delete_stale_groups s (delete_stale_sites s d2))"
    unfolding delete_stale_groups_def by (rule fold_delete_groups_keeps)
  have k5: "keeps ?C (delete_stale_groups s (delete_stale_sites s d2)) d3"
    by (rule res_fold_keeps [OF d3]) (blast dest: materialize_put_ok(3))
  have k6: "keeps ?C d3 d'" unfolding d' by (intro keepsI) auto
  show ?thesis using k1 k2 k3 k4 k5 k6 by (blast intro: keeps_trans)
qed

subsection \<open>Properties\<close>

text \<open>C8. Snapshot transfer. Restoring the snapshot of one node on another node that is fresh or behind
  (see \<open>restorable\<close>) succeeds, and the second node then has the replicated state of the first: the
  same fleet, the same known operations and position, and no failure, even if it had failed before.\<close>

theorem restore_installs_snapshot:
  assumes "replica_ok (fsm_db f)" "orgs_fit (fsm_db f)" "archived_stamped (fsm_db f)"
    and "replica_ok (fsm_db g)" "restorable (view (fsm_db f)) (view (fsm_db g))"
  shows "\<exists>g'. Restore True (Some (Snapshot f)) g = (Inr (), g') \<and> replica_ok (fsm_db g') \<and>
    replica_view g' = (replica_view f)\<lparr>rv_failure := None\<rparr>"
proof -
  obtain d' where d': "restore_db (Snapshot f) (fsm_db g) = Inr d'" "replica_ok d'" "view d' = view (fsm_db f)"
    using restore_db_view [OF assms] by blast
  then show ?thesis
    by (auto simp: Restore_def replica_view_def) (simp_all add: Snapshot_def Let_def)
qed

theorem restore_installs_snapshot_witness:
  "let g = \<lparr>grp_id = 5, grp_org = 1, grp_name = ''shops'', grp_created = ''t'', grp_cluster = Some ''wfg_1''\<rparr>;
       f = NewFSM (init_db\<lparr>db_groups := [g]\<rparr>)
   in \<exists>g'. Restore True (Some (Snapshot f)) (NewFSM init_db) = (Inr (), g') \<and>
        fl_groups (view (fsm_db g')) ''wfg_1'' \<noteq> None"
proof -
  define d where "d = init_db\<lparr>db_groups := [\<lparr>grp_id = 5, grp_org = 1, grp_name = ''shops'', grp_created = ''t'',
      grp_cluster = Some ''wfg_1''\<rparr>]\<rparr>"
  have ok: "replica_ok (fsm_db (NewFSM d))" "orgs_fit (fsm_db (NewFSM d))" "archived_stamped (fsm_db (NewFSM d))"
    by (simp_all add: d_def init_db_def replica_ok_def db_ok_def table_ok_defs orgs_fit_def fits64_def archived_stamped_def)
  have "fl_orgs (view init_db) = fl_orgs (view d)" "fl_groups (view init_db) = Map.empty" "fl_sites (view init_db) = Map.empty"
    by (simp_all add: view_def d_def init_db_def)
  then have r: "restorable (view (fsm_db (NewFSM d))) (view (fsm_db (NewFSM init_db)))"
    by (simp add: restorable_def)
  obtain g' where g': "Restore True (Some (Snapshot (NewFSM d))) (NewFSM init_db) = (Inr (), g')"
    "replica_view g' = (replica_view (NewFSM d))\<lparr>rv_failure := None\<rparr>"
    using restore_installs_snapshot [OF ok _ r] by auto
  have "fl_groups (view d) ''wfg_1'' \<noteq> None" by (simp add: d_def view_def group_cid_def)
  with g'(2) have "fl_groups (view (fsm_db g')) ''wfg_1'' \<noteq> None"
    by (simp add: replica_view_def)
  with g'(1) show ?thesis unfolding Let_def d_def [symmetric] by blast
qed

text \<open>Local history. Restoring any snapshot keeps, for every site the snapshot still has, the local id of the
  site, its monitors, their check results and its incidents; only the rows of sites that left the
  cluster go.\<close>

theorem restore_keeps_history:
  assumes "replica_ok (fsm_db f)" "Restore commits (Some s) f = (Inr (), f')"
  shows "keeps (sp_ClusterID ` set (sn_Sites s)) (fsm_db f) (fsm_db f')"
  using assms restore_db_keeps [OF assms(1), of s]
  by (auto simp: Restore_def split: sum.splits if_splits)

theorem restore_keeps_history_witness:
  "let f = NewFSM init_db
   in keeps (sp_ClusterID ` set (sn_Sites (Snapshot f))) init_db (fsm_db (snd (Restore True (Some (Snapshot f)) f)))"
proof -
  have sn: "Snapshot (NewFSM init_db) = \<lparr>sn_Groups = [], sn_Sites = [], sn_Tags = (\<lambda>c. None),
      sn_Applied = fsm_applied (NewFSM init_db), sn_Index = fsm_index (NewFSM init_db), sn_Term = fsm_term (NewFSM init_db)\<rparr>"
    by (simp add: Snapshot_def init_db_def Let_def)
  have "\<exists>f'. Restore True (Some (Snapshot (NewFSM init_db))) (NewFSM init_db) = (Inr (), f')"
    unfolding sn by (simp add: Restore_def restore_db_def delete_stale_sites_def delete_stale_groups_def init_db_def)
  then obtain f' where r: "Restore True (Some (Snapshot (NewFSM init_db))) (NewFSM init_db) = (Inr (), f')" by blast
  from restore_keeps_history [OF _ this] r show ?thesis by (simp add: Let_def)
qed

text \<open>C12. A tags operation naming a tag twice is rejected by the key of \<^verbatim>\<open>site_tags\<close> and fails the replica
  that applies it: from then on every entry is answered with an error and nothing changes.\<close>

theorem duplicate_tags_poison:
  assumes "replica_ok (fsm_db f)" "fsm_failure f = None"
    and "DecodeOperation (log_Data l) = Inr op" "Digest op = Inr dg" "fsm_applied f (op_ID op) = None"
    and "op_Kind op = KindTagsSet" "unmarshal tags_fields zero_tags (parse (op_Payload op)) = Inr p"
    and "fl_sites (view (fsm_db f)) (tp_SiteClusterID p) \<noteq> None" "\<not> distinct (tp_Tags p)"
  defines "f1 \<equiv> snd (Apply DecodeOperation Digest parse True l f)"
  shows "fsm_failure f1 = Some (ESql UniqueViolation) \<and>
    snd (run_log (Apply DecodeOperation Digest parse True) ls f1) = f1 \<and>
    (\<forall>r \<in> set (fst (run_log (Apply DecodeOperation Digest parse True) ls f1)). isl r)"
proof -
  have "res_map view (set_tags p (fsm_db f)) = Inl (ESql UniqueViolation)"
    unfolding set_tags_refines [OF assms(1)] using assms(8,9) by (simp add: spec_set_tags_def)
  then have "set_tags p (fsm_db f) = Inl (ESql UniqueViolation)"
    by (cases "set_tags p (fsm_db f)") simp_all
  then have "apply_tx parse True l op dg (fsm_db f) = Inl (ESql UniqueViolation)"
    using assms(6,7) by (simp add: apply_tx_def materialize_def)
  then have "fsm_failure f1 = Some (ESql UniqueViolation)"
    using assms(2-5) by (simp add: f1_def Apply_def)
  with run_failed [OF this] show ?thesis by blast
qed

theorem duplicate_tags_poison_witness:
  "let s = \<lparr>site_id = 4, site_org = 1, site_name = ''shop'', site_url = ''https://shop.example/'', site_enabled = True,
         site_group = None, site_archived = None, site_created = ''t'', site_updated = ''t'', site_cluster = Some ''wfs_1''\<rparr>;
       p = \<lparr>tp_SiteClusterID = ''wfs_1'', tp_Tags = [''eu'', ''eu'']\<rparr>;
       op = \<lparr>op_ID = ''o1'', op_ObjectID = ''wfs_1'', op_Kind = KindTagsSet, op_Version = 1, op_Payload = ''p''\<rparr>;
       step = Apply (\<lambda>x. Inr op) (\<lambda>o'. Inr ''d'') (\<lambda>x. Some (mustJSON_tags p)) True
   in fsm_failure (snd (step \<lparr>log_Index = 3, log_Term = 1, log_Data = ''x''\<rparr> (NewFSM (init_db\<lparr>db_sites := [s]\<rparr>)))) =
        Some (ESql UniqueViolation)"
proof -
  define d where "d = init_db\<lparr>db_sites := [\<lparr>site_id = 4, site_org = 1, site_name = ''shop'', site_url = ''https://shop.example/'',
     site_enabled = True, site_group = None, site_archived = None, site_created = ''t'', site_updated = ''t'',
     site_cluster = Some ''wfs_1''\<rparr>]\<rparr>"
  define op where "op = \<lparr>op_ID = ''o1'', op_ObjectID = ''wfs_1'', op_Kind = KindTagsSet, op_Version = 1, op_Payload = ''p''\<rparr>"
  define p where "p = \<lparr>tp_SiteClusterID = ''wfs_1'', tp_Tags = [''eu'', ''eu'']\<rparr>"
  have ok: "replica_ok d" by (simp add: d_def init_db_def replica_ok_def db_ok_def table_ok_defs)
  have "fsm_applied (NewFSM d) (op_ID op) = None" by (simp add: NewFSM_def d_def init_db_def op_def)
  moreover have "fl_sites (view d) (tp_SiteClusterID p) \<noteq> None" by (simp add: d_def view_def p_def site_cid_def)
  moreover have "\<not> distinct (tp_Tags p)" "op_Kind op = KindTagsSet" by (simp_all add: p_def op_def)
  ultimately show ?thesis
    using duplicate_tags_poison [of "NewFSM d" "\<lambda>x. Inr op" "\<lparr>log_Index = 3, log_Term = 1, log_Data = ''x''\<rparr>" op "\<lambda>o'. Inr ''d''"
      "''d''" "\<lambda>x. Some (mustJSON_tags p)" p] ok
    unfolding Let_def d_def [symmetric] op_def [symmetric] p_def [symmetric] by simp
qed

lemma insert_site_rows_sites: "insert_site_rows i cr d = Inr d' \<Longrightarrow> db_sites d' = db_sites d \<and> db_orgs d' = db_orgs d"
proof -
  assume "insert_site_rows i cr d = Inr d'"
  then obtain d1 d2 where d1: "insert_monitor i ''http'' 10000 200 399 cr d = Inr d1"
    and d2: "insert_health \<lparr>hl_site = i, hl_state = ''unknown'', hl_fails = 0, hl_last_check = None,
         hl_change = cr, hl_success = None, hl_failure = None\<rparr> d1 = Inr d2"
    and d3: "res_fold (insert_header i) default_headers d2 = Inr d'"
    unfolding insert_site_rows_def by auto
  have "db_sites d2 = db_sites d \<and> db_orgs d2 = db_orgs d"
    using d1 d2 unfolding insert_monitor_def insert_health_def by (auto split: if_splits)
  with d3 show ?thesis
    by (rule res_fold_invariant [where I = "\<lambda>x. db_sites x = db_sites d \<and> db_orgs x = db_orgs d"])
      (auto simp: insert_header_def split: if_splits)
qed

definition stamped_from :: "db \<Rightarrow> db \<Rightarrow> bool" where
  "stamped_from d d' \<longleftrightarrow> db_orgs d' = db_orgs d \<and> (archived_stamped d \<longrightarrow> archived_stamped d')"

lemma update_sites_stamped:
  assumes "update_sites P f d = Inr d'"
    and "\<And>s. site_archived (f s) = None \<or> site_archived (f s) = Some (site_updated (f s))"
  shows "stamped_from d d'"
proof -
  have d': "d' = d\<lparr>db_sites := upd_where P f (db_sites d)\<rparr>"
    using assms(1) unfolding update_sites_def by (auto split: if_splits)
  have "archived_stamped d'" if st: "archived_stamped d"
    unfolding archived_stamped_def
  proof
    fix s assume "s \<in> set (db_sites d')"
    then obtain r where r: "r \<in> set (db_sites d)" "s = (if P r then f r else r)"
      unfolding d' upd_where_def by auto
    show "site_archived s = None \<or> site_archived s = Some (site_updated s)"
    proof (cases "P r")
      case True
      then show ?thesis using r(2) assms(2) [of r] by simp
    next
      case False
      then show ?thesis using r st unfolding archived_stamped_def by simp
    qed
  qed
  then show ?thesis by (simp add: stamped_from_def d')
qed

lemma put_site_stamped:
  assumes "put_site p d = Inr d'"
  shows "stamped_from d d'"
proof -
  have av: "archived_value p = None \<or> archived_value p = Some (sp_UpdatedAt p)" by (simp add: archived_value_def)
  obtain gid where gid: "site_group_ref (sp_GroupClusterID p) d = Inr gid"
    using assms unfolding put_site_def by auto
  show ?thesis
  proof (cases "first_row (site_cid (sp_ClusterID p)) (db_sites d)")
    case None
    let ?r = "\<lparr>site_id = 0, site_org = sp_OrgID p, site_name = sp_Name p, site_url = sp_PrimaryURL p,
       site_enabled = sp_Enabled p, site_group = gid, site_archived = archived_value p,
       site_created = sp_CreatedAt p, site_updated = sp_UpdatedAt p, site_cluster = Some (sp_ClusterID p)\<rparr>"
    obtain i d1 where ins: "insert_site ?r d = Inr (i, d1)" "insert_site_rows i (sp_CreatedAt p) d1 = Inr d'"
      using assms None gid unfolding put_site_def by auto
    from insert_site_row(1) [OF ins(1)] insert_site_rows_sites [OF ins(2)] av show ?thesis
      by (auto simp: stamped_from_def archived_stamped_def)
  next
    case (Some s)
    then show ?thesis
      using assms gid av unfolding put_site_def by (auto elim!: update_sites_stamped)
  qed
qed

lemma materialize_stamped:
  assumes "materialize kind obj payload d = Inr d'"
  shows "stamped_from d d'"
proof -
  have "stamped_from d d'" if "put_group p d = Inr d'" for p
    using that unfolding put_group_def upsert_group_def insert_group_def update_group_def stamped_from_def archived_stamped_def
    by (auto split: option.splits if_splits simp: Let_def)
  moreover have "stamped_from d d'" if "archive_site p d = Inr d'" for p
    using that unfolding archive_site_def err_sql_Inr
    by (rule update_sites_stamped) (simp add: archived_value_def)
  moreover have "stamped_from d d'" if t: "set_tags p d = Inr d'" for p
  proof -
    obtain s :: site_row where s: "res_fold (insert_tag (site_id s)) (tp_Tags p) (delete_tags (site_id s) d) = Inr d'"
      using t unfolding set_tags_def by (auto split: option.splits)
    have "db_sites d' = db_sites d \<and> db_orgs d' = db_orgs d"
      by (rule res_fold_invariant [OF s, where I = "\<lambda>x. db_sites x = db_sites d \<and> db_orgs x = db_orgs d"])
        (auto simp: insert_tag_def delete_tags_def split: if_splits)
    then show ?thesis by (simp add: stamped_from_def archived_stamped_def)
  qed
  moreover have "stamped_from d (delete_sites P d)" for P
    by (auto simp: stamped_from_def archived_stamped_def)
  ultimately show ?thesis
    using assms put_site_stamped unfolding materialize_def by (auto split: if_splits)
qed

definition node_inv :: "FSM \<Rightarrow> bool" where
  "node_inv f \<longleftrightarrow> replica_ok (fsm_db f) \<and> archived_stamped (fsm_db f) \<and> orgs_fit (fsm_db f) \<and> durable f"

lemma node_inv_Apply:
  assumes "node_inv f"
  shows "node_inv (snd (Apply DecodeOperation Digest parse commits l f))"
proof -
  have "archived_stamped (fsm_db f') \<and> orgs_fit (fsm_db f')"
    if "f' = snd (Apply DecodeOperation Digest parse commits l f)" for f'
    using assms
  proof (cases rule: Apply_cases [of DecodeOperation l Digest parse commits f])
    case (applied op dg d)
    then obtain d1 where "materialize (op_Kind op) (op_ObjectID op) (parse (op_Payload op)) (fsm_db f) = Inr d1"
      "d = put_markers (op_ID op) dg l d1" by (auto simp: apply_tx_Inr)
    with applied that assms materialize_stamped show ?thesis
      by (fastforce simp: node_inv_def stamped_from_def orgs_fit_def archived_stamped_def put_markers_def)
  qed (use that assms in \<open>auto simp: node_inv_def fail_def\<close>)
  then show ?thesis using assms Apply_ok durable_Apply by (simp add: node_inv_def)
qed


end
