(* ===== verification/Incidents.thy ===== *)
theory Incidents
  imports Tables
begin

text \<open>
  Incidents and alerting, \<^verbatim>\<open>internal/incidents/incidents.go\<close>: a change of a site's health opens,
  escalates or resolves its incident and, in the same transaction, records the in-app alert and
  queues one delivery per enabled webhook of the site's own organization.
\<close>

subsection \<open>Statements\<close>

definition openID :: "int \<Rightarrow> db \<Rightarrow> int" where
  "openID sid d = (case latest (\<lambda>i. inc_site i = sid \<and> inc_closed i = None) inc_id (db_incidents d) of
     None \<Rightarrow> 0 | Some i \<Rightarrow> inc_id i)"

definition insert_incident :: "int \<Rightarrow> string \<Rightarrow> string \<Rightarrow> string \<Rightarrow> db \<Rightarrow> (sql_error, int \<times> db) result" where
  "insert_incident sid state summary at d =
     (if sid \<notin> set (site_ids d) then Inl ForeignKeyViolation
      else let i = fresh_id (map inc_id (db_incidents d))
           in Inr (i, d\<lparr>db_incidents := db_incidents d @ [\<lparr>inc_id = i, inc_site = sid, inc_state = state,
                inc_summary = summary, inc_opened = at, inc_closed = None, inc_ack = None\<rparr>]\<rparr>))"

definition update_incident :: "int \<Rightarrow> (incident_row \<Rightarrow> incident_row) \<Rightarrow> db \<Rightarrow> db" where
  "update_incident i f d = d\<lparr>db_incidents := upd_where (\<lambda>r. inc_id r = i) f (db_incidents d)\<rparr>"

definition recordDelivery :: "int \<Rightarrow> int \<Rightarrow> string \<Rightarrow> string \<Rightarrow> db \<Rightarrow> (sql_error, db) result" where
  "recordDelivery i sid kind at d =
     (if i \<notin> set (map inc_id (db_incidents d)) \<or> sid \<notin> set (site_ids d) then Inl ForeignKeyViolation
      else Inr (d\<lparr>db_alerts := db_alerts d @ [\<lparr>al_id = fresh_id (map al_id (db_alerts d)), al_incident = i,
             al_site = sid, al_transport = ''in_app'', al_kind = kind, al_status = ''delivered'', al_created = at\<rparr>]\<rparr>))"

text \<open>The webhooks of the site's organization: the JOIN of \<^verbatim>\<open>enqueueWebhooks\<close>.\<close>

definition site_webhooks :: "int \<Rightarrow> db \<Rightarrow> webhook_row list" where
  "site_webhooks sid d = filter (\<lambda>w. wh_enabled w \<and> (\<exists>s \<in> set (db_sites d). site_id s = sid \<and> wh_org w = site_org s)) (db_webhooks d)"

definition insert_delivery :: "string \<Rightarrow> event_payload \<Rightarrow> string \<Rightarrow> webhook_row \<Rightarrow> delivery_row list \<Rightarrow> delivery_row list" where
  "insert_delivery kind payload at w ns = ns @ [\<lparr>nd_id = fresh_id (map nd_id ns), nd_webhook = wh_id w, nd_kind = kind,
     nd_status = ''pending'', nd_payload = payload, nd_attempts = 0, nd_code = 0, nd_error = '''', nd_created = at,
     nd_delivered = None\<rparr>]"

definition enqueueWebhooks :: "int \<Rightarrow> int \<Rightarrow> string \<Rightarrow> string \<Rightarrow> string \<Rightarrow> string \<Rightarrow> db \<Rightarrow> db" where
  "enqueueWebhooks sid i kind state summary at d =
     d\<lparr>db_deliveries := fold (insert_delivery kind \<lparr>ep_site = sid, ep_incident = i, ep_state = state,
         ep_summary = summary, ep_at = at\<rparr> at) (site_webhooks sid d) (db_deliveries d)\<rparr>"

definition entered :: "string \<Rightarrow> string" where
  "entered state = ''Website entered '' @ state @ '' state''"

definition Transition :: "int \<Rightarrow> string \<Rightarrow> string \<Rightarrow> string \<Rightarrow> db \<Rightarrow> (sql_error, db) result" where
  "Transition sid prev next at d =
     (if next = prev \<or> next = ''unknown'' then Inr d
      else if next = ''healthy'' then
        (let i = openID sid d
         in if i = 0 then Inr d
            else res_bind (recordDelivery i sid ''recovery'' at
                   (update_incident i (\<lambda>r. r\<lparr>inc_state := ''resolved'', inc_closed := Some at\<rparr>) d)) (\<lambda>d.
                 Inr (enqueueWebhooks sid i ''incident.recover'' ''resolved'' ''Website recovered'' at d)))
      else
        (let i = openID sid d
         in if i > 0 then Inr (update_incident i (\<lambda>r. r\<lparr>inc_state := next\<rparr>) d)
            else res_bind (insert_incident sid next (entered next) at d) (\<lambda>(i, d).
                 res_bind (recordDelivery i sid ''open'' at d) (\<lambda>d.
                 Inr (enqueueWebhooks sid i ''incident.open'' next (entered next) at d)))))"

definition ListIncidents :: "int \<Rightarrow> db \<Rightarrow> incident_row list" where
  "ListIncidents sid d = take 100 (rev (sort_key inc_id (filter (\<lambda>i. inc_site i = sid) (db_incidents d))))"

definition Acknowledge :: "int \<Rightarrow> int \<Rightarrow> string \<Rightarrow> db \<Rightarrow> (string, db) result" where
  "Acknowledge org i at d =
     (if \<exists>r \<in> set (db_incidents d). inc_id r = i \<and> (\<exists>s \<in> set (db_sites d). site_id s = inc_site r \<and> site_org s = org)
      then Inr (update_incident i (\<lambda>r. r\<lparr>inc_ack := Some at\<rparr>) d)
      else Inl ''incident not found'')"

definition NormalizeState :: "string \<Rightarrow> string" where
  "NormalizeState s = to_lower (trim_space s)"

subsection \<open>Invariants\<close>

definition one_open :: "db \<Rightarrow> bool" where
  "one_open d \<longleftrightarrow> (\<forall>i \<in> set (db_incidents d). \<forall>j \<in> set (db_incidents d).
     inc_closed i = None \<and> inc_closed j = None \<and> inc_site i = inc_site j \<longrightarrow> i = j)"

definition alerts_of :: "string \<Rightarrow> int \<Rightarrow> db \<Rightarrow> nat" where
  "alerts_of kind i d = affected (\<lambda>a. al_incident a = i \<and> al_kind a = kind) (db_alerts d)"

text \<open>Every incident was announced once, and its recovery once when it is closed.\<close>

definition alerted_once :: "db \<Rightarrow> bool" where
  "alerted_once d \<longleftrightarrow> (\<forall>i \<in> set (db_incidents d). alerts_of ''open'' (inc_id i) d = 1 \<and>
     alerts_of ''recovery'' (inc_id i) d = (if inc_closed i = None then 0 else 1))"

definition incident_ids_pos :: "db \<Rightarrow> bool" where
  "incident_ids_pos d \<longleftrightarrow> (\<forall>i \<in> set (db_incidents d). 0 < inc_id i)"

definition incidents_inv :: "db \<Rightarrow> bool" where
  "incidents_inv d \<longleftrightarrow> db_ok d \<and> one_open d \<and> alerted_once d \<and> incident_ids_pos d"

lemma openID_zero:
  assumes "incident_ids_pos d"
  shows "openID sid d = 0 \<longleftrightarrow> (\<forall>i \<in> set (db_incidents d). inc_site i = sid \<longrightarrow> inc_closed i \<noteq> None)"
proof (cases "latest (\<lambda>i. inc_site i = sid \<and> inc_closed i = None) inc_id (db_incidents d)")
  case None
  then have "\<forall>i \<in> set (db_incidents d). \<not> (inc_site i = sid \<and> inc_closed i = None)" by (simp add: latest_None)
  with None show ?thesis by (auto simp: openID_def)
next
  case (Some i)
  from latest_Some [OF this] assms Some show ?thesis by (auto simp: openID_def incident_ids_pos_def)
qed

lemma openID_row:
  assumes "incident_ids_pos d" "openID sid d \<noteq> 0"
  obtains i where "i \<in> set (db_incidents d)" "inc_site i = sid" "inc_closed i = None" "inc_id i = openID sid d" "0 < openID sid d"
proof (cases "latest (\<lambda>i. inc_site i = sid \<and> inc_closed i = None) inc_id (db_incidents d)")
  case None
  with assms(2) show ?thesis by (simp add: openID_def)
next
  case (Some i)
  with latest_Some [OF Some] assms(1) show ?thesis by (intro that [of i]) (auto simp: openID_def incident_ids_pos_def)
qed

text \<open>The outcomes of \<^verbatim>\<open>Transition\<close>.\<close>

lemma Transition_cases:
  assumes "Transition sid prev next at d = Inr d'" "incident_ids_pos d"
  obtains (same) "next = prev \<or> next = ''unknown''" "d' = d"
  | (quiet) "next = ''healthy''" "openID sid d = 0" "d' = d"
  | (recover) i d1 where "next = ''healthy''" "next \<noteq> prev" "i = openID sid d" "i \<noteq> 0"
      "recordDelivery i sid ''recovery'' at (update_incident i (\<lambda>r. r\<lparr>inc_state := ''resolved'', inc_closed := Some at\<rparr>) d) = Inr d1"
      "d' = enqueueWebhooks sid i ''incident.recover'' ''resolved'' ''Website recovered'' at d1"
  | (escalate) i where "next \<noteq> ''healthy''" "next \<noteq> ''unknown''" "next \<noteq> prev" "i = openID sid d" "i \<noteq> 0"
      "d' = update_incident i (\<lambda>r. r\<lparr>inc_state := next\<rparr>) d"
  | (opened) i d1 d2 where "next \<noteq> ''healthy''" "next \<noteq> ''unknown''" "next \<noteq> prev" "openID sid d = 0"
      "insert_incident sid next (entered next) at d = Inr (i, d1)" "recordDelivery i sid ''open'' at d1 = Inr d2"
      "d' = enqueueWebhooks sid i ''incident.open'' next (entered next) at d2"
proof (cases "next = prev \<or> next = ''unknown''")
  case True
  then show ?thesis using assms(1) by (intro same) (simp_all add: Transition_def)
next
  case a: False
  show ?thesis
  proof (cases "next = ''healthy''")
    case True
    then show ?thesis
    proof (cases "openID sid d = 0")
      case False
      with True a assms(1) obtain d1 where "recordDelivery (openID sid d) sid ''recovery'' at
          (update_incident (openID sid d) (\<lambda>r. r\<lparr>inc_state := ''resolved'', inc_closed := Some at\<rparr>) d) = Inr d1"
        "d' = enqueueWebhooks sid (openID sid d) ''incident.recover'' ''resolved'' ''Website recovered'' at d1"
        by (auto simp: Transition_def Let_def)
      with True False a show ?thesis by (intro recover [of "openID sid d" d1]) auto
    next
      case z: True
      with True a assms(1) show ?thesis by (intro quiet) (auto simp: Transition_def Let_def)
    qed
  next
    case b: False
    show ?thesis
    proof (cases "openID sid d = 0")
      case False
      then have "0 < openID sid d" using assms(2) by (meson openID_row)
      with a b assms(1) False show ?thesis by (intro escalate [of "openID sid d"]) (auto simp: Transition_def Let_def)
    next
      case True
      with a b assms(1) obtain i d1 d2 where "insert_incident sid next (entered next) at d = Inr (i, d1)"
        "recordDelivery i sid ''open'' at d1 = Inr d2"
        "d' = enqueueWebhooks sid i ''incident.open'' next (entered next) at d2"
        by (auto simp: Transition_def Let_def)
      with a b True show ?thesis by (intro opened [of i d1 d2]) auto
    qed
  qed
qed

subsection \<open>Frame and integrity of the statements\<close>

lemma update_incident_ok:
  assumes "db_ok d" "\<And>r. inc_id (f r) = inc_id r \<and> inc_site (f r) = inc_site r"
  shows "db_ok (update_incident i f d)"
proof -
  have ids: "map inc_id (upd_where (\<lambda>r. inc_id r = i) f (db_incidents d)) = map inc_id (db_incidents d)"
    using assms(2) by (simp add: map_upd_where_same)
  have "incidents_ok (set (site_ids d)) (upd_where (\<lambda>r. inc_id r = i) f (db_incidents d))"
    using assms ids by (auto simp: db_ok_def incidents_ok_def set_upd_where)
  then show ?thesis using assms(1) ids unfolding db_ok_def update_incident_def by (simp del: set_map)
qed

lemma insert_incident_ok:
  assumes "db_ok d" "insert_incident sid st su at d = Inr (i, d')"
  shows "db_ok d'"
proof -
  let ?r = "\<lparr>inc_id = i, inc_site = sid, inc_state = st, inc_summary = su, inc_opened = at, inc_closed = None, inc_ack = None\<rparr>"
  have d': "d' = d\<lparr>db_incidents := db_incidents d @ [?r]\<rparr>" "i = fresh_id (map inc_id (db_incidents d))" "sid \<in> set (site_ids d)"
    using assms(2) unfolding insert_incident_def Let_def by (auto split: if_splits)
  have "i \<notin> set (map inc_id (db_incidents d))" unfolding d'(2) by (rule fresh_id_notin)
  then have "incidents_ok (set (site_ids d)) (db_incidents d @ [?r])"
    using assms(1) d'(3) by (auto simp: db_ok_def incidents_ok_def)
  then show ?thesis
    using assms(1) alerts_ok_mono [OF _ order_refl subset_insertI] by (simp add: db_ok_def d'(1))
qed

lemma recordDelivery_row:
  assumes "recordDelivery i sid kind at d = Inr d'"
  obtains a where "d' = d\<lparr>db_alerts := db_alerts d @ [a]\<rparr>" "al_incident a = i" "al_kind a = kind" "al_site a = sid"
    "i \<in> set (map inc_id (db_incidents d))" "sid \<in> set (site_ids d)"
  using assms unfolding recordDelivery_def by (auto split: if_splits)

lemma recordDelivery_ok:
  assumes "db_ok d" "recordDelivery i sid kind at d = Inr d'"
  shows "db_ok d'"
  using assms(2)
proof (elim recordDelivery_row)
  fix a assume a: "d' = d\<lparr>db_alerts := db_alerts d @ [a]\<rparr>" "al_incident a = i" "al_site a = sid"
    "i \<in> set (map inc_id (db_incidents d))" "sid \<in> set (site_ids d)"
  then have "alerts_ok (set (site_ids d)) (set (map inc_id (db_incidents d))) (db_alerts d @ [a])"
    using assms(1) by (auto simp: db_ok_def alerts_ok_def)
  then show ?thesis using assms(1) by (simp add: db_ok_def a(1))
qed

lemma fold_insert_delivery_ok:
  assumes "deliveries_ok H ns" "\<forall>w \<in> set ws. wh_id w \<in> H"
  shows "deliveries_ok H (fold (insert_delivery kind p at) ws ns)"
  using assms
proof (induction ws arbitrary: ns)
  case (Cons w ws)
  let ?ns = "insert_delivery kind p at w ns"
  have "fresh_id (map nd_id ns) \<notin> set (map nd_id ns)" by (rule fresh_id_notin)
  then have "deliveries_ok H ?ns" using Cons.prems by (auto simp: deliveries_ok_def insert_delivery_def)
  with Cons show ?case by simp
qed simp

lemma enqueueWebhooks_ok: "db_ok d \<Longrightarrow> db_ok (enqueueWebhooks sid i kind st su at d)"
  using fold_insert_delivery_ok [of "set (map wh_id (db_webhooks d))" "db_deliveries d" "site_webhooks sid d" kind
    "\<lparr>ep_site = sid, ep_incident = i, ep_state = st, ep_summary = su, ep_at = at\<rparr>" at]
  by (auto simp: db_ok_def enqueueWebhooks_def site_webhooks_def)

lemma enqueueWebhooks_tables [simp]:
  "db_incidents (enqueueWebhooks sid i kind st su at d) = db_incidents d"
  "db_alerts (enqueueWebhooks sid i kind st su at d) = db_alerts d"
  "db_sites (enqueueWebhooks sid i kind st su at d) = db_sites d"
  "db_webhooks (enqueueWebhooks sid i kind st su at d) = db_webhooks d"
  "db_health (enqueueWebhooks sid i kind st su at d) = db_health d"
  by (simp_all add: enqueueWebhooks_def)

lemma Transition_ok:
  assumes "db_ok d" "incident_ids_pos d" "Transition sid prev next at d = Inr d'"
  shows "db_ok d'"
  using assms(3,2)
proof (cases rule: Transition_cases)
  case (recover i d1)
  then show ?thesis
    using recordDelivery_ok [OF update_incident_ok [OF assms(1)] recover(5)] by (simp add: enqueueWebhooks_ok)
next
  case (opened i d1 d2)
  then show ?thesis
    using recordDelivery_ok [OF insert_incident_ok [OF assms(1) opened(5)] opened(6)] by (simp add: enqueueWebhooks_ok)
qed (use assms(1) update_incident_ok [OF assms(1)] in simp_all)

lemma alerts_of_append:
  "alerts_of kind i (d\<lparr>db_alerts := db_alerts d @ [a]\<rparr>) = alerts_of kind i d + (if al_incident a = i \<and> al_kind a = kind then 1 else 0)"
  by (simp add: alerts_of_def affected_def)

lemma alerts_of_cong: "db_alerts d' = db_alerts d \<Longrightarrow> alerts_of kind i d' = alerts_of kind i d"
  by (simp add: alerts_of_def)

lemma alerts_of_fresh:
  assumes "db_ok d" "i \<notin> set (map inc_id (db_incidents d))"
  shows "alerts_of kind i d = 0"
  using assms by (auto simp: alerts_of_def affected_def db_ok_def alerts_ok_def filter_empty_conv)

lemma same_incident_id:
  assumes "db_ok d" "i \<in> set (db_incidents d)" "j \<in> set (db_incidents d)" "inc_id i = inc_id j"
  shows "i = j"
  using assms distinct_map_inj [of inc_id "db_incidents d" i j] by (simp add: db_ok_def incidents_ok_def)

lemma update_incident_inv:
  assumes "incidents_inv d" "\<And>r. inc_id (f r) = inc_id r \<and> inc_site (f r) = inc_site r \<and> inc_closed (f r) = inc_closed r"
  shows "incidents_inv (update_incident i f d)"
proof -
  have rows: "\<And>r'. r' \<in> set (db_incidents (update_incident i f d)) \<Longrightarrow>
      \<exists>r \<in> set (db_incidents d). r' = (if inc_id r = i then f r else r)"
    by (auto simp: update_incident_def upd_where_def)
  have alerts: "alerts_of k j (update_incident i f d) = alerts_of k j d" for k j
    by (rule alerts_of_cong) (simp add: update_incident_def)
  have "one_open (update_incident i f d)"
    unfolding one_open_def
  proof (intro ballI impI)
    fix a b assume ab: "a \<in> set (db_incidents (update_incident i f d))" "b \<in> set (db_incidents (update_incident i f d))"
      "inc_closed a = None \<and> inc_closed b = None \<and> inc_site a = inc_site b"
    then obtain a' b' where "a' \<in> set (db_incidents d)" "a = (if inc_id a' = i then f a' else a')"
      "b' \<in> set (db_incidents d)" "b = (if inc_id b' = i then f b' else b')" using rows by meson
    moreover from this have "a' = b'"
      using assms ab(3) unfolding incidents_inv_def one_open_def by (auto split: if_splits)
    ultimately show "a = b" by simp
  qed
  moreover have "alerted_once (update_incident i f d)"
    unfolding alerted_once_def alerts
  proof
    fix a assume "a \<in> set (db_incidents (update_incident i f d))"
    then obtain r where r: "r \<in> set (db_incidents d)" "a = (if inc_id r = i then f r else r)" using rows by meson
    then have "inc_id a = inc_id r" "inc_closed a = inc_closed r" using assms(2) by auto
    with r(1) assms(1) show "alerts_of ''open'' (inc_id a) d = 1 \<and>
        alerts_of ''recovery'' (inc_id a) d = (if inc_closed a = None then 0 else 1)"
      unfolding incidents_inv_def alerted_once_def by simp
  qed
  moreover have "incident_ids_pos (update_incident i f d)"
    using assms rows unfolding incidents_inv_def incident_ids_pos_def by (metis (no_types, lifting))
  moreover have "db_ok (update_incident i f d)"
    using assms by (intro update_incident_ok) (auto simp: incidents_inv_def)
  ultimately show ?thesis by (simp add: incidents_inv_def)
qed

lemma recover_inv:
  assumes inv: "incidents_inv d" and r: "r \<in> set (db_incidents d)" "inc_id r = i" "inc_closed r = None"
    and d1: "recordDelivery i sid ''recovery'' at (update_incident i (\<lambda>r. r\<lparr>inc_state := st, inc_closed := Some at\<rparr>) d) = Inr d1"
  shows "one_open d1 \<and> alerted_once d1 \<and> incident_ids_pos d1"
proof -
  let ?f = "\<lambda>r. r\<lparr>inc_state := st, inc_closed := Some at\<rparr>" and ?d = "update_incident i (\<lambda>r. r\<lparr>inc_state := st, inc_closed := Some at\<rparr>) d"
  have ok: "db_ok d" using inv by (simp add: incidents_inv_def)
  from d1 obtain a where a: "d1 = ?d\<lparr>db_alerts := db_alerts ?d @ [a]\<rparr>" "al_incident a = i" "al_kind a = ''recovery''"
    by (elim recordDelivery_row) blast
  have incs: "db_incidents d1 = upd_where (\<lambda>r. inc_id r = i) ?f (db_incidents d)"
    by (simp add: a(1) update_incident_def)
  have rows: "\<And>x. x \<in> set (db_incidents d1) \<Longrightarrow> \<exists>y \<in> set (db_incidents d). x = (if inc_id y = i then ?f y else y)"
    unfolding incs upd_where_def by auto
  have alerts: "alerts_of k j d1 = alerts_of k j d + (if j = i \<and> k = ''recovery'' then 1 else 0)" for k j
    unfolding a(1) alerts_of_append by (auto simp: a(2,3) update_incident_def alerts_of_def)
  have "one_open d1"
    unfolding one_open_def
  proof (intro ballI impI)
    fix x y assume xy: "x \<in> set (db_incidents d1)" "y \<in> set (db_incidents d1)"
      "inc_closed x = None \<and> inc_closed y = None \<and> inc_site x = inc_site y"
    then obtain x' y' where x': "x' \<in> set (db_incidents d)" "x = (if inc_id x' = i then ?f x' else x')"
      "y' \<in> set (db_incidents d)" "y = (if inc_id y' = i then ?f y' else y')" using rows by meson
    then have "x = x'" "y = y'" using xy(3) by (auto split: if_splits)
    with x' xy(3) inv show "x = y" unfolding incidents_inv_def one_open_def by simp
  qed
  moreover have "alerted_once d1"
    unfolding alerted_once_def alerts
  proof
    fix x assume "x \<in> set (db_incidents d1)"
    then obtain y where y: "y \<in> set (db_incidents d)" "x = (if inc_id y = i then ?f y else y)" using rows by meson
    have once: "alerts_of ''open'' (inc_id y) d = 1 \<and> alerts_of ''recovery'' (inc_id y) d = (if inc_closed y = None then 0 else 1)"
      using inv y(1) unfolding incidents_inv_def alerted_once_def by simp
    show "alerts_of ''open'' (inc_id x) d + (if inc_id x = i \<and> ''open'' = ''recovery'' then 1 else 0) = 1 \<and>
      alerts_of ''recovery'' (inc_id x) d + (if inc_id x = i \<and> ''recovery'' = ''recovery'' then 1 else 0) =
        (if inc_closed x = None then 0 else 1)"
    proof (cases "inc_id y = i")
      case True
      then have "y = r" using same_incident_id [OF ok y(1) r(1)] r(2) by simp
      with True y once r show ?thesis by simp
    next
      case False
      with y once show ?thesis by simp
    qed
  qed
  moreover have "incident_ids_pos d1"
    unfolding incident_ids_pos_def
  proof
    fix x assume "x \<in> set (db_incidents d1)"
    then obtain y where y: "y \<in> set (db_incidents d)" "x = (if inc_id y = i then ?f y else y)" using rows by meson
    then show "0 < inc_id x" using inv unfolding incidents_inv_def incident_ids_pos_def by auto
  qed
  ultimately show ?thesis by simp
qed

lemma opened_inv:
  assumes inv: "incidents_inv d" and z: "openID sid d = 0"
    and ins: "insert_incident sid st su at d = Inr (i, d1)" "recordDelivery i sid ''open'' at d1 = Inr d2"
  shows "one_open d2 \<and> alerted_once d2 \<and> incident_ids_pos d2"
proof -
  let ?r = "\<lparr>inc_id = i, inc_site = sid, inc_state = st, inc_summary = su, inc_opened = at, inc_closed = None, inc_ack = None\<rparr>"
  have ok: "db_ok d" using inv by (simp add: incidents_inv_def)
  have d1: "d1 = d\<lparr>db_incidents := db_incidents d @ [?r]\<rparr>" "i = fresh_id (map inc_id (db_incidents d))"
    using ins(1) unfolding insert_incident_def Let_def by (auto split: if_splits)
  have fresh: "i \<notin> set (map inc_id (db_incidents d))" unfolding d1(2) by (rule fresh_id_notin)
  from ins(2) obtain a where a: "d2 = d1\<lparr>db_alerts := db_alerts d1 @ [a]\<rparr>" "al_incident a = i" "al_kind a = ''open''"
    by (elim recordDelivery_row) blast
  have incs: "db_incidents d2 = db_incidents d @ [?r]" by (simp add: a(1) d1(1))
  have alerts: "alerts_of k j d2 = alerts_of k j d + (if j = i \<and> k = ''open'' then 1 else 0)" for k j
    unfolding a(1) alerts_of_append by (auto simp: a(2,3) d1(1) alerts_of_def)
  have closed: "\<forall>x \<in> set (db_incidents d). inc_site x = sid \<longrightarrow> inc_closed x \<noteq> None"
    using z inv openID_zero [of d sid] by (simp add: incidents_inv_def)
  have "one_open d2"
    using inv closed unfolding one_open_def incs incidents_inv_def by auto
  moreover have "alerted_once d2"
    unfolding alerted_once_def alerts incs
  proof
    fix x assume "x \<in> set (db_incidents d @ [?r])"
    then consider "x \<in> set (db_incidents d)" "inc_id x \<noteq> i" | "x = ?r" using fresh by auto
    then show "alerts_of ''open'' (inc_id x) d + (if inc_id x = i \<and> ''open'' = ''open'' then 1 else 0) = 1 \<and>
      alerts_of ''recovery'' (inc_id x) d + (if inc_id x = i \<and> ''recovery'' = ''open'' then 1 else 0) =
        (if inc_closed x = None then 0 else 1)"
    proof cases
      case 1
      then show ?thesis using inv unfolding incidents_inv_def alerted_once_def by simp
    next
      case 2
      then show ?thesis using alerts_of_fresh [OF ok fresh] by simp
    qed
  qed
  moreover have "incident_ids_pos d2"
    using inv fresh_id_pos [of "map inc_id (db_incidents d)"] unfolding incident_ids_pos_def incs incidents_inv_def d1(2) by simp
  ultimately show ?thesis by simp
qed

lemma Transition_inv:
  assumes "incidents_inv d" "Transition sid prev next at d = Inr d'"
  shows "incidents_inv d'"
proof -
  have pos: "incident_ids_pos d" and ok: "db_ok d" using assms(1) by (simp_all add: incidents_inv_def)
  have frame: "one_open (enqueueWebhooks a b c e f g x) = one_open x" "alerted_once (enqueueWebhooks a b c e f g x) = alerted_once x"
    "incident_ids_pos (enqueueWebhooks a b c e f g x) = incident_ids_pos x" for a b c e f g x
    by (simp_all add: one_open_def alerted_once_def incident_ids_pos_def alerts_of_def)
  from assms(2) pos show ?thesis
  proof (cases rule: Transition_cases)
    case (recover i d1)
    from openID_row [OF pos] recover(3,4) obtain r where "r \<in> set (db_incidents d)" "inc_id r = i" "inc_closed r = None"
      by metis
    from recover_inv [OF assms(1) this recover(5)] recover(6) Transition_ok [OF ok pos assms(2)] show ?thesis
      by (simp add: incidents_inv_def frame)
  next
    case (opened i d1 d2)
    from opened_inv [OF assms(1) opened(4-6)] opened(7) Transition_ok [OF ok pos assms(2)] show ?thesis
      by (simp add: incidents_inv_def frame)
  next
    case (escalate i)
    then show ?thesis using update_incident_inv [OF assms(1)] by simp
  qed (use assms(1) in simp_all)
qed

lemma fold_insert_delivery:
  "\<exists>new. fold (insert_delivery kind p at) ws ns = ns @ new \<and> map nd_webhook new = map wh_id ws \<and>
     (\<forall>n \<in> set new. nd_kind n = kind \<and> nd_payload n = p \<and> nd_status n = ''pending'' \<and> nd_attempts n = 0)"
proof (induction ws arbitrary: ns)
  case (Cons w ws)
  obtain n where n: "insert_delivery kind p at w ns = ns @ [n]" "nd_webhook n = wh_id w" "nd_kind n = kind"
    "nd_payload n = p" "nd_status n = ''pending''" "nd_attempts n = 0"
    by (simp add: insert_delivery_def)
  from Cons.IH [of "ns @ [n]"] obtain new where "fold (insert_delivery kind p at) ws (ns @ [n]) = (ns @ [n]) @ new"
    "map nd_webhook new = map wh_id ws"
    "\<forall>n \<in> set new. nd_kind n = kind \<and> nd_payload n = p \<and> nd_status n = ''pending'' \<and> nd_attempts n = 0" by blast
  with n show ?case by (intro exI [of _ "n # new"]) simp
qed simp

lemma recordDelivery_deliveries:
  "recordDelivery i sid k at d = Inr d' \<Longrightarrow> db_deliveries d' = db_deliveries d \<and> site_webhooks sid' d' = site_webhooks sid' d"
  by (auto simp: recordDelivery_def site_webhooks_def split: if_splits)

definition run_transitions :: "(int \<times> string \<times> string \<times> string) list \<Rightarrow> db \<Rightarrow> db" where
  "run_transitions = fold (\<lambda>(sid, prev, next, at) d. case Transition sid prev next at d of Inl e \<Rightarrow> d | Inr d' \<Rightarrow> d')"

lemma step_transition_inv:
  "incidents_inv d \<Longrightarrow> incidents_inv (case Transition sid prev next at d of Inl e \<Rightarrow> d | Inr d' \<Rightarrow> d')"
  using Transition_inv [of d sid prev "next" at] by (cases "Transition sid prev next at d") simp_all

lemma run_transitions_inv: "incidents_inv d \<Longrightarrow> incidents_inv (run_transitions ts d)"
  unfolding run_transitions_def
  by (induction ts arbitrary: d) (simp_all add: step_transition_inv case_prod_beta)

subsection \<open>Properties\<close>

text \<open>C10. Whatever health changes are reported for whatever sites, in any order and with any claimed
  previous state, a site has at most one open incident, every incident was announced by exactly one
  in-app alert, a closed incident has exactly one recovery alert and an open one has none, and the
  tables keep their integrity.\<close>

theorem incidents_announced_once:
  assumes "incidents_inv d"
  shows "one_open (run_transitions ts d) \<and> alerted_once (run_transitions ts d) \<and> db_ok (run_transitions ts d)"
  using run_transitions_inv [OF assms] by (simp add: incidents_inv_def)

text \<open>A database with one site and two webhooks, one of them of another organization.\<close>

definition sample_db :: db where
  "sample_db = init_db\<lparr>db_orgs := [\<lparr>org_id = 1, org_name = ''A''\<rparr>, \<lparr>org_id = 2, org_name = ''B''\<rparr>],
     db_sites := [\<lparr>site_id = 7, site_org = 1, site_name = ''shop'', site_url = ''https://shop.example/'',
       site_enabled = True, site_group = None, site_archived = None, site_created = ''t'', site_updated = ''t'', site_cluster = None\<rparr>],
     db_monitors := [\<lparr>mon_id = 1, mon_site = 7, mon_kind = ''http'', mon_timeout = 10000, mon_min = 200, mon_max = 399, mon_created = ''t''\<rparr>],
     db_health := [\<lparr>hl_site = 7, hl_state = ''unknown'', hl_fails = 0, hl_last_check = None, hl_change = ''t'', hl_success = None, hl_failure = None\<rparr>],
     db_webhooks := [\<lparr>wh_id = 1, wh_org = 1, wh_name = ''a'', wh_url = ''https://a.example/'', wh_secret = ''s'', wh_enabled = True, wh_created = ''t''\<rparr>,
       \<lparr>wh_id = 2, wh_org = 2, wh_name = ''b'', wh_url = ''https://b.example/'', wh_secret = ''s'', wh_enabled = True, wh_created = ''t''\<rparr>]\<rparr>"

lemma sample_db_inv [simp]: "incidents_inv sample_db"
  by (simp add: incidents_inv_def sample_db_def init_db_def db_ok_def table_ok_defs one_open_def alerted_once_def incident_ids_pos_def)

theorem incidents_announced_once_witness:
  "let d = run_transitions [(7, ''unknown'', ''warning'', ''t1''), (7, ''warning'', ''down'', ''t2''), (7, ''down'', ''healthy'', ''t3'')] sample_db
   in one_open d \<and> alerted_once d \<and> db_ok d"
  using incidents_announced_once [OF sample_db_inv] by (simp add: Let_def)

text \<open>C11. Tenant boundary. A health change queues deliveries only when it opens or resolves an incident, and
  then exactly one pending delivery for each enabled webhook of the organization that owns the site,
  carrying that site's id; it never touches an earlier delivery and never reaches a webhook of
  another organization.\<close>

theorem webhooks_stay_in_tenant:
  assumes "incidents_inv d" "Transition sid prev next at d = Inr d'"
  shows "\<exists>new. db_deliveries d' = db_deliveries d @ new \<and>
    (new = [] \<or> map nd_webhook new = map wh_id (site_webhooks sid d)) \<and>
    (\<forall>n \<in> set new. nd_status n = ''pending'' \<and> ep_site (nd_payload n) = sid \<and>
       (\<exists>w \<in> set (db_webhooks d). wh_id w = nd_webhook n \<and> wh_enabled w \<and>
          (\<exists>s \<in> set (db_sites d). site_id s = sid \<and> site_org s = wh_org w))) \<and>
    (openID sid d = 0 \<and> next \<notin> {prev, ''unknown'', ''healthy''} \<longrightarrow> map nd_webhook new = map wh_id (site_webhooks sid d))"
proof -
  have pos: "incident_ids_pos d" using assms(1) by (simp add: incidents_inv_def)
  have queued: "\<exists>new. db_deliveries (enqueueWebhooks sid i k st su at x) = db_deliveries x @ new \<and>
      map nd_webhook new = map wh_id (site_webhooks sid d) \<and>
      (\<forall>n \<in> set new. nd_status n = ''pending'' \<and> ep_site (nd_payload n) = sid \<and>
       (\<exists>w \<in> set (db_webhooks d). wh_id w = nd_webhook n \<and> wh_enabled w \<and>
          (\<exists>s \<in> set (db_sites d). site_id s = sid \<and> site_org s = wh_org w)))"
    if "site_webhooks sid x = site_webhooks sid d" for i k st su x
  proof -
    obtain new where new: "fold (insert_delivery k \<lparr>ep_site = sid, ep_incident = i, ep_state = st, ep_summary = su, ep_at = at\<rparr> at)
        (site_webhooks sid d) (db_deliveries x) = db_deliveries x @ new" "map nd_webhook new = map wh_id (site_webhooks sid d)"
      "\<forall>n \<in> set new. nd_kind n = k \<and> nd_payload n = \<lparr>ep_site = sid, ep_incident = i, ep_state = st, ep_summary = su, ep_at = at\<rparr> \<and>
        nd_status n = ''pending'' \<and> nd_attempts n = 0"
      using fold_insert_delivery by blast
    have "\<exists>w \<in> set (site_webhooks sid d). wh_id w = nd_webhook n" if "n \<in> set new" for n
    proof -
      from that have "nd_webhook n \<in> set (map nd_webhook new)" by simp
      then show ?thesis unfolding new(2) by auto
    qed
    then show ?thesis using new that
      by (intro exI [of _ new]) (fastforce simp: enqueueWebhooks_def site_webhooks_def)
  qed
  from assms(2) pos show ?thesis
  proof (cases rule: Transition_cases)
    case (recover i d1)
    have "db_deliveries d1 = db_deliveries d" "site_webhooks sid d1 = site_webhooks sid d"
      using recordDelivery_deliveries [OF recover(5)] by (simp_all add: update_incident_def site_webhooks_def)
    with queued [of d1 i "''incident.recover''" "''resolved''" "''Website recovered''"] recover show ?thesis by auto
  next
    case (opened i d1 d2)
    have "db_deliveries d1 = db_deliveries d" "site_webhooks sid d1 = site_webhooks sid d"
      using opened(5) by (auto simp: insert_incident_def site_webhooks_def Let_def split: if_splits)
    with recordDelivery_deliveries [OF opened(6), of sid]
    have "db_deliveries d2 = db_deliveries d" "site_webhooks sid d2 = site_webhooks sid d" by simp_all
    with queued [of d2 i "''incident.open''" "next" "entered next"] opened show ?thesis by auto
  next
    case (escalate i)
    then show ?thesis by (intro exI [of _ "[]"]) (auto simp: update_incident_def)
  qed (auto)
qed

theorem webhooks_stay_in_tenant_witness:
  "\<exists>d'. Transition 7 ''unknown'' ''down'' ''t1'' sample_db = Inr d' \<and> map nd_webhook (db_deliveries d') = [1]"
proof -
  obtain d' where d': "Transition 7 ''unknown'' ''down'' ''t1'' sample_db = Inr d'"
    by (simp add: Transition_def openID_def latest_def sample_db_def init_db_def insert_incident_def recordDelivery_def Let_def)
  have "openID 7 sample_db = 0" "db_deliveries sample_db = []" "map wh_id (site_webhooks 7 sample_db) = [1]"
    by (simp_all add: openID_def latest_def sample_db_def init_db_def site_webhooks_def)
  note facts = this
  obtain new where n: "db_deliveries d' = db_deliveries sample_db @ new"
    and m: "openID 7 sample_db = 0 \<and> ''down'' \<notin> {''unknown'', ''unknown'', ''healthy''} \<longrightarrow>
       map nd_webhook new = map wh_id (site_webhooks 7 sample_db)"
    using webhooks_stay_in_tenant [OF sample_db_inv d'] by (elim exE conjE) (rule that)
  have "map nd_webhook new = [1]" using m unfolding facts by simp
  then have "map nd_webhook (db_deliveries d') = [1]" unfolding n facts by simp
  with d' show ?thesis by (intro exI [of _ d'] conjI)
qed

text \<open>Acknowledging is confined to the caller's organization: an incident of another organization's site
  is reported as not found; otherwise only the acknowledgement time of that incident changes.\<close>

theorem acknowledge_in_tenant:
  assumes "db_ok d" "r \<in> set (db_incidents d)" "s \<in> set (db_sites d)" "site_id s = inc_site r"
  shows "Acknowledge org (inc_id r) at d =
    (if site_org s = org then Inr (d\<lparr>db_incidents := upd_where (\<lambda>x. x = r) (\<lambda>x. x\<lparr>inc_ack := Some at\<rparr>) (db_incidents d)\<rparr>)
     else Inl ''incident not found'')"
proof -
  have only: "x = r" if "x \<in> set (db_incidents d)" "inc_id x = inc_id r" for x
    using same_incident_id [OF assms(1) that(1) assms(2) that(2)] .
  have site: "x = s" if "x \<in> set (db_sites d)" "site_id x = inc_site r" for x
    using assms that distinct_map_inj [of site_id "db_sites d" x s] by (simp add: db_ok_def sites_ok_def)
  have "(\<exists>x \<in> set (db_incidents d). inc_id x = inc_id r \<and> (\<exists>t \<in> set (db_sites d). site_id t = inc_site x \<and> site_org t = org)) \<longleftrightarrow>
      site_org s = org"
  proof
    assume "\<exists>x \<in> set (db_incidents d). inc_id x = inc_id r \<and> (\<exists>t \<in> set (db_sites d). site_id t = inc_site x \<and> site_org t = org)"
    then obtain x t where x: "x \<in> set (db_incidents d)" "inc_id x = inc_id r" "t \<in> set (db_sites d)" "site_id t = inc_site x" "site_org t = org"
      by blast
    then have "t = s" using site [OF x(3)] only [OF x(1,2)] by simp
    with x(5) show "site_org s = org" by simp
  qed (use assms in auto)
  moreover have "upd_where (\<lambda>x. inc_id x = inc_id r) f (db_incidents d) = upd_where (\<lambda>x. x = r) f (db_incidents d)" for f
    unfolding upd_where_def using only by (intro map_cong) auto
  ultimately show ?thesis by (simp add: Acknowledge_def update_incident_def)
qed

theorem acknowledge_in_tenant_witness:
  "let r = \<lparr>inc_id = 3, inc_site = 7, inc_state = ''down'', inc_summary = '''', inc_opened = ''t'', inc_closed = None, inc_ack = None\<rparr>;
       d = sample_db\<lparr>db_incidents := [r]\<rparr>
   in Acknowledge 2 3 ''t2'' d = Inl ''incident not found'' \<and>
      (\<exists>d'. Acknowledge 1 3 ''t2'' d = Inr d' \<and> map inc_ack (db_incidents d') = [Some ''t2''])"
proof -
  define r where "r = \<lparr>inc_id = 3, inc_site = 7, inc_state = ''down'', inc_summary = '''', inc_opened = ''t'', inc_closed = None, inc_ack = None\<rparr>"
  define d where "d = sample_db\<lparr>db_incidents := [r]\<rparr>"
  have "db_ok d" by (simp add: d_def r_def sample_db_def init_db_def db_ok_def table_ok_defs)
  from acknowledge_in_tenant [OF this, of r "hd (db_sites d)"]
  have "Acknowledge org 3 ''t2'' d = (if org = 1 then Inr (d\<lparr>db_incidents := [r\<lparr>inc_ack := Some ''t2''\<rparr>]\<rparr>)
      else Inl ''incident not found'')" for org
    by (simp add: d_def r_def sample_db_def upd_where_def)
  then show ?thesis unfolding Let_def r_def [symmetric] d_def [symmetric] by simp
qed

end
