(* ===== verification/Netip.thy ===== *)
theory Netip
  imports Go_Time "HOL-Library.Word"
begin

text \<open>
  The part of Go's \<^verbatim>\<open>net/netip\<close> that the network guard and the request metadata use: addresses as
  32-bit and 128-bit words (an IPv6 address may carry a zone), their classification, prefixes,
  \<^verbatim>\<open>ParseAddr\<close> and \<^verbatim>\<open>Addr.String\<close>. A field of an address is a natural number below its bound.
\<close>

subsection \<open>Addresses and prefixes\<close>

datatype addr = V4 "32 word" | V6 "128 word" string

definition v4 :: "nat \<Rightarrow> nat \<Rightarrow> nat \<Rightarrow> nat \<Rightarrow> addr" where
  "v4 a b c d = V4 (word_of_nat (((a * 256 + b) * 256 + c) * 256 + d))"

definition v6 :: "nat list \<Rightarrow> addr" where
  "v6 gs = V6 (word_of_nat (foldl (\<lambda>acc g. acc * 65536 + g) 0 gs)) ''''"

fun addr_unmap :: "addr \<Rightarrow> addr" where
  "addr_unmap (V4 w) = V4 w"
| "addr_unmap (V6 w z) = (if unat w div 2 ^ 32 = 0xFFFF then V4 (ucast w) else V6 w z)"

text \<open>\<^verbatim>\<open>Prefix.Contains\<close>: families never match each other and an address with a zone matches nothing.\<close>

fun prefix_contains :: "addr \<times> nat \<Rightarrow> addr \<Rightarrow> bool" where
  "prefix_contains (V4 b, n) (V4 w) \<longleftrightarrow> drop_bit (32 - n) w = drop_bit (32 - n) b"
| "prefix_contains (V6 b _, n) (V6 w z) \<longleftrightarrow> z = '''' \<and> drop_bit (128 - n) w = drop_bit (128 - n) b"
| "prefix_contains _ _ \<longleftrightarrow> False"

definition no_zone :: "addr \<Rightarrow> addr" where
  "no_zone ip = (case ip of V4 w \<Rightarrow> V4 w | V6 w z \<Rightarrow> V6 w '''')"

text \<open>The classification methods, by the blocks their documentation names. They disregard a zone, except
  for \<^verbatim>\<open>IsUnspecified\<close>, which compares whole addresses.\<close>

definition IsLoopback :: "addr \<Rightarrow> bool" where
  "IsLoopback ip \<longleftrightarrow> prefix_contains (v4 127 0 0 0, 8) ip \<or> no_zone ip = V6 1 ''''"

definition IsPrivate :: "addr \<Rightarrow> bool" where
  "IsPrivate ip \<longleftrightarrow> (\<exists>p \<in> set [(v4 10 0 0 0, 8), (v4 172 16 0 0, 12), (v4 192 168 0 0, 16), (v6 [0xFC00, 0, 0, 0, 0, 0, 0, 0], 7)].
     prefix_contains p (no_zone ip))"

definition IsLinkLocalUnicast :: "addr \<Rightarrow> bool" where
  "IsLinkLocalUnicast ip \<longleftrightarrow> prefix_contains (v4 169 254 0 0, 16) ip \<or> prefix_contains (v6 [0xFE80, 0, 0, 0, 0, 0, 0, 0], 10) (no_zone ip)"

fun IsLinkLocalMulticast :: "addr \<Rightarrow> bool" where
  "IsLinkLocalMulticast (V4 w) \<longleftrightarrow> prefix_contains (v4 224 0 0 0, 24) (V4 w)"
| "IsLinkLocalMulticast (V6 w z) \<longleftrightarrow> unat w div 2 ^ 120 = 0xFF \<and> (unat w div 2 ^ 112) mod 16 = 2"

definition IsMulticast :: "addr \<Rightarrow> bool" where
  "IsMulticast ip \<longleftrightarrow> prefix_contains (v4 224 0 0 0, 4) ip \<or> prefix_contains (v6 [0xFF00, 0, 0, 0, 0, 0, 0, 0], 8) (no_zone ip)"

definition IsUnspecified :: "addr \<Rightarrow> bool" where
  "IsUnspecified ip \<longleftrightarrow> ip = V4 0 \<or> ip = V6 0 ''''"

subsection \<open>Text\<close>

definition is_digit :: "char \<Rightarrow> bool" where
  "is_digit c \<longleftrightarrow> (let n = (of_char c :: nat) in 48 \<le> n \<and> n \<le> 57)"

definition digit_value :: "char \<Rightarrow> nat" where
  "digit_value c = of_char c - 48"

definition dec_value :: "string \<Rightarrow> nat" where
  "dec_value s = foldl (\<lambda>n c. n * 10 + digit_value c) 0 s"

definition hex_digit :: "nat \<Rightarrow> char" where
  "hex_digit n = (if n < 10 then digit n else char_of (n + 87))"

fun string_of_hex :: "nat \<Rightarrow> string" where
  "string_of_hex n = (if n < 16 then [hex_digit n] else string_of_hex (n div 16) @ [hex_digit (n mod 16)])"

declare string_of_hex.simps [simp del]

fun hex_char_value :: "char \<Rightarrow> nat option" where
  "hex_char_value c = (let n = (of_char c :: nat) in
     if 48 \<le> n \<and> n \<le> 57 then Some (n - 48)
     else if 97 \<le> n \<and> n \<le> 102 then Some (n - 87)
     else if 65 \<le> n \<and> n \<le> 70 then Some (n - 55) else None)"

declare hex_char_value.simps [simp del]

definition is_hex :: "char \<Rightarrow> bool" where
  "is_hex c \<longleftrightarrow> hex_char_value c \<noteq> None"

definition hex_value :: "string \<Rightarrow> nat" where
  "hex_value s = foldl (\<lambda>n c. n * 16 + the (hex_char_value c)) 0 s"

text \<open>One field of a dotted quad: digits without a leading zero, at most 255.\<close>

definition parse_octet :: "string \<Rightarrow> nat option" where
  "parse_octet s = (if s = [] \<or> \<not> list_all is_digit s \<or> (1 < length s \<and> hd s = CHR ''0'') then None
     else if dec_value s \<le> 255 then Some (dec_value s) else None)"

definition parse_quad :: "string \<Rightarrow> (nat \<times> nat \<times> nat \<times> nat) option" where
  "parse_quad s = (case map parse_octet (split_char (CHR ''.'') s) of
     [Some a, Some b, Some c, Some d] \<Rightarrow> Some (a, b, c, d) | _ \<Rightarrow> None)"

text \<open>The loop of \<^verbatim>\<open>parseIPv6\<close>: the groups read so far and the place of the ellipsis.\<close>

fun v6_loop :: "nat \<Rightarrow> string \<Rightarrow> nat option \<Rightarrow> nat list \<Rightarrow> (nat list \<times> nat option) option" where
  "v6_loop 0 s ell gs = (if s = [] then Some (gs, ell) else None)"
| "v6_loop (Suc k) s ell gs =
     (let f = takeWhile is_hex s; r = dropWhile is_hex s; gs' = gs @ [hex_value f]
      in if f = [] \<or> 4 < length f then None
         else case r of
           [] \<Rightarrow> Some (gs', ell)
         | c # r' \<Rightarrow>
             if c = CHR ''.'' then
               (if (ell = None \<and> length gs \<noteq> 6) \<or> 6 < length gs then None
                else case parse_quad s of None \<Rightarrow> None
                     | Some (a, b, c, d) \<Rightarrow> Some (gs @ [a * 256 + b, c * 256 + d], ell))
             else if c \<noteq> CHR '':'' \<or> r' = [] then None
             else if hd r' = CHR '':'' then
               (if ell \<noteq> None then None
                else if tl r' = [] then Some (gs', Some (length gs'))
                else v6_loop k (tl r') (Some (length gs')) gs')
             else v6_loop k r' ell gs')"

definition v6_expand :: "nat list \<times> nat option \<Rightarrow> nat list option" where
  "v6_expand = (\<lambda>(gs, ell). if length gs < 8 then
       (case ell of None \<Rightarrow> None | Some e \<Rightarrow> Some (take e gs @ replicate (8 - length gs) 0 @ drop e gs))
     else if ell = None then Some gs else None)"

definition parse_v6 :: "string \<Rightarrow> addr option" where
  "parse_v6 s0 =
     (let s = takeWhile (\<lambda>c. c \<noteq> CHR ''%'') s0; rest = dropWhile (\<lambda>c. c \<noteq> CHR ''%'') s0; zone = tl rest;
          mk = (\<lambda>gs. V6 (word_of_nat (foldl (\<lambda>acc g. acc * 65536 + g) 0 gs)) zone)
      in if rest \<noteq> [] \<and> zone = [] then None
         else if s = ''::'' then Some (mk [0])
         else map_option mk (Option.bind
                (if has_prefix s ''::'' then v6_loop 8 (drop 2 s) (Some 0) [] else v6_loop 8 s None []) v6_expand))"

definition ParseAddr :: "string \<Rightarrow> addr option" where
  "ParseAddr s = (case dropWhile (\<lambda>c. c \<notin> set ''.:%'') s of
     [] \<Rightarrow> None
   | c # _ \<Rightarrow> if c = CHR ''.'' then map_option (\<lambda>(a, b, c, d). v4 a b c d) (parse_quad s)
             else if c = CHR '':'' then parse_v6 s else None)"

definition v4_bytes :: "32 word \<Rightarrow> nat list" where
  "v4_bytes w = map (\<lambda>k. (unat w div 256 ^ k) mod 256) [3, 2, 1, 0]"

definition v6_groups :: "128 word \<Rightarrow> nat list" where
  "v6_groups w = map (\<lambda>k. (unat w div 65536 ^ k) mod 65536) [7, 6, 5, 4, 3, 2, 1, 0]"

definition v4_text :: "32 word \<Rightarrow> string" where
  "v4_text w = join_str ''.'' (map string_of_nat (v4_bytes w))"

text \<open>The first longest run of at least two zero groups, as \<open>(start, end)\<close>.\<close>

definition zero_run :: "nat list \<Rightarrow> nat \<times> nat" where
  "zero_run gs = fold (\<lambda>i (a, b). let l = length (takeWhile (\<lambda>g. g = 0) (drop i gs))
     in if 2 \<le> l \<and> b - a < l then (i, i + l) else (a, b)) [0..<length gs] (255, 255)"

definition v6_text :: "nat list \<Rightarrow> string" where
  "v6_text gs = (let (a, b) = zero_run gs; hx = \<lambda>xs. join_str '':'' (map string_of_hex xs)
     in if a = 255 then hx gs else hx (take a gs) @ ''::'' @ hx (drop b gs))"

fun addr_string :: "addr \<Rightarrow> string" where
  "addr_string (V4 w) = v4_text w"
| "addr_string (V6 w z) =
     (if unat w div 2 ^ 32 = 0xFFFF then ''::ffff:'' @ v4_text (ucast w) else v6_text (v6_groups w)) @
     (if z = '''' then '''' else CHR ''%'' # z)"


subsection \<open>Decimal and dotted-quad round trip\<close>

lemma is_digit_digit [simp]: "n < 10 \<Longrightarrow> is_digit (digit n)"
  by (simp add: is_digit_def digit_def of_char_of)

lemma digit_value_digit [simp]: "n < 10 \<Longrightarrow> digit_value (digit n) = n"
  by (simp add: digit_value_def digit_def of_char_of)

lemma dec_value_append [simp]: "dec_value (s @ [c]) = dec_value s * 10 + digit_value c"
  by (simp add: dec_value_def)

lemma string_of_nat_neq_Nil [simp]: "string_of_nat n \<noteq> []"
  by (subst string_of_nat.simps) simp

lemma dec_value_string_of_nat [simp]: "dec_value (string_of_nat n) = n"
proof (induction n rule: string_of_nat.induct)
  case (1 n)
  show ?case
  proof (cases "n < 10")
    case True
    then show ?thesis by (subst string_of_nat.simps) (simp add: dec_value_def)
  next
    case False
    with 1 show ?thesis by (subst string_of_nat.simps) simp
  qed
qed

lemma string_of_nat_digits [simp]: "list_all is_digit (string_of_nat n)"
proof (induction n rule: string_of_nat.induct)
  case (1 n)
  then show ?case by (subst string_of_nat.simps) simp
qed

lemma hd_string_of_nat: "0 < n \<Longrightarrow> hd (string_of_nat n) \<noteq> CHR ''0''"
proof (induction n rule: string_of_nat.induct)
  case (1 n)
  show ?case
  proof (cases "n < 10")
    case True
    with 1 have "digit n \<noteq> digit 0" by simp
    with True show ?thesis by (subst string_of_nat.simps) (simp add: digit_chars)
  next
    case False
    with 1 show ?thesis by (subst string_of_nat.simps) (simp add: hd_append)
  qed
qed

lemma length_string_of_nat_1: "1 < length (string_of_nat n) \<Longrightarrow> 0 < n"
  by (rule ccontr) (simp add: string_of_nat.simps)

lemma parse_octet_string_of_nat: "n \<le> 255 \<Longrightarrow> parse_octet (string_of_nat n) = Some n"
  using hd_string_of_nat length_string_of_nat_1 by (auto simp: parse_octet_def)

lemma is_digit_not_sep: "\<not> is_digit (CHR ''.'')" "\<not> is_digit (CHR '':'')" "\<not> is_digit (CHR ''%'')"
  by (simp_all add: is_digit_def)

lemma sep_notin_string_of_nat: "CHR ''.'' \<notin> set (string_of_nat n)"
  using string_of_nat_digits [of n] is_digit_not_sep unfolding list_all_iff by metis

lemma v4_bytes_value:
  "v4_bytes w = [a, b, c, d] \<Longrightarrow> v4 a b c d = V4 w \<and> a < 256 \<and> b < 256 \<and> c < 256 \<and> d < 256"
proof -
  assume *: "v4_bytes w = [a, b, c, d]"
  define n where "n = unat w"
  have n: "n < 2 ^ 32" using unsigned_less [of w, where 'a = nat] by (simp add: n_def)
  have e: "a = n div 16777216 mod 256" "b = n div 65536 mod 256" "c = n div 256 mod 256" "d = n mod 256"
    using * by (auto simp: v4_bytes_def n_def)
  have "((a * 256 + b) * 256 + c) * 256 + d = n" 
  proof -
    have "n div 65536 = n div 256 div 256" "n div 16777216 = n div 65536 div 256"
      by (simp_all add: div_mult2_eq [symmetric])
    moreover have "n div 16777216 < 256" using n by (simp add: less_mult_imp_div_less)
    ultimately show ?thesis unfolding e
      using div_mult_mod_eq [of n 256] div_mult_mod_eq [of "n div 256" 256] div_mult_mod_eq [of "n div 65536" 256] by simp
  qed
  then have "v4 a b c d = V4 w" by (simp add: v4_def n_def)
  then show ?thesis unfolding e by simp
qed

lemma parse_v4_text: "parse_quad (v4_text w) = Some (a, b, c, d)" if "v4_bytes w = [a, b, c, d]"
proof -
  have "split_char (CHR ''.'') (v4_text w) = map string_of_nat (v4_bytes w)"
    unfolding v4_text_def using that by (intro split_join) (auto simp: sep_notin_string_of_nat)
  with v4_bytes_value [OF that] that show ?thesis by (simp add: parse_quad_def parse_octet_string_of_nat)
qed

lemma ParseAddr_v4_text [simp]: "ParseAddr (v4_text w) = Some (V4 w)"
proof -
  obtain a b c d where *: "v4_bytes w = [a, b, c, d]" by (simp add: v4_bytes_def)
  have "dropWhile (\<lambda>c. c \<notin> set ''.:%'') (string_of_nat a @ CHR ''.'' # r) = CHR ''.'' # r" for r
    using string_of_nat_digits [of a] is_digit_not_sep
    by (subst dropWhile_append2) (auto simp: list_all_iff)
  moreover have "\<exists>r. v4_text w = string_of_nat a @ CHR ''.'' # r" by (simp add: v4_text_def *)
  ultimately have "\<exists>r. dropWhile (\<lambda>c. c \<notin> set ''.:%'') (v4_text w) = CHR ''.'' # r" by metis
  then show ?thesis using parse_v4_text [OF *] v4_bytes_value [OF *] by (auto simp: ParseAddr_def)
qed

subsection \<open>Prefixes as ranges\<close>

lemma unat_drop_bit: "unat (drop_bit n w) = unat w div 2 ^ n" for w :: "'a::len word"
  by (subst unat_drop_bit_eq) (simp add: drop_bit_eq_div)

lemma drop_bit_eq_range:
  fixes w b :: "'a::len word"
  assumes "unat b mod 2 ^ n = 0"
  shows "drop_bit n w = drop_bit n b \<longleftrightarrow> unat b \<le> unat w \<and> unat w < unat b + 2 ^ n"
proof -
  obtain q where q: "unat b = 2 ^ n * q" using assms by (metis mod_0_imp_dvd dvdE)
  have "drop_bit n w = drop_bit n b \<longleftrightarrow> unat w div 2 ^ n = q"
    by (simp add: word_unat_eq_iff unat_drop_bit q)
  also have "\<dots> \<longleftrightarrow> 2 ^ n * q \<le> unat w \<and> unat w < 2 ^ n * q + 2 ^ n"
    using div_nat_eqI [of "2 ^ n" q "unat w"] times_div_less_eq_dividend [of "2 ^ n" "unat w"]
      dividend_less_times_div [of "2 ^ n" "unat w"] by auto
  finally show ?thesis by (simp add: q)
qed


subsection \<open>Host and port\<close>

text \<open>\<^verbatim>\<open>net.SplitHostPort\<close>; its error texts are not used by the sources.\<close>

definition SplitHostPort :: "string \<Rightarrow> (string \<times> string) option" where
  "SplitHostPort s =
     (let port = rev (takeWhile (\<lambda>c. c \<noteq> CHR '':'') (rev s)); front = take (length s - length port - 1) s
      in if CHR '':'' \<notin> set s then None
         else if hd s = CHR ''['' then
           (if front = [] \<or> last front \<noteq> CHR '']'' then None
            else let host = butlast (tl front)
                 in if CHR '']'' \<in> set host \<or> CHR ''['' \<in> set (tl s) \<or> CHR '']'' \<in> set port then None
                    else Some (host, port))
         else if CHR '':'' \<in> set front \<or> CHR ''['' \<in> set s \<or> CHR '']'' \<in> set s then None
         else Some (front, port))"

end
