(* ===== verification/Netguard.thy ===== *)
theory Netguard
  imports Netip
begin

text \<open>
  The network guard, \<^verbatim>\<open>internal/netguard/netguard.go\<close>: which destinations the outgoing checks, crawls
  and webhook deliveries may reach. The resolver's answers are part of the \<open>Guard\<close> passed to each
  call, so two calls for the same host may see different answers (DNS rebinding).
\<close>

record Guard =
  Resolver :: "string \<Rightarrow> (string, addr list) result"
  AllowPrivate :: bool

record parsed_url =
  u_scheme :: string
  u_hostname :: string

definition reserved_blocks :: "(addr \<times> nat) list" where
  "reserved_blocks = [(v4 0 0 0 0, 8), (v4 100 64 0 0, 10), (v4 192 0 0 0, 24), (v4 192 0 2 0, 24), (v4 198 18 0 0, 15),
     (v4 198 51 100 0, 24), (v4 203 0 113 0, 24), (v4 240 0 0 0, 4), (v6 [0x2001, 0xDB8, 0, 0, 0, 0, 0, 0], 32)]"

definition Blocked :: "addr \<Rightarrow> bool" where
  "Blocked ip0 = (let ip = addr_unmap ip0 in
     IsLoopback ip \<or> IsPrivate ip \<or> IsLinkLocalUnicast ip \<or> IsLinkLocalMulticast ip \<or> IsMulticast ip \<or> IsUnspecified ip \<or>
     (\<exists>p \<in> set reserved_blocks. prefix_contains p ip))"

definition ValidateHost :: "Guard \<Rightarrow> string \<Rightarrow> (string, unit) result" where
  "ValidateHost g host =
     (if host = '''' then Inl ''target has no hostname''
      else case Resolver g host of
        Inl e \<Rightarrow> Inl (''resolve target: '' @ e)
      | Inr ips \<Rightarrow>
          if ips = [] then Inl ''target resolved to no addresses''
          else (case List.find (\<lambda>ip. \<not> AllowPrivate g \<and> Blocked ip) ips of
                  Some ip \<Rightarrow> Inl (''target resolved to blocked address '' @ addr_string ip)
                | None \<Rightarrow> Inr ()))"

definition ValidateURL :: "Guard \<Rightarrow> parsed_url \<Rightarrow> (string, unit) result" where
  "ValidateURL g u =
     (if u_scheme u \<noteq> ''http'' \<and> u_scheme u \<noteq> ''https'' then Inl ''only http/https targets are allowed''
      else ValidateHost g (u_hostname u))"

subsection \<open>Dialling\<close>

datatype dial_error = AddressError | DNSError string string | DialError string

text \<open>The texts of the errors, as \<^verbatim>\<open>Error()\<close> prints them.\<close>

fun dial_error_text :: "dial_error \<Rightarrow> string" where
  "dial_error_text AddressError = ''missing port in address''"
| "dial_error_text (DNSError err name) = ''lookup '' @ name @ '': '' @ err"
| "dial_error_text (DialError e) = e"

text \<open>The loop over the allowed addresses, with the addresses a connection was attempted to.\<close>

fun dial_first :: "(addr \<Rightarrow> (string, 'c) result) \<Rightarrow> addr list \<Rightarrow> string option \<Rightarrow> (dial_error, 'c) result \<times> addr list" where
  "dial_first dial [] prev = (Inl (DialError (case prev of None \<Rightarrow> ''no usable target addresses'' | Some e \<Rightarrow> e)), [])"
| "dial_first dial (ip # ips) prev =
     (case dial ip of
        Inr c \<Rightarrow> (Inr c, [ip])
      | Inl e \<Rightarrow> (let (r, tr) = dial_first dial ips (Some e) in (r, ip # tr)))"

definition DialContext :: "Guard \<Rightarrow> (addr \<Rightarrow> (string, 'c) result) \<Rightarrow> string \<Rightarrow> (dial_error, 'c) result \<times> addr list" where
  "DialContext g dial address =
     (case SplitHostPort address of
        None \<Rightarrow> (Inl AddressError, [])
      | Some (host, port) \<Rightarrow>
          (case Resolver g host of
             Inl e \<Rightarrow> (Inl (DNSError e host), [])
           | Inr ips \<Rightarrow>
               if ips = [] then (Inl (DNSError (''no addresses returned for '' @ host) host), [])
               else
                 let bad = \<lambda>ip. \<not> AllowPrivate g \<and> Blocked ip;
                     ips' = map addr_unmap ips;
                     blocked = (case List.find bad ips' of None \<Rightarrow> '''' | Some ip \<Rightarrow> addr_string ip);
                     allowed = filter (\<lambda>ip. \<not> bad ip) ips'
                 in if blocked \<noteq> '''' then (Inl (DialError (''target resolution contains blocked address '' @ blocked)), [])
                    else if allowed = [] then (Inl (DNSError (''no usable target addresses for '' @ host) host), [])
                    else dial_first dial allowed None))"

subsection \<open>The blocked set\<close>

text \<open>The reference definition: closed intervals of addresses read as numbers.\<close>

definition quad :: "nat \<Rightarrow> nat \<Rightarrow> nat \<Rightarrow> nat \<Rightarrow> nat" where
  "quad a b c d = ((a * 256 + b) * 256 + c) * 256 + d"

definition blocked_v4 :: "nat \<Rightarrow> bool" where
  "blocked_v4 n \<longleftrightarrow> (\<exists>(lo, hi) \<in> set [
     (quad 0 0 0 0, quad 0 255 255 255), (quad 10 0 0 0, quad 10 255 255 255), (quad 100 64 0 0, quad 100 127 255 255),
     (quad 127 0 0 0, quad 127 255 255 255), (quad 169 254 0 0, quad 169 254 255 255), (quad 172 16 0 0, quad 172 31 255 255),
     (quad 192 0 0 0, quad 192 0 0 255), (quad 192 0 2 0, quad 192 0 2 255), (quad 192 168 0 0, quad 192 168 255 255),
     (quad 198 18 0 0, quad 198 19 255 255), (quad 198 51 100 0, quad 198 51 100 255), (quad 203 0 113 0, quad 203 0 113 255),
     (quad 224 0 0 0, quad 255 255 255 255)]. lo \<le> n \<and> n \<le> hi)"

definition blocked_v6 :: "nat \<Rightarrow> string \<Rightarrow> bool" where
  "blocked_v6 n zone \<longleftrightarrow>
     n = 1 \<or> (n = 0 \<and> zone = '''') \<or>
     (0xFC00 * 2 ^ 112 \<le> n \<and> n < 0xFE00 * 2 ^ 112) \<or>
     (0xFE80 * 2 ^ 112 \<le> n \<and> n < 0xFEC0 * 2 ^ 112) \<or>
     0xFF00 * 2 ^ 112 \<le> n \<or>
     (zone = '''' \<and> 0x20010DB8 * 2 ^ 96 \<le> n \<and> n < 0x20010DB9 * 2 ^ 96)"

fun blocked_ref :: "addr \<Rightarrow> bool" where
  "blocked_ref (V4 w) = blocked_v4 (unat w)"
| "blocked_ref (V6 w zone) = (if 0xFFFF * 2 ^ 32 \<le> unat w \<and> unat w < 0x10000 * 2 ^ 32
     then blocked_v4 (unat w - 0xFFFF * 2 ^ 32) else blocked_v6 (unat w) zone)"

lemma contains_v4_range:
  assumes "quad a b c d < 2 ^ 32" "quad a b c d mod 2 ^ (32 - n) = 0"
  shows "prefix_contains (v4 a b c d, n) (V4 w) \<longleftrightarrow> quad a b c d \<le> unat w \<and> unat w < quad a b c d + 2 ^ (32 - n)"
proof -
  have "unat (word_of_nat (quad a b c d) :: 32 word) = quad a b c d"
    using assms(1) by (simp add: unat_of_nat)
  with assms(2) drop_bit_eq_range [of "word_of_nat (quad a b c d) :: 32 word" "32 - n" w] show ?thesis
    by (simp add: v4_def quad_def)
qed

lemma contains_v4_other: "\<not> prefix_contains (v4 a b c d, n) (V6 w z)"
  by (simp add: v4_def)

lemma contains_v6_range:
  assumes "k < 2 ^ 128" "k mod 2 ^ (128 - n) = 0"
  shows "prefix_contains (V6 (word_of_nat k) z', n) (V6 w z) \<longleftrightarrow> z = '''' \<and> k \<le> unat w \<and> unat w < k + 2 ^ (128 - n)"
proof -
  have "unat (word_of_nat k :: 128 word) = k" using assms(1) by (simp add: unat_of_nat)
  with assms(2) drop_bit_eq_range [of "word_of_nat k :: 128 word" "128 - n" w] show ?thesis by simp
qed

lemma v6_word: "v6 [a, b, 0, 0, 0, 0, 0, 0] = V6 (word_of_nat ((a * 2 ^ 16 + b) * 2 ^ 96)) ''''"
  by (simp add: v6_def)

lemma contains_v6_interval:
  assumes "(a * 2 ^ 16 + b) * 2 ^ 96 < (2 :: nat) ^ 128" "(a * 2 ^ 16 + b) * 2 ^ 96 mod (2 :: nat) ^ (128 - n) = 0"
    and "hi = (a * 2 ^ 16 + b) * 2 ^ 96 + 2 ^ (128 - n)"
  shows "prefix_contains (v6 [a, b, 0, 0, 0, 0, 0, 0], n) (V6 w z) \<longleftrightarrow>
    z = '''' \<and> (a * 2 ^ 16 + b) * 2 ^ 96 \<le> unat w \<and> unat w < hi"
  unfolding v6_word contains_v6_range [OF assms(1,2)] assms(3) by (rule refl)

lemma contains_v6_other: "\<not> prefix_contains (v6 gs, n) (V4 w)"
  by (simp add: v6_def)

lemma contains_v4_interval:
  assumes "quad a b c d mod 2 ^ (32 - n) = 0" "quad a b c d < 2 ^ 32" "hi = quad a b c d + 2 ^ (32 - n) - 1"
  shows "prefix_contains (v4 a b c d, n) (V4 w) \<longleftrightarrow> quad a b c d \<le> unat w \<and> unat w \<le> hi"
proof -
  have "Suc hi = quad a b c d + 2 ^ (32 - n)" using assms(3) by simp
  then show ?thesis using contains_v4_range [OF assms(2,1), of w] by auto
qed

lemma Blocked_V4: "Blocked (V4 w) = blocked_v4 (unat w)"
proof -
  have max: "unat w \<le> quad 255 255 255 255" using unsigned_less [of w, where 'a = nat] by (simp add: quad_def)
  note ival = contains_v4_interval [of _ _ _ _ _ _ w]
  have unspec: "IsUnspecified (V4 w) \<Longrightarrow> prefix_contains (v4 0 0 0 0, 8) (V4 w)" by (simp add: IsUnspecified_def v4_def)
  have top: "IsLinkLocalMulticast (V4 w) \<or> IsMulticast (V4 w) \<or> prefix_contains (v4 240 0 0 0, 4) (V4 w) \<longleftrightarrow>
      quad 224 0 0 0 \<le> unat w"
  proof -
    have "IsLinkLocalMulticast (V4 w) \<longleftrightarrow> quad 224 0 0 0 \<le> unat w \<and> unat w \<le> quad 224 0 0 255"
      "IsMulticast (V4 w) \<longleftrightarrow> quad 224 0 0 0 \<le> unat w \<and> unat w \<le> quad 239 255 255 255"
      "prefix_contains (v4 240 0 0 0, 4) (V4 w) \<longleftrightarrow> quad 240 0 0 0 \<le> unat w \<and> unat w \<le> quad 255 255 255 255"
      by (simp_all add: IsMulticast_def no_zone_def contains_v6_other) (subst ival; simp add: quad_def)+
    then show ?thesis using max by (auto simp: quad_def)
  qed
  have parts:
    "IsLoopback (V4 w) \<longleftrightarrow> quad 127 0 0 0 \<le> unat w \<and> unat w \<le> quad 127 255 255 255"
    "prefix_contains (v4 10 0 0 0, 8) (V4 w) \<longleftrightarrow> quad 10 0 0 0 \<le> unat w \<and> unat w \<le> quad 10 255 255 255"
    "prefix_contains (v4 172 16 0 0, 12) (V4 w) \<longleftrightarrow> quad 172 16 0 0 \<le> unat w \<and> unat w \<le> quad 172 31 255 255"
    "prefix_contains (v4 192 168 0 0, 16) (V4 w) \<longleftrightarrow> quad 192 168 0 0 \<le> unat w \<and> unat w \<le> quad 192 168 255 255"
    "IsLinkLocalUnicast (V4 w) \<longleftrightarrow> quad 169 254 0 0 \<le> unat w \<and> unat w \<le> quad 169 254 255 255"
    "prefix_contains (v4 0 0 0 0, 8) (V4 w) \<longleftrightarrow> quad 0 0 0 0 \<le> unat w \<and> unat w \<le> quad 0 255 255 255"
    "prefix_contains (v4 100 64 0 0, 10) (V4 w) \<longleftrightarrow> quad 100 64 0 0 \<le> unat w \<and> unat w \<le> quad 100 127 255 255"
    "prefix_contains (v4 192 0 0 0, 24) (V4 w) \<longleftrightarrow> quad 192 0 0 0 \<le> unat w \<and> unat w \<le> quad 192 0 0 255"
    "prefix_contains (v4 192 0 2 0, 24) (V4 w) \<longleftrightarrow> quad 192 0 2 0 \<le> unat w \<and> unat w \<le> quad 192 0 2 255"
    "prefix_contains (v4 198 18 0 0, 15) (V4 w) \<longleftrightarrow> quad 198 18 0 0 \<le> unat w \<and> unat w \<le> quad 198 19 255 255"
    "prefix_contains (v4 198 51 100 0, 24) (V4 w) \<longleftrightarrow> quad 198 51 100 0 \<le> unat w \<and> unat w \<le> quad 198 51 100 255"
    "prefix_contains (v4 203 0 113 0, 24) (V4 w) \<longleftrightarrow> quad 203 0 113 0 \<le> unat w \<and> unat w \<le> quad 203 0 113 255"
    by (simp_all add: IsLoopback_def IsLinkLocalUnicast_def no_zone_def contains_v6_other) (subst ival; simp add: quad_def)+
  have "IsPrivate (V4 w) \<longleftrightarrow> prefix_contains (v4 10 0 0 0, 8) (V4 w) \<or> prefix_contains (v4 172 16 0 0, 12) (V4 w) \<or>
      prefix_contains (v4 192 168 0 0, 16) (V4 w)"
    by (auto simp: IsPrivate_def no_zone_def contains_v6_other)
  moreover have "(\<exists>p \<in> set reserved_blocks. prefix_contains p (V4 w)) \<longleftrightarrow>
      prefix_contains (v4 0 0 0 0, 8) (V4 w) \<or> prefix_contains (v4 100 64 0 0, 10) (V4 w) \<or> prefix_contains (v4 192 0 0 0, 24) (V4 w) \<or>
      prefix_contains (v4 192 0 2 0, 24) (V4 w) \<or> prefix_contains (v4 198 18 0 0, 15) (V4 w) \<or>
      prefix_contains (v4 198 51 100 0, 24) (V4 w) \<or> prefix_contains (v4 203 0 113 0, 24) (V4 w) \<or> prefix_contains (v4 240 0 0 0, 4) (V4 w)"
    by (simp add: reserved_blocks_def contains_v6_other)
  moreover have "Blocked (V4 w) \<longleftrightarrow> IsLoopback (V4 w) \<or> IsPrivate (V4 w) \<or> IsLinkLocalUnicast (V4 w) \<or>
      (IsLinkLocalMulticast (V4 w) \<or> IsMulticast (V4 w) \<or> prefix_contains (v4 240 0 0 0, 4) (V4 w)) \<or>
      IsUnspecified (V4 w) \<or> (\<exists>p \<in> set reserved_blocks. prefix_contains p (V4 w))"
    unfolding Blocked_def Let_def addr_unmap.simps using calculation(2) by blast
  ultimately have "Blocked (V4 w) \<longleftrightarrow> IsLoopback (V4 w) \<or> prefix_contains (v4 10 0 0 0, 8) (V4 w) \<or>
      prefix_contains (v4 172 16 0 0, 12) (V4 w) \<or> prefix_contains (v4 192 168 0 0, 16) (V4 w) \<or> IsLinkLocalUnicast (V4 w) \<or>
      prefix_contains (v4 0 0 0 0, 8) (V4 w) \<or> prefix_contains (v4 100 64 0 0, 10) (V4 w) \<or> prefix_contains (v4 192 0 0 0, 24) (V4 w) \<or>
      prefix_contains (v4 192 0 2 0, 24) (V4 w) \<or> prefix_contains (v4 198 18 0 0, 15) (V4 w) \<or>
      prefix_contains (v4 198 51 100 0, 24) (V4 w) \<or> prefix_contains (v4 203 0 113 0, 24) (V4 w) \<or> quad 224 0 0 0 \<le> unat w"
    using unspec top by blast
  moreover have "blocked_v4 (unat w) \<longleftrightarrow> (\<exists>r \<in> set [(quad 0 0 0 0, quad 0 255 255 255), (quad 10 0 0 0, quad 10 255 255 255),
      (quad 100 64 0 0, quad 100 127 255 255), (quad 127 0 0 0, quad 127 255 255 255), (quad 169 254 0 0, quad 169 254 255 255),
      (quad 172 16 0 0, quad 172 31 255 255), (quad 192 0 0 0, quad 192 0 0 255), (quad 192 0 2 0, quad 192 0 2 255),
      (quad 192 168 0 0, quad 192 168 255 255), (quad 198 18 0 0, quad 198 19 255 255), (quad 198 51 100 0, quad 198 51 100 255),
      (quad 203 0 113 0, quad 203 0 113 255)]. fst r \<le> unat w \<and> unat w \<le> snd r) \<or> quad 224 0 0 0 \<le> unat w"
    unfolding blocked_v4_def using max by simp
  ultimately show ?thesis unfolding parts by (simp only: list.set bex_simps fst_conv snd_conv simp_thms disj_ac)
qed

lemma Blocked_V6:
  assumes "unat w div 2 ^ 32 \<noteq> 0xFFFF"
  shows "Blocked (V6 w z) = blocked_v6 (unat w) z"
proof -
  have max: "unat w < 2 ^ 128" using unsigned_less [of w, where 'a = nat] by simp
  have ends: "w = 0 \<longleftrightarrow> unat w = 0" "w = 1 \<longleftrightarrow> unat w = 1"
    by (simp_all add: word_unat_eq_iff)
  have multi: "0xFF00 * 2 ^ 112 \<le> unat w" if "unat w div 2 ^ 120 = 0xFF"
  proof -
    have "0xFF * 2 ^ 120 \<le> unat w" using that div_times_less_eq_dividend [of "unat w" "2 ^ 120"] by simp
    then show ?thesis by simp
  qed
  have parts: "IsLoopback (V6 w z) \<longleftrightarrow> unat w = 1"
    "IsPrivate (V6 w z) \<longleftrightarrow> 0xFC00 * 2 ^ 112 \<le> unat w \<and> unat w < 0xFE00 * 2 ^ 112"
    "IsLinkLocalUnicast (V6 w z) \<longleftrightarrow> 0xFE80 * 2 ^ 112 \<le> unat w \<and> unat w < 0xFEC0 * 2 ^ 112"
    "IsMulticast (V6 w z) \<longleftrightarrow> 0xFF00 * 2 ^ 112 \<le> unat w"
    "IsUnspecified (V6 w z) \<longleftrightarrow> unat w = 0 \<and> z = ''''"
    "(\<exists>p \<in> set reserved_blocks. prefix_contains p (V6 w z)) \<longleftrightarrow>
       z = '''' \<and> 0x20010DB8 * 2 ^ 96 \<le> unat w \<and> unat w < 0x20010DB9 * 2 ^ 96"
    using max by (simp_all add: IsLoopback_def IsPrivate_def IsLinkLocalUnicast_def IsMulticast_def IsUnspecified_def
      reserved_blocks_def contains_v4_other contains_v6_interval [OF _ _ refl] no_zone_def ends)
  from assms have "addr_unmap (V6 w z) = V6 w z" by simp
  then show ?thesis unfolding Blocked_def Let_def blocked_v6_def by (simp only: parts IsLinkLocalMulticast.simps) (use multi in blast)
qed

subsection \<open>Properties\<close>

text \<open>C14. The guard's test for a blocked address, written over masks and special ranges of two address
  families, is the membership in a fixed list of address intervals, for every IPv4 and IPv6 address;
  an IPv4 address mapped into IPv6 is judged as the IPv4 address.\<close>

theorem Blocked_intervals: "Blocked ip = blocked_ref ip"
proof (cases ip)
  case (V4 w)
  then show ?thesis by (simp add: Blocked_V4)
next
  case (V6 w z)
  have mapped: "unat w div 2 ^ 32 = 0xFFFF \<longleftrightarrow> 0xFFFF * 2 ^ 32 \<le> unat w \<and> unat w < 0x10000 * 2 ^ 32"
    using div_nat_eqI [of "2 ^ 32" "0xFFFF" "unat w"] div_times_less_eq_dividend [of "unat w" "2 ^ 32"]
      dividend_less_times_div [of "2 ^ 32" "unat w"] by auto
  show ?thesis
  proof (cases "unat w div 2 ^ 32 = 0xFFFF")
    case True
    have "unat (ucast w :: 32 word) = unat w mod 2 ^ 32" by (simp add: unsigned_ucast_eq take_bit_eq_mod)
    also have "\<dots> = unat w - 0xFFFF * 2 ^ 32" using True div_mult_mod_eq [of "unat w" "2 ^ 32"] by simp
    finally have "blocked_ref ip = blocked_v4 (unat (ucast w :: 32 word))"
      using True mapped unfolding V6 blocked_ref.simps by simp
    moreover have "Blocked ip = Blocked (V4 (ucast w))"
      unfolding V6 Blocked_def Let_def using True by simp
    ultimately show ?thesis by (simp add: Blocked_V4)
  next
    case False
    with mapped Blocked_V6 [OF False, of z] show ?thesis unfolding V6 blocked_ref.simps by (metis (no_types))
  qed
qed


lemma addr_unmap_idem [simp]: "addr_unmap (addr_unmap ip) = addr_unmap ip"
  by (cases ip) simp_all

lemma Blocked_unmap [simp]: "Blocked (addr_unmap ip) = Blocked ip"
  by (simp add: Blocked_def)

lemma join_str_neq_Nil: "x \<noteq> [] \<Longrightarrow> join_str sep (x # xs) \<noteq> []"
  by (cases xs) simp_all

lemma string_of_hex_neq_Nil [simp]: "string_of_hex n \<noteq> []"
  by (subst string_of_hex.simps) simp

lemma addr_string_neq_Nil [simp]: "addr_string ip \<noteq> []"
  by (cases ip) (simp_all add: v4_text_def v6_text_def v4_bytes_def v6_groups_def Let_def case_prod_beta)

lemma dial_first_tried: "dial_first dial ips p = (r, tried) \<Longrightarrow>
    set tried \<subseteq> set ips \<and> (ips \<noteq> [] \<longrightarrow> tried \<noteq> [] \<and> (\<forall>c. r = Inr c \<longrightarrow> dial (last tried) = Inr c))"
proof (induction ips arbitrary: p r tried)
  case (Cons ip ips)
  show ?case
  proof (cases "dial ip")
    case (Inl e)
    obtain r' t' where rec: "dial_first dial ips (Some e) = (r', t')" by fastforce
    with Cons.prems Inl have "r = r'" "tried = ip # t'" by simp_all
    with Cons.IH [OF rec] rec show ?thesis by (cases ips) auto
  qed (use Cons.prems in auto)
qed simp

lemma DialContext_cases:
  assumes "DialContext g dial address = (r, tried)" "tried \<noteq> []"
  obtains host port ips where "SplitHostPort address = Some (host, port)" "Resolver g host = Inr ips" "ips \<noteq> []"
    "\<forall>ip \<in> set ips. AllowPrivate g \<or> \<not> Blocked ip" "dial_first dial (map addr_unmap ips) None = (r, tried)"
proof -
  obtain host port where hp: "SplitHostPort address = Some (host, port)"
    using assms by (auto simp: DialContext_def split: option.splits)
  obtain ips where ips: "Resolver g host = Inr ips" "ips \<noteq> []"
    using assms hp by (auto simp: DialContext_def split: sum.splits if_splits)
  let ?bad = "\<lambda>ip. \<not> AllowPrivate g \<and> Blocked ip"
  have clean: "\<forall>ip \<in> set (map addr_unmap ips). \<not> ?bad ip"
  proof (rule ccontr)
    assume "\<not> (\<forall>ip \<in> set (map addr_unmap ips). \<not> ?bad ip)"
    then obtain b where "List.find ?bad (map addr_unmap ips) = Some b"
      by (metis (mono_tags, lifting) find_None_iff not_None_eq)
    with assms hp ips show False by (simp add: DialContext_def Let_def)
  qed
  then have "List.find ?bad (map addr_unmap ips) = None" "filter (\<lambda>ip. \<not> ?bad ip) (map addr_unmap ips) = map addr_unmap ips"
    by (simp add: find_None_iff, simp add: filter_id_conv)
  with assms(1) hp ips have "dial_first dial (map addr_unmap ips) None = (r, tried)"
    unfolding DialContext_def Let_def by simp
  with hp ips clean show ?thesis by (intro that) auto
qed

lemma tried_not_blocked:
  assumes "\<not> AllowPrivate g" "DialContext g dial address = (r, tried)"
  shows "\<forall>ip \<in> set tried. \<not> Blocked ip"
proof (cases "tried = []")
  case False
  obtain host port ips where *: "SplitHostPort address = Some (host, port)" "Resolver g host = Inr ips" "ips \<noteq> []"
    "\<forall>ip \<in> set ips. AllowPrivate g \<or> \<not> Blocked ip" "dial_first dial (map addr_unmap ips) None = (r, tried)"
    by (rule DialContext_cases [OF assms(2) False])
  from dial_first_tried [OF *(5)] *(4) assms(1) show ?thesis by force
qed simp

text \<open>C13. No rebinding. When private destinations are not allowed, the guard attempts a connection only
  after the whole answer of the resolver has been found free of blocked addresses, only to addresses of
  that answer, and a connection it returns is the one to the last address it tried. So no ordering of a
  mixed answer, and no change of the answer after an earlier validation, reaches a blocked address.\<close>

theorem dial_only_allowed:
  assumes "\<not> AllowPrivate g" "DialContext g dial address = (r, tried)" "tried \<noteq> []"
  shows "\<exists>host port ips. SplitHostPort address = Some (host, port) \<and> Resolver g host = Inr ips \<and>
    (\<forall>ip \<in> set ips. \<not> Blocked ip) \<and> set tried \<subseteq> addr_unmap ` set ips \<and> (\<forall>ip \<in> set tried. \<not> Blocked ip) \<and>
    (\<forall>c. r = Inr c \<longrightarrow> dial (last tried) = Inr c)"
proof -
  obtain host port ips where *: "SplitHostPort address = Some (host, port)" "Resolver g host = Inr ips" "ips \<noteq> []"
    "\<forall>ip \<in> set ips. AllowPrivate g \<or> \<not> Blocked ip" "dial_first dial (map addr_unmap ips) None = (r, tried)"
    by (rule DialContext_cases [OF assms(2,3)])
  from *(4) assms(1) have clean: "\<forall>ip \<in> set ips. \<not> Blocked ip" by blast
  from dial_first_tried [OF *(5)] *(3)
  have "set tried \<subseteq> addr_unmap ` set ips" "\<forall>c. r = Inr c \<longrightarrow> dial (last tried) = Inr c" by auto
  moreover have "\<forall>ip \<in> set tried. \<not> Blocked ip" by (rule tried_not_blocked [OF assms(1,2)])
  ultimately show ?thesis using * clean by blast
qed

theorem dial_only_allowed_witness:
  "let g = \<lparr>Resolver = \<lambda>h. Inr [v4 93 184 216 34], AllowPrivate = False\<rparr>; dial = \<lambda>ip. Inr ip
   in \<forall>ip \<in> set (snd (DialContext g dial ''example.com:443'')). \<not> Blocked ip"
proof -
  let ?g = "\<lparr>Resolver = \<lambda>h. Inr [v4 93 184 216 34], AllowPrivate = False\<rparr> :: Guard"
  have free: "\<not> Blocked (V4 1572395042)"
    unfolding Blocked_V4 by (simp add: blocked_v4_def quad_def)
  have "DialContext ?g (\<lambda>ip. Inr ip) ''example.com:443'' = (Inr (v4 93 184 216 34), [v4 93 184 216 34])"
    using free by (simp add: DialContext_def SplitHostPort_def Let_def v4_def)
  from dial_only_allowed [OF _ this] have "\<forall>ip \<in> set [v4 93 184 216 34]. \<not> Blocked ip" by auto
  with \<open>DialContext ?g _ _ = _\<close> show ?thesis by (simp add: Let_def)
qed

text \<open>A target that validation accepts: an http(s) URL whose host resolves to allowed addresses only.\<close>

lemma ValidateURL_ok:
  "ValidateURL g u = Inr () \<longleftrightarrow> u_scheme u \<in> {''http'', ''https''} \<and> u_hostname u \<noteq> '''' \<and>
     (\<exists>ips. Resolver g (u_hostname u) = Inr ips \<and> ips \<noteq> [] \<and> (\<forall>ip \<in> set ips. AllowPrivate g \<or> \<not> Blocked ip))"
  by (auto simp: ValidateURL_def ValidateHost_def find_None_iff split: sum.splits option.splits dest: find_Some_iff [THEN iffD1])
    (metis (mono_tags, lifting) find_None_iff not_None_eq)+

end
