(* ===== verification/Requestmeta.thy ===== *)
theory Requestmeta
  imports Netip
begin

text \<open>
  Request identity, \<^verbatim>\<open>internal/requestmeta/requestmeta.go\<close>: the effective scheme and the client address
  of a request, with forwarded headers honoured only from trusted proxies. A request carries its header
  lines in the order they arrived; \<open>header_get\<close> is \<^verbatim>\<open>http.Header.Get\<close>, which reads the first line of a
  name. \<open>CanonicalHeaderKey\<close> is that of \<^verbatim>\<open>net/http\<close>.
\<close>

subsection \<open>Headers\<close>

definition is_token_char :: "char \<Rightarrow> bool" where
  "is_token_char c \<longleftrightarrow> (let n = (of_char c :: nat) in (48 \<le> n \<and> n \<le> 57) \<or> (65 \<le> n \<and> n \<le> 90) \<or> (97 \<le> n \<and> n \<le> 122)) \<or>
     c \<in> set ''!#$%&*+-.^_|~'' \<or> c = CHR 0x27 \<or> c = CHR 0x60"

definition upper_char :: "char \<Rightarrow> char" where
  "upper_char c = (let n = (of_char c :: nat) in if 97 \<le> n \<and> n \<le> 122 then char_of (n - 32) else c)"

fun canonical_case :: "bool \<Rightarrow> string \<Rightarrow> string" where
  "canonical_case up [] = []"
| "canonical_case up (c # cs) = (if up then upper_char c else lower_char c) # canonical_case (c = CHR ''-'') cs"

definition CanonicalHeaderKey :: "string \<Rightarrow> string" where
  "CanonicalHeaderKey s = (if list_all is_token_char s then canonical_case True s else s)"

text \<open>Header lines are stored under their canonical names.\<close>

type_synonym headers = "(string \<times> string) list"

definition header_get :: "headers \<Rightarrow> string \<Rightarrow> string" where
  "header_get h name = (case map_of h (CanonicalHeaderKey name) of None \<Rightarrow> '''' | Some v \<Rightarrow> v)"

lemmas header_eval = CanonicalHeaderKey_def is_token_char_def upper_char_def lower_char_def Let_def

lemma canonical_forwarded:
  "CanonicalHeaderKey ''X-Forwarded-For'' = ''X-Forwarded-For''"
  "CanonicalHeaderKey ''X-Forwarded-Proto'' = ''X-Forwarded-Proto''"
  by (simp_all add: header_eval)

subsection \<open>Requests\<close>

record request =
  rq_remote :: string
  rq_tls :: bool
  rq_headers :: headers

record proxy_config =
  Trusted :: "(addr \<times> nat) list"

definition trusted :: "proxy_config \<Rightarrow> addr \<Rightarrow> bool" where
  "trusted c ip \<longleftrightarrow> (\<exists>p \<in> set (Trusted c). prefix_contains p ip)"

text \<open>The request may be nil.\<close>

fun peerIP :: "request option \<Rightarrow> addr option" where
  "peerIP None = None"
| "peerIP (Some r) = (case SplitHostPort (rq_remote r) of
     Some (host, _) \<Rightarrow> ParseAddr host
   | None \<Rightarrow> ParseAddr (rq_remote r))"

definition req_header :: "request option \<Rightarrow> string \<Rightarrow> string" where
  "req_header r name = (case r of None \<Rightarrow> '''' | Some r \<Rightarrow> header_get (rq_headers r) name)"

definition Scheme :: "proxy_config \<Rightarrow> request option \<Rightarrow> string" where
  "Scheme c r =
     (if (case r of None \<Rightarrow> False | Some r \<Rightarrow> rq_tls r) then ''https''
      else if (case peerIP r of None \<Rightarrow> False | Some ip \<Rightarrow> trusted c ip) \<and>
              req_header r ''X-Forwarded-Proto'' \<in> {''https'', ''http''}
      then req_header r ''X-Forwarded-Proto''
      else ''http'')"

definition Secure :: "proxy_config \<Rightarrow> request option \<Rightarrow> bool" where
  "Secure c r \<longleftrightarrow> Scheme c r = ''https''"

text \<open>The loop from the last entry of the list to the first.\<close>

fun rightmost_untrusted :: "proxy_config \<Rightarrow> string list \<Rightarrow> addr option" where
  "rightmost_untrusted c [] = None"
| "rightmost_untrusted c (p # ps) = (case ParseAddr (trim_space p) of
     Some ip \<Rightarrow> if trusted c ip then rightmost_untrusted c ps else Some ip
   | None \<Rightarrow> rightmost_untrusted c ps)"

definition ClientIP :: "proxy_config \<Rightarrow> request option \<Rightarrow> string" where
  "ClientIP c r =
     (case peerIP r of
        None \<Rightarrow> ''''
      | Some peer \<Rightarrow>
          if \<not> trusted c peer then addr_string peer
          else let xf = req_header r ''X-Forwarded-For''
               in if xf = '''' then addr_string peer
                  else (case rightmost_untrusted c (rev (split_char (CHR '','') xf)) of
                          Some ip \<Rightarrow> addr_string ip
                        | None \<Rightarrow> addr_string peer))"

subsection \<open>Properties\<close>

lemma peerIP_headers [simp]: "peerIP (Some (r\<lparr>rq_headers := h\<rparr>)) = peerIP (Some r)"
  by (simp split: option.split)

lemma req_header_forwarded:
  "req_header (Some (r\<lparr>rq_headers := (''X-Forwarded-For'', v) # hs\<rparr>)) ''X-Forwarded-For'' = v"
  by (simp add: req_header_def header_get_def canonical_forwarded)

text \<open>C15. A peer that is not a trusted proxy, or whose address cannot be read, cannot influence the
  scheme or the client address: no headers it sends change either.\<close>

theorem untrusted_headers_ignored:
  assumes "\<And>ip. peerIP (Some r) = Some ip \<Longrightarrow> \<not> trusted c ip"
  shows "Scheme c (Some (r\<lparr>rq_headers := h\<rparr>)) = Scheme c (Some r) \<and>
         ClientIP c (Some (r\<lparr>rq_headers := h\<rparr>)) = ClientIP c (Some r) \<and>
         (rq_tls r \<or> Scheme c (Some (r\<lparr>rq_headers := h\<rparr>)) = ''http'')"
  using assms by (auto simp: Scheme_def ClientIP_def simp del: peerIP.simps split: option.splits)

theorem untrusted_headers_ignored_witness:
  "let c = \<lparr>Trusted = [(v4 10 0 0 0, 8)]\<rparr>; r = \<lparr>rq_remote = ''203.0.113.9:5000'', rq_tls = False, rq_headers = []\<rparr>
   in Scheme c (Some (r\<lparr>rq_headers := [(''X-Forwarded-Proto'', ''https'')]\<rparr>)) = ''http''"
proof -
  have "peerIP (Some \<lparr>rq_remote = ''203.0.113.9:5000'', rq_tls = False, rq_headers = []\<rparr>) = Some (v4 203 0 113 9)"
    by (simp add: SplitHostPort_def ParseAddr_def parse_quad_def parse_octet_def is_digit_def dec_value_def digit_value_def Let_def)
  moreover have "\<not> trusted \<lparr>Trusted = [(v4 10 0 0 0, 8)]\<rparr> (v4 203 0 113 9)" by (simp add: trusted_def v4_def)
  ultimately show ?thesis
    unfolding Let_def
    using untrusted_headers_ignored [of "\<lparr>rq_remote = ''203.0.113.9:5000'', rq_tls = False, rq_headers = []\<rparr>"
        "\<lparr>Trusted = [(v4 10 0 0 0, 8)]\<rparr>" "[(''X-Forwarded-Proto'', ''https'')]"] by (auto simp del: peerIP.simps)
qed

lemma rightmost_untrusted_skip:
  assumes "\<And>q ip. q \<in> set qs \<Longrightarrow> ParseAddr (trim_space q) = Some ip \<Longrightarrow> trusted c ip"
  shows "rightmost_untrusted c (qs @ ps) = rightmost_untrusted c ps"
  using assms by (induction qs) (auto split: option.splits)

text \<open>Behind a trusted proxy the client is the rightmost entry of the forwarding list that is not a
  trusted proxy: whatever entries a client put in front of it, they are never taken.\<close>

theorem client_is_rightmost_untrusted:
  assumes "peerIP (Some r) = Some peer" "trusted c peer"
    and "req_header (Some r) ''X-Forwarded-For'' = join_str '','' (ps @ p # qs)"
    and "\<And>x. x \<in> set (ps @ p # qs) \<Longrightarrow> CHR '','' \<notin> set x"
    and "ParseAddr (trim_space p) = Some ip" "\<not> trusted c ip"
    and "\<And>q a. q \<in> set qs \<Longrightarrow> ParseAddr (trim_space q) = Some a \<Longrightarrow> trusted c a"
  shows "ClientIP c (Some r) = addr_string ip"
proof -
  have split: "split_char (CHR '','') (join_str '','' (ps @ p # qs)) = ps @ p # qs"
    using assms(4) by (intro split_join) auto
  have ne: "join_str '','' (ps @ p # qs) \<noteq> ''''"
  proof
    assume "join_str '','' (ps @ p # qs) = ''''"
    then have "ps @ p # qs = [[]]" by (simp add: join_str_eq_Nil)
    then have "p = []" by (cases ps) auto
    with assms(5) show False by (simp add: ParseAddr_def trim_space_def)
  qed
  have "rightmost_untrusted c (rev (ps @ p # qs)) = Some ip"
    using rightmost_untrusted_skip [of "rev qs" c "p # rev ps"] assms(5-7) by simp
  then show ?thesis using assms(1-3) ne split by (simp add: ClientIP_def Let_def del: peerIP.simps)
qed

theorem client_is_rightmost_untrusted_witness:
  "let c = \<lparr>Trusted = [(v4 10 0 0 0, 8)]\<rparr>;
       r = \<lparr>rq_remote = ''10.0.0.1:443'', rq_tls = False, rq_headers = [(''X-Forwarded-For'', ''1.2.3.4, 203.0.113.9, 10.0.0.7'')]\<rparr>
   in ClientIP c (Some r) = addr_string (v4 203 0 113 9)"
proof -
  note eval = SplitHostPort_def ParseAddr_def parse_quad_def parse_octet_def is_digit_def dec_value_def digit_value_def Let_def
    trim_space_def is_space_def
  let ?c = "\<lparr>Trusted = [(v4 10 0 0 0, 8)]\<rparr>"
  let ?r = "\<lparr>rq_remote = ''10.0.0.1:443'', rq_tls = False, rq_headers = [(''X-Forwarded-For'', ''1.2.3.4, 203.0.113.9, 10.0.0.7'')]\<rparr>"
  have "ClientIP ?c (Some ?r) = addr_string (v4 203 0 113 9)"
    by (rule client_is_rightmost_untrusted [of _ "v4 10 0 0 1" _ "[''1.2.3.4'']" "'' 203.0.113.9''" "['' 10.0.0.7'']"])
      (auto simp: eval req_header_def header_get_def canonical_forwarded trusted_def v4_def)
  then show ?thesis by (simp only: Let_def)
qed

text \<open>Only the first \<^verbatim>\<open>X-Forwarded-For\<close> line is read. When the trusted proxy adds its own line after
  one the client sent, instead of extending it, the address the client invented is taken.\<close>

theorem later_forwarded_lines_ignored:
  "ClientIP c (Some (r\<lparr>rq_headers := (''X-Forwarded-For'', forged) # others\<rparr>)) =
   ClientIP c (Some (r\<lparr>rq_headers := [(''X-Forwarded-For'', forged)]\<rparr>))"
  unfolding ClientIP_def req_header_forwarded peerIP_headers by (rule refl)

end
