(* ===== verification/Ratelimit.thy ===== *)
theory Ratelimit
  imports Go_Time
begin

text \<open>
  The fixed-window limiters. The interface \<open>window_limiter\<close> states what a limiter promises about the
  bucket of each key, and the bounds that follow from it for every sequence of calls; it is discharged
  for the limiter of \<^verbatim>\<open>internal/server/ratelimit.go\<close> here and for the one of the analytics ingress in the
  theory of that component.
\<close>

subsection \<open>The interface\<close>

text \<open>One call: the key and the time it is made at.\<close>

type_synonym call = "string \<times> instant"

locale window_limiter =
  fixes allow :: "string \<Rightarrow> instant \<Rightarrow> 's \<Rightarrow> bool \<times> 's"
    and bucket :: "'s \<Rightarrow> string \<Rightarrow> (int \<times> instant) option"
    and size_of :: "'s \<Rightarrow> int"
    and limit :: "'s \<Rightarrow> int" and window :: "'s \<Rightarrow> duration" and max_keys :: "'s \<Rightarrow> int"
    and invar :: "'s \<Rightarrow> bool"
  assumes settings: "limit (snd (allow k t s)) = limit s" "window (snd (allow k t s)) = window s"
      "max_keys (snd (allow k t s)) = max_keys s"
    and invar_allow: "invar s \<Longrightarrow> invar (snd (allow k t s))"
    and live: "invar s \<Longrightarrow> bucket s k = Some (n, reset) \<Longrightarrow> t \<le> reset \<Longrightarrow>
      fst (allow k t s) = (n < limit s) \<and>
      bucket (snd (allow k t s)) k = Some (if n < limit s then n + 1 else n, reset)"
    and started: "invar s \<Longrightarrow> (case bucket s k of None \<Rightarrow> True | Some (n, reset) \<Rightarrow> reset < t) \<Longrightarrow>
      (\<not> fst (allow k t s) \<and> bucket s k = None \<and> bucket (snd (allow k t s)) k = None) \<or>
      (fst (allow k t s) = (0 < limit s) \<and>
       bucket (snd (allow k t s)) k = Some (if 0 < limit s then 1 else 0, t + window s))"
    and others: "invar s \<Longrightarrow> k' \<noteq> k \<Longrightarrow> bucket (snd (allow k t s)) k' = bucket s k' \<or>
      (bucket (snd (allow k t s)) k' = None \<and> (\<exists>n reset. bucket s k' = Some (n, reset) \<and> reset < t))"
    and counts: "invar s \<Longrightarrow> bucket s k = Some (n, reset) \<Longrightarrow> 0 \<le> n \<and> n \<le> max 0 (limit s)"
    and bounded: "invar s \<Longrightarrow> size_of s \<le> max 0 (max_keys s)"
begin

fun run :: "call list \<Rightarrow> 's \<Rightarrow> bool list \<times> 's" where
  "run [] s = ([], s)"
| "run (c # cs) s = (let r = allow (fst c) (snd c) s; rest = run cs (snd r) in (fst r # fst rest, snd rest))"

definition granted :: "string \<Rightarrow> call list \<Rightarrow> bool list \<Rightarrow> int" where
  "granted k cs bs = int (length (filter (\<lambda>((k', t), b). k' = k \<and> b) (zip cs bs)))"

text \<open>What a key can still be granted up to the time \<open>end\<close>.\<close>

definition budget :: "string \<Rightarrow> instant \<Rightarrow> 's \<Rightarrow> int" where
  "budget k end s = (case bucket s k of None \<Rightarrow> max 0 (limit s)
     | Some (n, reset) \<Rightarrow> max 0 (limit s) - n + (if end \<le> reset then 0 else max 0 (limit s)))"

lemma budget_nonneg: "invar s \<Longrightarrow> 0 \<le> budget k e s"
  using counts by (fastforce simp: budget_def split: option.splits)

lemma budget_step:
  assumes "invar s" "t \<le> e" "e \<le> t + window s"
  shows "(if k' = k \<and> fst (allow k' t s) then 1 else 0) + budget k e (snd (allow k' t s)) \<le> budget k e s"
proof (cases "k' = k")
  case False
  from others [OF assms(1) False [symmetric], of t] show ?thesis
  proof
    assume "bucket (snd (allow k' t s)) k = bucket s k"
    with False settings(1) show ?thesis by (simp add: budget_def split: option.splits)
  next
    assume gone: "bucket (snd (allow k' t s)) k = None \<and> (\<exists>n reset. bucket s k = Some (n, reset) \<and> reset < t)"
    then obtain n reset where b: "bucket s k = Some (n, reset)" "reset < t" by blast
    from counts [OF assms(1) b(1)] gone b assms(2) False settings(1) show ?thesis by (auto simp: budget_def)
  qed
next
  case True
  show ?thesis
  proof (cases "\<exists>n reset. bucket s k = Some (n, reset) \<and> t \<le> reset")
    case live': True
    then obtain n reset where b: "bucket s k = Some (n, reset)" "t \<le> reset" by blast
    from live [OF assms(1) b] counts [OF assms(1) b(1)] b True settings(1) show ?thesis by (auto simp: budget_def)
  next
    case False
    then have "case bucket s k of None \<Rightarrow> True | Some (n, reset) \<Rightarrow> reset < t" by (auto split: option.splits)
    from started [OF assms(1) this] show ?thesis
    proof
      assume "\<not> fst (allow k t s) \<and> bucket s k = None \<and> bucket (snd (allow k t s)) k = None"
      with True settings(1) show ?thesis by (simp add: budget_def)
    next
      assume new: "fst (allow k t s) = (0 < limit s) \<and>
        bucket (snd (allow k t s)) k = Some (if 0 < limit s then 1 else 0, t + window s)"
      have "max 0 (limit s) \<le> budget k e s"
        using False assms(2) counts [OF assms(1), of k] by (fastforce simp: budget_def split: option.splits)
      with new True settings(1) assms(3) show ?thesis by (auto simp: budget_def)
    qed
  qed
qed

lemma run_invar: "invar s \<Longrightarrow> invar (snd (run cs s))"
  by (induction cs arbitrary: s) (auto simp: Let_def invar_allow)

lemma run_settings: "limit (snd (run cs s)) = limit s \<and> window (snd (run cs s)) = window s \<and> max_keys (snd (run cs s)) = max_keys s"
  by (induction cs arbitrary: s) (auto simp: Let_def settings)

lemma granted_budget:
  assumes "invar s" "\<And>k' t. (k', t) \<in> set cs \<Longrightarrow> t \<le> e \<and> e \<le> t + window s"
  shows "granted k cs (fst (run cs s)) + budget k e (snd (run cs s)) \<le> budget k e s"
  using assms
proof (induction cs arbitrary: s)
  case (Cons c cs)
  obtain k' t where c: "c = (k', t)" by fastforce
  obtain b s1 where a: "allow k' t s = (b, s1)" by fastforce
  have s1: "invar s1" "window s1 = window s" using invar_allow [OF Cons.prems(1), of k' t] settings(2) [of k' t s] a by simp_all
  have "granted k cs (fst (run cs s1)) + budget k e (snd (run cs s1)) \<le> budget k e s1"
    by (rule Cons.IH [OF s1(1)]) (use Cons.prems(2) s1(2) in auto)
  moreover have "(if k' = k \<and> b then 1 else 0) + budget k e s1 \<le> budget k e s"
    using budget_step [OF Cons.prems(1), of t e k' k] Cons.prems(2) [of k' t] a c by simp
  ultimately show ?case by (auto simp: c a granted_def Let_def case_prod_beta)
qed (simp add: granted_def)

text \<open>In any stretch of time no longer than the window a key is granted at most twice the limit, and a key
  without a bucket at most the limit.\<close>

theorem granted_in_window:
  assumes "invar s" "\<And>k' t. (k', t) \<in> set cs \<Longrightarrow> a \<le> t \<and> t \<le> a + window s"
  shows "granted k cs (fst (run cs s)) \<le> 2 * max 0 (limit s) \<and>
    (bucket s k = None \<longrightarrow> granted k cs (fst (run cs s)) \<le> max 0 (limit s))"
proof -
  have "granted k cs (fst (run cs s)) + budget k (a + window s) (snd (run cs s)) \<le> budget k (a + window s) s"
    by (rule granted_budget [OF assms(1)]) (use assms(2) in force)
  moreover have "0 \<le> budget k (a + window s) (snd (run cs s))"
    using budget_nonneg run_invar [OF assms(1)] by blast
  moreover have "budget k (a + window s) s \<le> 2 * max 0 (limit s)"
    using counts [OF assms(1), of k] by (fastforce simp: budget_def split: option.splits)
  moreover have "bucket s k = None \<Longrightarrow> budget k (a + window s) s = max 0 (limit s)" by (simp add: budget_def)
  ultimately show ?thesis by force
qed

theorem keys_bounded: "invar s \<Longrightarrow> size_of (snd (run cs s)) \<le> max 0 (max_keys s)"
  using bounded [OF run_invar] run_settings by metis

end

subsection \<open>The bucket table\<close>

text \<open>Both limiters of the program keep the same map from keys to buckets and have the same body.\<close>

record rateBucket =
  rb_count :: int
  rb_reset :: instant

type_synonym bucket_table = "(string \<times> rateBucket) list"

definition put_bucket :: "string \<Rightarrow> rateBucket \<Rightarrow> bucket_table \<Rightarrow> bucket_table" where
  "put_bucket k b bs = (k, b) # filter (\<lambda>(k', _). k' \<noteq> k) bs"

text \<open>The part of \<^verbatim>\<open>Allow\<close> after the bucket has been found or created.\<close>

definition use_bucket :: "duration \<Rightarrow> int \<Rightarrow> string \<Rightarrow> instant \<Rightarrow> rateBucket \<Rightarrow> bucket_table \<Rightarrow> bool \<times> bucket_table" where
  "use_bucket win lim key now b bs =
     (let b = (if rb_reset b < now then \<lparr>rb_count = 0, rb_reset = now + win\<rparr> else b)
      in if lim \<le> rb_count b then (False, put_bucket key b bs)
         else (True, put_bucket key (b\<lparr>rb_count := rb_count b + 1\<rparr>) bs))"

definition evict :: "instant \<Rightarrow> bucket_table \<Rightarrow> bucket_table" where
  "evict now bs = filter (\<lambda>(_, b). \<not> rb_reset b < now) bs"

definition allow_body :: "duration \<Rightarrow> int \<Rightarrow> int \<Rightarrow> string \<Rightarrow> instant \<Rightarrow> bucket_table \<Rightarrow> bool \<times> bucket_table" where
  "allow_body win lim maxk key now bs =
     (case map_of bs key of
        Some b \<Rightarrow> use_bucket win lim key now b bs
      | None \<Rightarrow>
          let bs = evict now bs
          in if maxk \<le> int (length bs) then (False, bs)
             else let b = \<lparr>rb_count = 0, rb_reset = now + win\<rparr> in use_bucket win lim key now b (put_bucket key b bs))"

definition table_bucket :: "bucket_table \<Rightarrow> string \<Rightarrow> (int \<times> instant) option" where
  "table_bucket bs k = map_option (\<lambda>b. (rb_count b, rb_reset b)) (map_of bs k)"

definition table_ok :: "int \<Rightarrow> int \<Rightarrow> bucket_table \<Rightarrow> bool" where
  "table_ok lim maxk bs \<longleftrightarrow> distinct (map fst bs) \<and> int (length bs) \<le> max 0 maxk \<and>
     (\<forall>(k, b) \<in> set bs. 0 \<le> rb_count b \<and> rb_count b \<le> max 0 lim)"

lemma map_of_put_bucket [simp]: "map_of (put_bucket k b bs) k' = (if k' = k then Some b else map_of bs k')"
proof -
  have "k' \<noteq> k \<Longrightarrow> map_of (filter (\<lambda>(x, _). x \<noteq> k) bs) k' = map_of bs k'" by (induction bs) auto
  then show ?thesis by (simp add: put_bucket_def)
qed

lemma put_bucket_ok:
  assumes "table_ok lim maxk bs" "0 \<le> rb_count b" "rb_count b \<le> max 0 lim" "map_of bs k \<noteq> None \<or> int (length bs) < maxk"
  shows "table_ok lim maxk (put_bucket k b bs)"
proof -
  have "int (length (put_bucket k b bs)) \<le> max 0 maxk"
  proof (cases "map_of bs k")
    case None
    have "int (length (filter (\<lambda>(k', _). k' \<noteq> k) bs)) \<le> int (length bs)" by simp
    moreover from None assms(4) have "int (length bs) < maxk" by simp
    ultimately have "1 + int (length (filter (\<lambda>(k', _). k' \<noteq> k) bs)) \<le> maxk" by linarith
    then show ?thesis by (simp add: put_bucket_def)
  next
    case (Some b')
    then have "length (filter (\<lambda>(k', _). k' \<noteq> k) bs) < length bs"
      by (intro length_filter_less [of "(k, b')"]) (auto dest: map_of_SomeD)
    with assms(1) show ?thesis by (simp add: put_bucket_def table_ok_def)
  qed
  with assms show ?thesis by (auto simp: table_ok_def put_bucket_def distinct_map_filter)
qed

lemma use_bucket_ok:
  assumes "table_ok lim maxk bs" "map_of bs k = Some b"
  shows "table_ok lim maxk (snd (use_bucket win lim k now b bs))"
proof -
  have "0 \<le> rb_count b \<and> rb_count b \<le> max 0 lim"
    using assms map_of_SomeD [OF assms(2)] by (auto simp: table_ok_def)
  then show ?thesis unfolding use_bucket_def Let_def using assms by (auto intro!: put_bucket_ok)
qed

lemma evict_ok:
  assumes "table_ok lim maxk bs"
  shows "table_ok lim maxk (evict now bs)"
proof -
  have "int (length (evict now bs)) \<le> int (length bs)" by (simp add: evict_def)
  with assms have "int (length (evict now bs)) \<le> max 0 maxk" unfolding table_ok_def by linarith
  with assms show ?thesis by (auto simp: table_ok_def evict_def distinct_map_filter)
qed

lemma map_of_evict:
  "distinct (map fst bs) \<Longrightarrow> map_of (evict now bs) k =
     (case map_of bs k of Some b \<Rightarrow> if rb_reset b < now then None else Some b | None \<Rightarrow> None)"
  by (induction bs) (auto simp: evict_def map_of_eq_None_iff split: option.splits)

lemma allow_body_ok:
  assumes "table_ok lim maxk bs"
  shows "table_ok lim maxk (snd (allow_body win lim maxk k now bs))"
proof (cases "map_of bs k")
  case None
  let ?b = "\<lparr>rb_count = 0, rb_reset = now + win\<rparr>"
  have "table_ok lim maxk (put_bucket k ?b (evict now bs))" if "int (length (evict now bs)) < maxk"
    using evict_ok [OF assms] that by (auto intro: put_bucket_ok)
  then show ?thesis using None evict_ok [OF assms] use_bucket_ok
    by (auto simp: allow_body_def Let_def not_le)
qed (use assms use_bucket_ok in \<open>auto simp: allow_body_def\<close>)

lemma allow_body_live:
  "table_bucket bs k = Some (n, reset) \<Longrightarrow> now \<le> reset \<Longrightarrow> fst (allow_body win lim maxk k now bs) = (n < lim) \<and>
     table_bucket (snd (allow_body win lim maxk k now bs)) k = Some (if n < lim then n + 1 else n, reset)"
  by (auto simp: allow_body_def use_bucket_def Let_def table_bucket_def)

lemma allow_body_started:
  assumes "table_ok lim maxk bs" "case table_bucket bs k of None \<Rightarrow> True | Some (n, reset) \<Rightarrow> reset < now"
  shows "(\<not> fst (allow_body win lim maxk k now bs) \<and> table_bucket bs k = None \<and>
      table_bucket (snd (allow_body win lim maxk k now bs)) k = None) \<or>
    (fst (allow_body win lim maxk k now bs) = (0 < lim) \<and>
     table_bucket (snd (allow_body win lim maxk k now bs)) k = Some (if 0 < lim then 1 else 0, now + win))"
proof (cases "map_of bs k")
  case None
  have "map_of (evict now bs) k = None" using assms(1) None by (simp add: map_of_evict table_ok_def)
  with None show ?thesis by (auto simp: allow_body_def use_bucket_def Let_def table_bucket_def)
next
  case (Some b)
  with assms(2) show ?thesis by (auto simp: allow_body_def use_bucket_def Let_def table_bucket_def)
qed

lemma allow_body_others:
  assumes "table_ok lim maxk bs" "k' \<noteq> k"
  shows "table_bucket (snd (allow_body win lim maxk k now bs)) k' = table_bucket bs k' \<or>
    (table_bucket (snd (allow_body win lim maxk k now bs)) k' = None \<and>
     (\<exists>n reset. table_bucket bs k' = Some (n, reset) \<and> reset < now))"
  using assms map_of_evict [of bs now k']
  by (auto simp: allow_body_def use_bucket_def Let_def table_ok_def table_bucket_def split: option.splits)

lemma table_ok_counts: "table_ok lim maxk bs \<Longrightarrow> table_bucket bs k = Some (n, reset) \<Longrightarrow> 0 \<le> n \<and> n \<le> max 0 lim"
  by (auto simp: table_ok_def table_bucket_def dest!: map_of_SomeD)

lemma table_ok_size: "table_ok lim maxk bs \<Longrightarrow> int (length bs) \<le> max 0 maxk"
  by (simp add: table_ok_def)

lemmas allow_body_laws = allow_body_ok allow_body_live allow_body_started allow_body_others table_ok_counts table_ok_size

subsection \<open>The limiter of the server\<close>

record rateLimiter =
  rl_window :: duration
  rl_limit :: int
  rl_maxKeys :: int
  rl_buckets :: bucket_table

definition newRateLimiter :: "duration \<Rightarrow> int \<Rightarrow> int \<Rightarrow> rateLimiter" where
  "newRateLimiter w l m = \<lparr>rl_window = w, rl_limit = l, rl_maxKeys = m, rl_buckets = []\<rparr>"

definition Allow :: "string \<Rightarrow> instant \<Rightarrow> rateLimiter \<Rightarrow> bool \<times> rateLimiter" where
  "Allow key now l = (let (ok, bs) = allow_body (rl_window l) (rl_limit l) (rl_maxKeys l) key now (rl_buckets l)
     in (ok, l\<lparr>rl_buckets := bs\<rparr>))"

lemma Allow_proj:
  "fst (Allow k t l) = fst (allow_body (rl_window l) (rl_limit l) (rl_maxKeys l) k t (rl_buckets l))"
  "rl_buckets (snd (Allow k t l)) = snd (allow_body (rl_window l) (rl_limit l) (rl_maxKeys l) k t (rl_buckets l))"
  "rl_limit (snd (Allow k t l)) = rl_limit l" "rl_window (snd (Allow k t l)) = rl_window l"
  "rl_maxKeys (snd (Allow k t l)) = rl_maxKeys l"
  by (simp_all add: Allow_def case_prod_beta)

interpretation server_limiter: window_limiter Allow "\<lambda>l. table_bucket (rl_buckets l)" "\<lambda>l. int (length (rl_buckets l))"
  rl_limit rl_window rl_maxKeys "\<lambda>l. table_ok (rl_limit l) (rl_maxKeys l) (rl_buckets l)"
  by (unfold_locales; (unfold Allow_proj)?) (rule refl | rule allow_body_laws; assumption)+

subsection \<open>Properties\<close>



text \<open>Memory is bounded: whatever keys the callers invent, the limiter never holds more buckets than its
  maximum.\<close>

theorem rate_limit_memory:
  "int (length (rl_buckets (snd (server_limiter.run cs (newRateLimiter w n m))))) \<le> max 0 m"
  using server_limiter.keys_bounded [of "newRateLimiter w n m" cs] by (simp add: newRateLimiter_def table_ok_def)

end
