(* ===== verification/Monitor.thy ===== *)
theory Monitor
  imports Incidents Netguard Requestmeta
begin

text \<open>
  The HTTP monitor, \<^verbatim>\<open>internal/monitor/monitor.go\<close>: one check of a site, the health state machine it
  drives and the observation history. What the network does during a check (parsing of the URL, the
  resolver's answers, the redirects, the response or the transport error) is an \<open>exchange\<close>, an input
  of the operations. A check is not one transaction: its row, the health row and the incident are
  written one after the other, and an error leaves what was written before it; operations therefore
  return the database along with the error.
\<close>

subsection \<open>What the network does\<close>

record hop =
  hop_url :: string
  hop_parsed :: parsed_url
  hop_guard :: Guard

record http_answer =
  ans_status :: int
  ans_body :: nat
  ans_url :: string
  ans_scheme :: "string option"
  ans_headers :: headers

text \<open>\<open>ex_end\<close>: the transport error (its text, and whether it is a deadline error) or the final response.\<close>

record exchange =
  ex_parse :: "(string, parsed_url) result"
  ex_guard :: Guard
  ex_request :: "string option"
  ex_hops :: "hop list"
  ex_end :: "(string \<times> bool, http_answer) result"
  ex_latency :: int
  ex_at :: string

datatype check_error = Sql sql_error | Failed string

subsection \<open>Errors\<close>

text \<open>\<^verbatim>\<open>url.Error\<close> as \<^verbatim>\<open>http.Client.Do\<close> returns it.\<close>

definition url_error_text :: "string \<Rightarrow> string \<Rightarrow> string" where
  "url_error_text u e = ''Get '' @ [CHR 0x22] @ u @ [CHR 0x22] @ '': '' @ e"

definition classifyError :: "string \<times> bool \<Rightarrow> string" where
  "classifyError err =
     (let msg = to_lower (fst err)
      in if snd err \<or> str_contains msg ''timeout'' \<or> str_contains msg ''deadline exceeded'' then ''timeout''
         else if str_contains msg ''blocked target'' then ''blocked''
         else if str_contains msg ''no such host'' \<or> str_contains msg ''lookup'' \<or> str_contains msg ''resolve'' then ''dns''
         else if str_contains msg ''tls'' \<or> str_contains msg ''certificate'' \<or> str_contains msg ''x509'' then ''tls''
         else if str_contains msg ''redirect'' then ''redirect''
         else ''connection'')"

subsection \<open>Health\<close>

definition update_health_row :: "health_row \<Rightarrow> string \<Rightarrow> int \<Rightarrow> check_row \<Rightarrow> string option \<Rightarrow> string option \<Rightarrow> health_row" where
  "update_health_row h next fails res success failure =
     h\<lparr>hl_state := next, hl_fails := fails, hl_last_check := Some (chk_id res),
       hl_change := (if next \<noteq> hl_state h then chk_at res else hl_change h),
       hl_success := (case success of None \<Rightarrow> hl_success h | Some t \<Rightarrow> Some t),
       hl_failure := (case failure of None \<Rightarrow> hl_failure h | Some t \<Rightarrow> Some t)\<rparr>"

definition next_state :: "check_row \<Rightarrow> int \<Rightarrow> string" where
  "next_state res fails =
     (if chk_ok res then ''healthy''
      else if chk_error_class res = ''http_status'' \<and> fails = 1 then ''degraded''
      else if fails = 1 then ''warning'' else ''down'')"

text \<open>The statement that stores the health row, whichever of the three it is.\<close>

definition store_health :: "check_row \<Rightarrow> string \<Rightarrow> int \<Rightarrow> db \<Rightarrow> (sql_error, db) result" where
  "store_health res next fails d =
     (let success = (if chk_ok res then Some (chk_at res) else None); failure = (if chk_ok res then None else Some (chk_at res))
      in case first_row (\<lambda>h. hl_site h = chk_site res) (db_health d) of
           None \<Rightarrow> insert_health \<lparr>hl_site = chk_site res, hl_state = next, hl_fails = fails, hl_last_check = Some (chk_id res),
                     hl_change = chk_at res, hl_success = success, hl_failure = failure\<rparr> d
         | Some h \<Rightarrow> Inr (d\<lparr>db_health := upd_where (\<lambda>h. hl_site h = chk_site res)
                     (\<lambda>h. update_health_row h next fails res success failure) (db_health d)\<rparr>))"

definition updateHealth :: "check_row \<Rightarrow> db \<Rightarrow> (sql_error, unit) result \<times> db" where
  "updateHealth res d =
     (let row = first_row (\<lambda>h. hl_site h = chk_site res) (db_health d);
          state = (case row of None \<Rightarrow> ''unknown'' | Some h \<Rightarrow> hl_state h);
          fails0 = (case row of None \<Rightarrow> 0 | Some h \<Rightarrow> hl_fails h);
          fails = (if chk_ok res then 0 else wrap64 (fails0 + 1));
          next = next_state res fails;
          stored = store_health res next fails d
      in case stored of
           Inl e \<Rightarrow> (Inl e, d)
         | Inr d1 \<Rightarrow>
             if next \<noteq> state then
               (case Transition (chk_site res) state next (chk_at res) d1 of
                  Inl e \<Rightarrow> (Inl e, d1)
                | Inr d2 \<Rightarrow> (Inr (), d2))
             else (Inr (), d1))"

definition insert_check :: "check_row \<Rightarrow> db \<Rightarrow> (sql_error, int \<times> db) result" where
  "insert_check res d =
     (if chk_site res \<notin> set (site_ids d) \<or> chk_monitor res \<notin> set (map mon_id (db_monitors d)) then Inl ForeignKeyViolation
      else let i = fresh_id (map chk_id (db_checks d))
           in Inr (i, d\<lparr>db_checks := db_checks d @ [res\<lparr>chk_id := i\<rparr>]\<rparr>))"

definition persist :: "check_row \<Rightarrow> db \<Rightarrow> (sql_error, check_row) result \<times> db" where
  "persist res d =
     (case insert_check res d of
        Inl e \<Rightarrow> (Inl e, d)
      | Inr (i, d1) \<Rightarrow>
          (let res = res\<lparr>chk_id := i\<rparr>
           in case updateHealth res d1 of
                (Inl e, d2) \<Rightarrow> (Inl e, d2)
              | (Inr _, d2) \<Rightarrow> (Inr res, d2)))"

subsection \<open>Observations\<close>

definition selected_names :: "string list" where
  "selected_names = [''Content-Security-Policy'', ''Strict-Transport-Security'', ''X-Content-Type-Options'', ''Referrer-Policy'',
     ''Permissions-Policy'', ''X-Frame-Options'', ''Server'', ''Content-Type'']"

text \<open>The map is marshalled with its keys in order; the column holds the sorted association list.\<close>

definition selected_headers :: "headers \<Rightarrow> headers" where
  "selected_headers h = sort_key fst (map (\<lambda>n. (n, header_get h n)) (filter (\<lambda>n. header_get h n \<noteq> '''') selected_names))"

definition missing_headers :: "int \<Rightarrow> string option \<Rightarrow> headers \<Rightarrow> db \<Rightarrow> string list" where
  "missing_headers sid scheme h d =
     filter (\<lambda>n. \<not> (equal_fold n ''Strict-Transport-Security'' \<and> scheme \<noteq> None \<and> scheme \<noteq> Some ''https'') \<and> header_get h n = '''')
       (map hx_name (sort_key (\<lambda>x. to_lower (hx_name x)) (filter (\<lambda>x. hx_site x = sid \<and> hx_required x) (db_headers d))))"

definition newline :: string where "newline = [CHR 0x0A]"

definition persistHTTPObservation :: "check_row \<Rightarrow> string list \<Rightarrow> string option \<Rightarrow> headers \<Rightarrow> db \<Rightarrow>
    (sql_error, http_obs_row) result \<times> db" where
  "persistHTTPObservation res redirects scheme h d =
     (let selected = selected_headers h;
          missingText = join_str newline (missing_headers (chk_site res) scheme h d);
          changed = (case latest (\<lambda>o'. ho_site o' = chk_site res) ho_id (db_http_obs d) of
              None \<Rightarrow> False
            | Some p \<Rightarrow> ho_chain p \<noteq> redirects \<or> ho_headers p \<noteq> selected \<or> ho_missing p \<noteq> missingText);
          obs = \<lparr>ho_id = fresh_id (map ho_id (db_http_obs d)), ho_site = chk_site res, ho_check = chk_id res, ho_chain = redirects,
                 ho_headers = selected, ho_missing = missingText, ho_changed = changed, ho_at = chk_at res\<rparr>
      in if chk_site res \<notin> set (site_ids d) \<or> chk_id res \<notin> set (map chk_id (db_checks d)) then (Inl ForeignKeyViolation, d)
         else (Inr obs, d\<lparr>db_http_obs := db_http_obs d @ [obs]\<rparr>))"

record HTTPObservation =
  hob_id :: int
  hob_site :: int
  hob_check :: int
  hob_chain :: "string list"
  hob_headers :: headers
  hob_missing :: "string list"
  hob_changed :: bool
  hob_at :: string

definition obs_of_row :: "http_obs_row \<Rightarrow> HTTPObservation" where
  "obs_of_row r = \<lparr>hob_id = ho_id r, hob_site = ho_site r, hob_check = ho_check r, hob_chain = ho_chain r, hob_headers = ho_headers r,
     hob_missing = (if ho_missing r = '''' then [] else split_char (CHR 0x0A) (ho_missing r)), hob_changed = ho_changed r, hob_at = ho_at r\<rparr>"

definition HTTPHistory :: "int \<Rightarrow> db \<Rightarrow> HTTPObservation list" where
  "HTTPHistory sid d = map obs_of_row (take 50 (rev (sort_key ho_id (filter (\<lambda>o'. ho_site o' = sid) (db_http_obs d)))))"

definition HeaderExpectations :: "int \<Rightarrow> db \<Rightarrow> string \<rightharpoonup> bool" where
  "HeaderExpectations sid d = foldl (\<lambda>m x. m(hx_name x \<mapsto> hx_required x)) Map.empty
     (sort_key (\<lambda>x. to_lower (hx_name x)) (filter (\<lambda>x. hx_site x = sid) (db_headers d)))"

definition allowed_expectations :: "string list" where
  "allowed_expectations = [''Content-Security-Policy'', ''Strict-Transport-Security'', ''X-Content-Type-Options'', ''Referrer-Policy'',
     ''Permissions-Policy'', ''X-Frame-Options'']"

definition SetHeaderExpectation :: "int \<Rightarrow> string \<Rightarrow> bool \<Rightarrow> db \<Rightarrow> (check_error, db) result" where
  "SetHeaderExpectation sid name0 required d =
     (let name = CanonicalHeaderKey (trim_space name0)
      in if name \<notin> set allowed_expectations then Inl (Failed ''unsupported header expectation'')
         else if \<exists>x \<in> set (db_headers d). hx_site x = sid \<and> hx_name x = name
         then Inr (d\<lparr>db_headers := upd_where (\<lambda>x. hx_site x = sid \<and> hx_name x = name) (\<lambda>x. x\<lparr>hx_required := required\<rparr>) (db_headers d)\<rparr>)
         else if sid \<notin> set (site_ids d) then Inl (Sql ForeignKeyViolation)
         else Inr (d\<lparr>db_headers := db_headers d @ [\<lparr>hx_id = fresh_id (map hx_id (db_headers d)), hx_site = sid, hx_name = name, hx_required = required\<rparr>]\<rparr>))"

subsection \<open>Checks\<close>

text \<open>\<^verbatim>\<open>CheckRedirect\<close>, called with the number of requests made so far, over the redirects the servers send.\<close>

fun follow_redirects :: "nat \<Rightarrow> hop list \<Rightarrow> string list \<Rightarrow> (string \<times> string, string list) result" where
  "follow_redirects via [] redirects = Inr redirects"
| "follow_redirects via (h # hs) redirects =
     (if 10 \<le> via then Inl (hop_url h, ''too many redirects'')
      else case ValidateURL (hop_guard h) (hop_parsed h) of
        Inl e \<Rightarrow> Inl (hop_url h, e)
      | Inr _ \<Rightarrow> follow_redirects (Suc via) hs (redirects @ [hop_url h]))"

definition client_do :: "string \<Rightarrow> exchange \<Rightarrow> (string \<times> bool, string list \<times> http_answer) result" where
  "client_do raw ex =
     (case follow_redirects 1 (ex_hops ex) [raw] of
        Inl (loc, e) \<Rightarrow> Inl (url_error_text loc e, False)
      | Inr redirects \<Rightarrow>
          (case ex_end ex of
             Inl (e, deadline) \<Rightarrow> Inl (url_error_text (last redirects) e, deadline)
           | Inr ans \<Rightarrow> Inr (redirects, ans)))"

definition blank_result :: "int \<Rightarrow> int \<Rightarrow> string \<Rightarrow> exchange \<Rightarrow> check_row" where
  "blank_result sid mid raw ex = \<lparr>chk_id = 0, chk_site = sid, chk_monitor = mid, chk_ok = False, chk_status = 0, chk_latency = 0,
     chk_bytes = 0, chk_final_url = raw, chk_error_class = '''', chk_error = '''', chk_at = ex_at ex\<rparr>"

definition lift_sql :: "(sql_error, 'a) result \<times> db \<Rightarrow> (check_error, 'a) result \<times> db" where
  "lift_sql = (\<lambda>(r, d). (case r of Inl e \<Rightarrow> Inl (Sql e) | Inr a \<Rightarrow> Inr a, d))"

definition answered :: "int \<Rightarrow> int \<Rightarrow> check_row \<Rightarrow> http_answer \<Rightarrow> check_row" where
  "answered minStatus maxStatus res ans =
     (let ok = minStatus \<le> ans_status ans \<and> ans_status ans \<le> maxStatus
      in res\<lparr>chk_bytes := int (min (ans_body ans) (8 * 2 ^ 20)), chk_status := ans_status ans, chk_final_url := ans_url ans,
             chk_ok := ok, chk_error_class := (if ok then '''' else ''http_status''),
             chk_error := (if ok then '''' else ''unexpected HTTP status '' @ append_int (ans_status ans) 0)\<rparr>)"

definition check :: "int \<Rightarrow> int \<Rightarrow> string \<Rightarrow> int \<Rightarrow> int \<Rightarrow> exchange \<Rightarrow> db \<Rightarrow> (check_error, check_row) result \<times> db" where
  "check sid mid raw minStatus maxStatus ex d =
     (let res = blank_result sid mid raw ex
      in case ex_parse ex of
           Inl e \<Rightarrow> (Inl (Failed e), d)
         | Inr u \<Rightarrow>
             (case ValidateURL (ex_guard ex) u of
                Inl e \<Rightarrow> lift_sql (persist (res\<lparr>chk_error_class := ''blocked'', chk_error := e\<rparr>) d)
              | Inr _ \<Rightarrow>
                  (case ex_request ex of
                     Some e \<Rightarrow> (Inl (Failed e), d)
                   | None \<Rightarrow>
                       (let res = res\<lparr>chk_latency := ex_latency ex\<rparr>
                        in case client_do raw ex of
                             Inl e \<Rightarrow> lift_sql (persist (res\<lparr>chk_error_class := classifyError e, chk_error := fst e\<rparr>) d)
                           | Inr (redirects, ans) \<Rightarrow>
                               (case persist (answered minStatus maxStatus res ans) d of
                                  (Inl e, d1) \<Rightarrow> (Inl (Sql e), d1)
                                | (Inr res, d1) \<Rightarrow>
                                    (case persistHTTPObservation res redirects (ans_scheme ans) (ans_headers ans) d1 of
                                       (Inl e, d2) \<Rightarrow> (Inl (Sql e), d2)
                                     | (Inr _, d2) \<Rightarrow> (Inr res, d2)))))))"

text \<open>The timeout handed to the client and its context.\<close>

definition check_timeout :: "int \<Rightarrow> duration" where
  "check_timeout ms = (let t = wrap64 (ms * 1000000) in if t \<le> 0 then 10 * second else t)"

text \<open>The network is a function of the URL and the timeout.\<close>

definition CheckSite :: "(string \<Rightarrow> duration \<Rightarrow> exchange) \<Rightarrow> int \<Rightarrow> db \<Rightarrow> (check_error, check_row) result \<times> db" where
  "CheckSite net sid d =
     (case first_row (\<lambda>m. mon_site m = sid \<and> (\<exists>s \<in> set (db_sites d). site_id s = sid \<and> site_enabled s \<and> site_archived s = None)) (db_monitors d) of
        None \<Rightarrow> (Inl (Failed ''enabled site monitor not found''), d)
      | Some m \<Rightarrow>
          (case first_row (\<lambda>s. site_id s = sid) (db_sites d) of
             None \<Rightarrow> (Inl (Failed ''enabled site monitor not found''), d)
           | Some s \<Rightarrow> check sid (mon_id m) (site_url s) (mon_min m) (mon_max m) (net (site_url s) (check_timeout (mon_timeout m))) d))"

text \<open>What every statement of a check leaves alone, the check leaves alone.\<close>

lemma CheckSite_preserves:
  assumes persist: "\<And>r x. F (snd (persist r x)) = F x" and obs: "\<And>r rs sch h x. F (snd (persistHTTPObservation r rs sch h x)) = F x"
  shows "F (snd (CheckSite net sid d)) = F d"
proof -
  have lift: "F (snd (lift_sql (persist r d))) = F d" for r
    using persist [of r d] by (simp add: lift_sql_def case_prod_beta)
  have stored: "F (snd (case persist r d of (Inl e, d1) \<Rightarrow> (Inl (Sql e), d1)
      | (Inr res, d1) \<Rightarrow> (case persistHTTPObservation res rs sch h d1 of (Inl e, d2) \<Rightarrow> (Inl (Sql e), d2) | (Inr _, d2) \<Rightarrow> (Inr res, d2)))) = F d" for r rs sch h
  proof -
    obtain res d1 where p: "persist r d = (res, d1)" by fastforce
    show ?thesis
    proof (cases res)
      case (Inr x)
      obtain o' d2 where o': "persistHTTPObservation x rs sch h d1 = (o', d2)" by fastforce
      have "F d2 = F d" using persist [of r d] obs [of x rs sch h d1] p o' by simp
      then show ?thesis using p o' Inr by (cases o') simp_all
    qed (use p persist [of r d] in simp)
  qed
  have "F (snd (check sid mid raw mn mx ex d)) = F d" for mid raw mn mx ex
  proof (cases "client_do raw ex")
    case (Inr ra)
    then show ?thesis by (cases ra) (simp add: check_def Let_def lift stored split: sum.splits option.splits)
  qed (simp add: check_def Let_def lift split: sum.splits option.splits)
  then show ?thesis by (simp add: CheckSite_def split: option.splits)
qed

definition Recent :: "int \<Rightarrow> int \<Rightarrow> db \<Rightarrow> check_row list" where
  "Recent sid limit d =
     (let limit = (if limit < 1 then 20 else if 200 < limit then 200 else limit)
      in take (nat limit) (rev (sort_key chk_id (filter (\<lambda>c. chk_site c = sid) (db_checks d)))))"

subsection \<open>What a transition does to the open incident\<close>

definition open_of :: "int \<Rightarrow> db \<Rightarrow> incident_row set" where
  "open_of sid d = {i \<in> set (db_incidents d). inc_site i = sid \<and> inc_closed i = None}"

lemma recordDelivery_frame:
  assumes "recordDelivery i sid k at d = Inr d'"
  shows "db_incidents d' = db_incidents d" "db_health d' = db_health d" "db_checks d' = db_checks d" "db_sites d' = db_sites d"
    "db_monitors d' = db_monitors d" "db_headers d' = db_headers d" "db_http_obs d' = db_http_obs d"
  using assms by (auto simp: recordDelivery_def split: if_splits)

lemma insert_incident_frame:
  assumes "insert_incident sid st su at d = Inr (i, d')"
  shows "db_health d' = db_health d" "db_checks d' = db_checks d" "db_sites d' = db_sites d"
    "db_monitors d' = db_monitors d" "db_headers d' = db_headers d" "db_http_obs d' = db_http_obs d"
  using assms by (auto simp: insert_incident_def Let_def split: if_splits)

lemma update_incident_frame [simp]:
  "db_health (update_incident i f d) = db_health d" "db_checks (update_incident i f d) = db_checks d"
  "db_sites (update_incident i f d) = db_sites d" "db_monitors (update_incident i f d) = db_monitors d"
  "db_headers (update_incident i f d) = db_headers d" "db_http_obs (update_incident i f d) = db_http_obs d"
  by (simp_all add: update_incident_def)

lemma enqueueWebhooks_frame [simp]:
  "db_checks (enqueueWebhooks sid i k st su at d) = db_checks d" "db_monitors (enqueueWebhooks sid i k st su at d) = db_monitors d"
  "db_headers (enqueueWebhooks sid i k st su at d) = db_headers d" "db_http_obs (enqueueWebhooks sid i k st su at d) = db_http_obs d"
  by (simp_all add: enqueueWebhooks_def)

lemma Transition_frame:
  assumes "Transition sid prev next at d = Inr d'" "incident_ids_pos d"
  shows "db_health d' = db_health d" "db_checks d' = db_checks d" "db_sites d' = db_sites d"
    "db_monitors d' = db_monitors d" "db_headers d' = db_headers d" "db_http_obs d' = db_http_obs d"
  using assms by (cases rule: Transition_cases; auto simp: recordDelivery_frame insert_incident_frame)+

lemma Transition_total:
  assumes "incident_ids_pos d" "sid \<in> set (site_ids d)"
  obtains d' where "Transition sid prev next at d = Inr d'"
proof -
  have rec: "\<exists>d'. recordDelivery i sid k at x = Inr d'"
    if "i \<in> set (map inc_id (db_incidents x))" "db_sites x = db_sites d" for i k x
    using that assms(2) by (auto simp: recordDelivery_def)
  have open_id: "openID sid d \<in> set (map inc_id (db_incidents (update_incident i f d)))"
    if nz: "openID sid d \<noteq> 0" and same: "\<And>r. inc_id (f r) = inc_id r" for i f
  proof -
    obtain r where "r \<in> set (db_incidents d)" "inc_id r = openID sid d" by (rule openID_row [OF assms(1) nz]) (rule that)
    then have "openID sid d \<in> set (map inc_id (db_incidents d))" by force
    with same show ?thesis by (simp add: update_incident_def map_upd_where_same)
  qed
  have "\<exists>d'. Transition sid prev next at d = Inr d'"
  proof (cases "openID sid d = 0")
    case False
    have gt: "0 < openID sid d" by (rule openID_row [OF assms(1) False])
    let ?f = "\<lambda>r. r\<lparr>inc_state := ''resolved'', inc_closed := Some at\<rparr>"
    obtain d1 where "recordDelivery (openID sid d) sid ''recovery'' at (update_incident (openID sid d) ?f d) = Inr d1"
      using rec [OF open_id [OF False, of ?f], of "openID sid d"] by auto
    with gt False show ?thesis by (simp add: Transition_def Let_def)
  next
    case True
    obtain i d1 where d1: "insert_incident sid next (entered next) at d = Inr (i, d1)"
      "i \<in> set (map inc_id (db_incidents d1))" "db_sites d1 = db_sites d"
      using assms(2) by (auto simp: insert_incident_def Let_def)
    with rec [OF d1(2,3)] True show ?thesis by (auto simp: Transition_def Let_def)
  qed
  with that show ?thesis by blast
qed

lemma open_of_update:
  assumes "\<And>r. inc_site (f r) = inc_site r" "\<And>r. r \<in> set (db_incidents d) \<Longrightarrow> inc_id r = i \<Longrightarrow> inc_site r = sid" "s \<noteq> sid"
  shows "open_of s (update_incident i f d) = open_of s d"
  using assms by (auto simp: open_of_def update_incident_def set_upd_where)

lemma Transition_open:
  assumes inv: "incidents_inv d" and t: "Transition sid prev next at d = Inr d'" and ne: "next \<noteq> prev" "next \<noteq> ''unknown''"
  shows "(open_of sid d' = {}) = (next = ''healthy'')" "\<And>i. i \<in> open_of sid d' \<Longrightarrow> inc_state i = next"
    "\<And>s. s \<noteq> sid \<Longrightarrow> open_of s d' = open_of s d"
proof -
  have pos: "incident_ids_pos d" and ok: "db_ok d" and one: "one_open d" using inv by (simp_all add: incidents_inv_def)
  have frame: "open_of s (enqueueWebhooks a b c e f g x) = open_of s x" for s a b c e f g x by (simp add: open_of_def)
  have row: "\<exists>r \<in> open_of sid d. inc_id r = openID sid d \<and> open_of sid d = {r} \<and>
      (\<forall>x \<in> set (db_incidents d). inc_id x = openID sid d \<longrightarrow> x = r)" if nz: "openID sid d \<noteq> 0"
  proof -
    obtain r where r: "r \<in> set (db_incidents d)" "inc_site r = sid" "inc_closed r = None" "inc_id r = openID sid d"
      by (rule openID_row [OF pos nz]) (rule that)
    then have "open_of sid d = {r}" using one unfolding open_of_def one_open_def by blast
    moreover have "\<forall>x \<in> set (db_incidents d). inc_id x = openID sid d \<longrightarrow> x = r"
      using same_incident_id [OF ok _ r(1)] r(4) by simp
    ultimately show ?thesis using r by blast
  qed
  have none: "open_of sid d = {}" if "openID sid d = 0"
    using that openID_zero [OF pos, of sid] by (auto simp: open_of_def)
  have all: "(open_of sid d' = {}) = (next = ''healthy'') \<and> (\<forall>i \<in> open_of sid d'. inc_state i = next) \<and>
    (\<forall>s. s \<noteq> sid \<longrightarrow> open_of s d' = open_of s d)"
    using t pos
  proof (cases rule: Transition_cases)
    case (quiet)
    with none show ?thesis by simp
  next
    case (recover i d1)
    let ?f = "\<lambda>r. r\<lparr>inc_state := ''resolved'', inc_closed := Some at\<rparr>"
    obtain r where r: "r \<in> open_of sid d" "open_of sid d = {r}" "\<forall>x \<in> set (db_incidents d). inc_id x = i \<longrightarrow> x = r" "inc_id r = i"
      using row recover(3,4) by blast
    have d': "open_of s d' = open_of s (update_incident i ?f d)" for s
      using recordDelivery_frame(1) [OF recover(5)] recover(6) by (simp add: open_of_def)
    have "open_of sid (update_incident i ?f d) = {}"
      using r by (auto simp: open_of_def update_incident_def set_upd_where)
    moreover have "open_of s (update_incident i ?f d) = open_of s d" if "s \<noteq> sid" for s
      by (rule open_of_update [where sid = sid]) (use r that in \<open>auto simp: open_of_def\<close>)
    ultimately show ?thesis using recover(1) d' by simp
  next
    case (escalate i)
    let ?f = "\<lambda>r. r\<lparr>inc_state := next\<rparr>"
    obtain r where r: "r \<in> open_of sid d" "open_of sid d = {r}" "\<forall>x \<in> set (db_incidents d). inc_id x = i \<longrightarrow> x = r" "inc_id r = i"
      using row escalate(4,5) by blast
    have "open_of sid (update_incident i ?f d) = {?f r}"
      using r by (auto simp: open_of_def update_incident_def set_upd_where)
    moreover have "open_of s (update_incident i ?f d) = open_of s d" if "s \<noteq> sid" for s
      by (rule open_of_update [where sid = sid]) (use r that in \<open>auto simp: open_of_def\<close>)
    ultimately show ?thesis using escalate(1,6) by simp
  next
    case (opened i d1 d2)
    let ?r = "\<lparr>inc_id = i, inc_site = sid, inc_state = next, inc_summary = entered next, inc_opened = at, inc_closed = None, inc_ack = None\<rparr>"
    have "db_incidents d1 = db_incidents d @ [?r]"
      using opened(5) by (auto simp: insert_incident_def Let_def split: if_splits)
    with recordDelivery_frame(1) [OF opened(6)] opened(7) have rows: "db_incidents d' = db_incidents d @ [?r]" by simp
    then have "open_of sid d' = {?r}" using none [OF opened(4)] by (auto simp: open_of_def)
    moreover have "open_of s d' = open_of s d" if "s \<noteq> sid" for s using rows that by (auto simp: open_of_def)
    ultimately show ?thesis using opened(1) by simp
  qed (use ne in auto)
  then show "(open_of sid d' = {}) = (next = ''healthy'')" "\<And>i. i \<in> open_of sid d' \<Longrightarrow> inc_state i = next"
    "\<And>s. s \<noteq> sid \<Longrightarrow> open_of s d' = open_of s d" by blast+
qed


subsection \<open>Health as a view of the history\<close>

text \<open>The reference: what the health row of a site must say, from the results of its checks alone.\<close>

definition site_checks :: "int \<Rightarrow> db \<Rightarrow> check_row list" where
  "site_checks sid d = filter (\<lambda>c. chk_site c = sid) (db_checks d)"

definition fails_of :: "check_row list \<Rightarrow> nat" where
  "fails_of cs = length (takeWhile (\<lambda>c. \<not> chk_ok c) (rev cs))"

definition state_of :: "check_row list \<Rightarrow> string" where
  "state_of cs = (if cs = [] then ''unknown'' else if chk_ok (last cs) then ''healthy''
     else if 2 \<le> fails_of cs then ''down''
     else if chk_error_class (last cs) = ''http_status'' then ''degraded'' else ''warning'')"

definition row_tracks :: "db \<Rightarrow> health_row \<Rightarrow> bool" where
  "row_tracks d h \<longleftrightarrow> (let cs = site_checks (hl_site h) d in
     hl_fails h = int (fails_of cs) \<and> hl_state h = state_of cs \<and>
     hl_last_check h = (if cs = [] then None else Some (chk_id (last cs))) \<and>
     (open_of (hl_site h) d = {}) = (state_of cs \<in> {''healthy'', ''unknown''}) \<and>
     (\<forall>i \<in> open_of (hl_site h) d. inc_state i = state_of cs))"

definition health_tracks :: "db \<Rightarrow> bool" where
  "health_tracks d \<longleftrightarrow> (\<forall>h \<in> set (db_health d). row_tracks d h) \<and>
     (\<forall>s. s \<notin> hl_site ` set (db_health d) \<longrightarrow> site_checks s d = [] \<and> open_of s d = {})"

definition monitor_inv :: "db \<Rightarrow> bool" where
  "monitor_inv d \<longleftrightarrow> incidents_inv d \<and> health_tracks d"

lemma fails_of_snoc: "fails_of (cs @ [c]) = (if chk_ok c then 0 else Suc (fails_of cs))"
  by (simp add: fails_of_def)

lemma fails_of_Nil [simp]: "fails_of [] = 0"
  by (simp add: fails_of_def)

lemma fails_of_le: "fails_of cs \<le> length cs"
  unfolding fails_of_def by (metis length_rev length_takeWhile_le)

lemma state_of_snoc: "state_of (cs @ [c]) = next_state c (int (fails_of (cs @ [c])))"
  by (auto simp: state_of_def next_state_def fails_of_snoc)

lemma state_of_quiet: "state_of cs \<in> {''healthy'', ''unknown''} \<longleftrightarrow> cs = [] \<or> chk_ok (last cs)"
  by (simp add: state_of_def)

lemma next_state_healthy: "next_state c n = ''healthy'' \<longleftrightarrow> chk_ok c" "next_state c n \<noteq> ''unknown''"
  by (simp_all add: next_state_def)

lemma site_checks_snoc:
  "site_checks s (d\<lparr>db_checks := db_checks d @ [c]\<rparr>) = site_checks s d @ (if chk_site c = s then [c] else [])"
  by (simp add: site_checks_def)

lemma insert_check_inv:
  assumes "incidents_inv d" "insert_check res d = Inr (i, d')"
  shows "incidents_inv d'" "d' = d\<lparr>db_checks := db_checks d @ [res\<lparr>chk_id := i\<rparr>]\<rparr>"
proof -
  have d': "d' = d\<lparr>db_checks := db_checks d @ [res\<lparr>chk_id := i\<rparr>]\<rparr>" "i = fresh_id (map chk_id (db_checks d))"
    "chk_site res \<in> set (site_ids d)" "chk_monitor res \<in> set (map mon_id (db_monitors d))"
    using assms(2) unfolding insert_check_def Let_def by (auto split: if_splits)
  have ok: "db_ok d" using assms(1) by (simp add: incidents_inv_def)
  have "i \<notin> set (map chk_id (db_checks d))" unfolding d'(2) by (rule fresh_id_notin)
  then have "checks_ok (set (site_ids d)) (set (map mon_id (db_monitors d))) (db_checks d @ [res\<lparr>chk_id := i\<rparr>])"
    using ok d'(3,4) by (auto simp: db_ok_def checks_ok_def)
  then have "db_ok d'"
    using ok http_obs_ok_mono [OF _ order_refl subset_insertI] by (simp add: db_ok_def d'(1))
  then show "incidents_inv d'"
    using assms(1) by (simp add: incidents_inv_def d'(1) one_open_def alerted_once_def incident_ids_pos_def alerts_of_def)
  show "d' = d\<lparr>db_checks := db_checks d @ [res\<lparr>chk_id := i\<rparr>]\<rparr>" by (rule d'(1))
qed

lemma health_ok_cong: "map hl_site hs' = map hl_site hs \<Longrightarrow> health_ok S hs' = health_ok S hs"
proof -
  assume eq: "map hl_site hs' = map hl_site hs"
  have "health_ok S xs \<longleftrightarrow> distinct (map hl_site xs) \<and> set (map hl_site xs) \<subseteq> S" for xs
    by (auto simp: health_ok_def)
  then show ?thesis by (simp only: eq)
qed

lemma store_health_ok:
  assumes "incidents_inv d" "chk_site res \<in> set (site_ids d)"
  obtains hs where "store_health res next fails d = Inr (d\<lparr>db_health := hs\<rparr>)" "incidents_inv (d\<lparr>db_health := hs\<rparr>)"
    "hl_site ` set hs = insert (chk_site res) (hl_site ` set (db_health d))"
    "\<And>h. h \<in> set hs \<Longrightarrow> hl_site h = chk_site res \<Longrightarrow> hl_state h = next \<and> hl_fails h = fails \<and> hl_last_check h = Some (chk_id res)"
    "\<And>h. h \<in> set hs \<Longrightarrow> hl_site h \<noteq> chk_site res \<Longrightarrow> h \<in> set (db_health d)"
proof -
  have ok: "db_ok d" using assms(1) by (simp add: incidents_inv_def)
  have inv: "incidents_inv (d\<lparr>db_health := hs\<rparr>)" if "db_ok (d\<lparr>db_health := hs\<rparr>)" for hs
    using assms(1) that by (simp add: incidents_inv_def one_open_def alerted_once_def incident_ids_pos_def alerts_of_def)
  show ?thesis
  proof (cases "first_row (\<lambda>h. hl_site h = chk_site res) (db_health d)")
    case None
    define h where "h = \<lparr>hl_site = chk_site res, hl_state = next, hl_fails = fails, hl_last_check = Some (chk_id res),
      hl_change = chk_at res, hl_success = (if chk_ok res then Some (chk_at res) else None),
      hl_failure = (if chk_ok res then None else Some (chk_at res))\<rparr>"
    from None have new: "\<forall>x \<in> set (db_health d). hl_site x \<noteq> chk_site res" by (simp add: first_row_None)
    then have ins: "insert_health h d = Inr (d\<lparr>db_health := db_health d @ [h]\<rparr>)"
      using assms(2) by (auto simp: insert_health_def h_def)
    have "store_health res next fails d = Inr (d\<lparr>db_health := db_health d @ [h]\<rparr>)"
      using ins unfolding store_health_def Let_def None by (simp add: h_def)
    moreover have "incidents_inv (d\<lparr>db_health := db_health d @ [h]\<rparr>)" by (rule inv [OF insert_health_ok [OF ok ins]])
    ultimately show ?thesis
      by (rule that) (use new in \<open>auto simp: h_def\<close>)
  next
    case (Some r)
    let ?f = "\<lambda>h. update_health_row h next fails res (if chk_ok res then Some (chk_at res) else None) (if chk_ok res then None else Some (chk_at res))"
    let ?hs = "upd_where (\<lambda>h. hl_site h = chk_site res) ?f (db_health d)"
    have sites: "map hl_site ?hs = map hl_site (db_health d)" by (simp add: map_upd_where_same update_health_row_def)
    then have img: "hl_site ` set ?hs = hl_site ` set (db_health d)" by (metis list.set_map)
    have "health_ok (set (site_ids d)) ?hs" using ok health_ok_cong [OF sites] by (simp add: db_ok_def)
    then have inv': "incidents_inv (d\<lparr>db_health := ?hs\<rparr>)" using ok by (intro inv) (simp add: db_ok_def)
    have st': "store_health res next fails d = Inr (d\<lparr>db_health := ?hs\<rparr>)" by (simp add: store_health_def Some)
    have img': "hl_site ` set ?hs = insert (chk_site res) (hl_site ` set (db_health d))"
      using first_row_Some [OF Some] unfolding img by (auto intro: rev_image_eqI)
    show ?thesis
      by (rule that [OF st' inv' img']) (auto simp: set_upd_where update_health_row_def)
  qed
qed


lemma incidents_inv_parts: "incidents_inv d \<Longrightarrow> incident_ids_pos d" "incidents_inv d \<Longrightarrow> db_ok d"
  by (simp_all add: incidents_inv_def)

lemma open_of_checks [simp]:
  "open_of s (d\<lparr>db_checks := x\<rparr>) = open_of s d" "open_of s (d\<lparr>db_health := y\<rparr>) = open_of s d"
  by (simp_all add: open_of_def)

lemma row_for_site:
  assumes "monitor_inv d"
  shows "(case first_row (\<lambda>h. hl_site h = s) (db_health d) of None \<Rightarrow> ''unknown'' | Some h \<Rightarrow> hl_state h) = state_of (site_checks s d)"
    "(case first_row (\<lambda>h. hl_site h = s) (db_health d) of None \<Rightarrow> 0 | Some h \<Rightarrow> hl_fails h) = int (fails_of (site_checks s d))"
    "(open_of s d = {}) = (state_of (site_checks s d) \<in> {''healthy'', ''unknown''})"
    "i \<in> open_of s d \<Longrightarrow> inc_state i = state_of (site_checks s d)"
proof -
  have "(case first_row (\<lambda>h. hl_site h = s) (db_health d) of None \<Rightarrow> ''unknown'' | Some h \<Rightarrow> hl_state h) = state_of (site_checks s d) \<and>
    (case first_row (\<lambda>h. hl_site h = s) (db_health d) of None \<Rightarrow> 0 | Some h \<Rightarrow> hl_fails h) = int (fails_of (site_checks s d)) \<and>
    (open_of s d = {}) = (state_of (site_checks s d) \<in> {''healthy'', ''unknown''}) \<and>
    (i \<in> open_of s d \<longrightarrow> inc_state i = state_of (site_checks s d))"
  proof (cases "first_row (\<lambda>h. hl_site h = s) (db_health d)")
    case None
    then have "s \<notin> hl_site ` set (db_health d)" by (auto simp: first_row_None)
    then have "site_checks s d = [] \<and> open_of s d = {}" using assms by (simp add: monitor_inv_def health_tracks_def)
    with None show ?thesis by (simp add: state_of_def)
  next
    case (Some h)
    then have "row_tracks d h" "hl_site h = s" using assms first_row_Some [OF Some] by (auto simp: monitor_inv_def health_tracks_def)
    with Some show ?thesis unfolding row_tracks_def Let_def by simp
  qed
  then show "(case first_row (\<lambda>h. hl_site h = s) (db_health d) of None \<Rightarrow> ''unknown'' | Some h \<Rightarrow> hl_state h) = state_of (site_checks s d)"
    "(case first_row (\<lambda>h. hl_site h = s) (db_health d) of None \<Rightarrow> 0 | Some h \<Rightarrow> hl_fails h) = int (fails_of (site_checks s d))"
    "(open_of s d = {}) = (state_of (site_checks s d) \<in> {''healthy'', ''unknown''})"
    "i \<in> open_of s d \<Longrightarrow> inc_state i = state_of (site_checks s d)" by blast+
qed

text \<open>Storing a result keeps the health rows a view of the history.\<close>

lemma persist_inv:
  assumes inv: "monitor_inv d" and fk: "chk_site res \<in> set (site_ids d)" "chk_monitor res \<in> set (map mon_id (db_monitors d))"
    and small: "int (length (db_checks d)) < 2 ^ 63 - 1"
  obtains d' i where "persist res d = (Inr (res\<lparr>chk_id := i\<rparr>), d')" "monitor_inv d'"
    "db_checks d' = db_checks d @ [res\<lparr>chk_id := i\<rparr>]" "db_sites d' = db_sites d" "db_monitors d' = db_monitors d"
    "db_http_obs d' = db_http_obs d" "db_headers d' = db_headers d"
proof -
  let ?s = "chk_site res"
  obtain i d1 where ins: "insert_check res d = Inr (i, d1)" using fk by (simp add: insert_check_def Let_def)
  define r where "r = res\<lparr>chk_id := i\<rparr>"
  have inv0: "incidents_inv d" using inv by (simp add: monitor_inv_def)
  have d1: "incidents_inv d1" "d1 = d\<lparr>db_checks := db_checks d @ [r]\<rparr>" using insert_check_inv [OF inv0 ins] by (simp_all add: r_def)
  have r: "chk_site r = ?s" "chk_ok r = chk_ok res" by (simp_all add: r_def)
  define cs where "cs = site_checks ?s d"
  have cs': "site_checks ?s d1 = cs @ [r]" using r by (simp add: d1(2) site_checks_snoc cs_def)
  have other: "site_checks s d1 = site_checks s d" if "s \<noteq> ?s" for s using that r by (simp add: d1(2) site_checks_snoc)
  note prev = row_for_site [OF inv, where s = ?s, folded cs_def]
  define nx where "nx = state_of (cs @ [r])"
  define fails where "fails = int (fails_of (cs @ [r]))"
  have "length cs \<le> length (db_checks d)" by (simp add: cs_def site_checks_def)
  then have "fits64 (int (fails_of cs) + 1)" using small fails_of_le [of cs] by (simp add: fits64_def)
  then have fails: "(if chk_ok r then 0 else wrap64 (int (fails_of cs) + 1)) = fails" by (simp add: fails_def fails_of_snoc)
  have nxt: "next_state r fails = nx" by (simp add: nx_def fails_def state_of_snoc)
  obtain hs where hs: "store_health r nx fails d1 = Inr (d1\<lparr>db_health := hs\<rparr>)" "incidents_inv (d1\<lparr>db_health := hs\<rparr>)"
    "hl_site ` set hs = insert ?s (hl_site ` set (db_health d1))"
    "\<And>h. h \<in> set hs \<Longrightarrow> hl_site h = ?s \<Longrightarrow> hl_state h = nx \<and> hl_fails h = fails \<and> hl_last_check h = Some i"
    "\<And>h. h \<in> set hs \<Longrightarrow> hl_site h \<noteq> ?s \<Longrightarrow> h \<in> set (db_health d1)"
    using store_health_ok [OF d1(1), of r nx fails] fk(1) r by (auto simp: d1(2) r_def)
  define d2 where "d2 = d1\<lparr>db_health := hs\<rparr>"
  have h1: "db_health d1 = db_health d" by (simp add: d1(2))
  have upd: "updateHealth r d1 = (if nx \<noteq> state_of cs then
      (case Transition ?s (state_of cs) nx (chk_at r) d2 of Inl e \<Rightarrow> (Inl e, d2) | Inr d3 \<Rightarrow> (Inr (), d3)) else (Inr (), d2))"
    unfolding updateHealth_def Let_def r(1) h1 prev(1,2) fails nxt hs(1) d2_def by simp
  have opens: "open_of s d2 = open_of s d" for s by (simp add: d2_def d1(2))
  have "\<exists>d3. updateHealth r d1 = (Inr (), d3) \<and> incidents_inv d3 \<and> db_health d3 = hs \<and> db_checks d3 = db_checks d @ [r] \<and>
      db_sites d3 = db_sites d \<and> db_monitors d3 = db_monitors d \<and> db_http_obs d3 = db_http_obs d \<and> db_headers d3 = db_headers d \<and>
      (open_of ?s d3 = {}) = (nx = ''healthy'') \<and> (\<forall>j \<in> open_of ?s d3. inc_state j = nx) \<and>
      (\<forall>s. s \<noteq> ?s \<longrightarrow> open_of s d3 = open_of s d)"
  proof (cases "nx = state_of cs")
    case True
    have "(open_of ?s d2 = {}) = (nx = ''healthy'')"
      using prev(3) True next_state_healthy(2) [of r fails] nxt opens by auto
    then show ?thesis using True upd hs(2) opens prev(4) by (simp add: d2_def d1(2))
  next
    case False
    obtain d3 where d3: "Transition ?s (state_of cs) nx (chk_at r) d2 = Inr d3"
      by (rule Transition_total [of d2 ?s]) (use hs(2) fk(1) in \<open>auto simp: d2_def d1(2) incidents_inv_def\<close>)
    have i2: "incidents_inv d2" using hs(2) by (simp add: d2_def)
    have nu: "nx \<noteq> ''unknown''" using next_state_healthy(2) [of r fails] nxt by simp
    note fr = Transition_frame [OF d3 incidents_inv_parts(1) [OF i2]]
    from Transition_open [OF i2 d3 False nu] Transition_inv [OF i2 d3] fr upd False d3 opens show ?thesis
      by (simp add: d2_def d1(2))
  qed
  then obtain d3 where d3: "updateHealth r d1 = (Inr (), d3)" "incidents_inv d3" "db_health d3 = hs" "db_checks d3 = db_checks d @ [r]"
      "db_sites d3 = db_sites d" "db_monitors d3 = db_monitors d" "db_http_obs d3 = db_http_obs d" "db_headers d3 = db_headers d"
      "(open_of ?s d3 = {}) = (nx = ''healthy'')" "\<forall>j \<in> open_of ?s d3. inc_state j = nx"
      "\<forall>s. s \<noteq> ?s \<longrightarrow> open_of s d3 = open_of s d" by blast
  have c3: "site_checks s d3 = (if s = ?s then cs @ [r] else site_checks s d)" for s
    using d3(4) r(1) by (simp add: site_checks_def cs_def)
  have "row_tracks d3 h" if h: "h \<in> set hs" for h
  proof (cases "hl_site h = ?s")
    case True
    have "nx \<in> {''healthy'', ''unknown''} \<longleftrightarrow> nx = ''healthy''" using next_state_healthy(2) [of r fails] nxt by auto
    with hs(4) [OF h True] True d3(9,10) c3 show ?thesis
      unfolding row_tracks_def Let_def by (simp add: fails_def nx_def r_def)
  next
    case False
    have "row_tracks d h" using hs(5) [OF h False] inv by (simp add: monitor_inv_def health_tracks_def d1(2))
    with False c3 d3(11) show ?thesis unfolding row_tracks_def Let_def by simp
  qed
  moreover have "site_checks s d3 = [] \<and> open_of s d3 = {}" if "s \<notin> hl_site ` set hs" for s
  proof -
    have "s \<noteq> ?s" "s \<notin> hl_site ` set (db_health d)" using that hs(3) by (auto simp: d1(2))
    with inv c3 d3(11) show ?thesis by (simp add: monitor_inv_def health_tracks_def)
  qed
  ultimately have "monitor_inv d3" using d3(2,3) by (simp add: monitor_inv_def health_tracks_def)
  moreover have "persist res d = (Inr r, d3)" unfolding persist_def using ins d3(1) by (simp add: r_def Let_def)
  ultimately show ?thesis using d3(4-8) by (intro that [of i d3]) (simp_all add: r_def)
qed


lemma observation_inv:
  assumes "monitor_inv d" "chk_site res \<in> set (site_ids d)" "chk_id res \<in> set (map chk_id (db_checks d))"
  obtains obs where "persistHTTPObservation res rs sch h d = (Inr obs, d\<lparr>db_http_obs := db_http_obs d @ [obs]\<rparr>)"
    "monitor_inv (d\<lparr>db_http_obs := db_http_obs d @ [obs]\<rparr>)" "ho_site obs = chk_site res" "ho_chain obs = rs"
    "ho_id obs = fresh_id (map ho_id (db_http_obs d))" "ho_headers obs = selected_headers h"
    "ho_missing obs = join_str newline (missing_headers (chk_site res) sch h d)"
proof -
  obtain obs where obs: "persistHTTPObservation res rs sch h d = (Inr obs, d\<lparr>db_http_obs := db_http_obs d @ [obs]\<rparr>)"
    "ho_site obs = chk_site res" "ho_check obs = chk_id res" "ho_chain obs = rs" "ho_id obs = fresh_id (map ho_id (db_http_obs d))"
    "ho_headers obs = selected_headers h" "ho_missing obs = join_str newline (missing_headers (chk_site res) sch h d)"
    using assms(2,3) by (simp add: persistHTTPObservation_def Let_def)
  have ok: "db_ok d" using assms(1) by (simp add: monitor_inv_def incidents_inv_def)
  have "http_obs_ok (set (site_ids d)) (set (map chk_id (db_checks d))) (db_http_obs d @ [obs])"
    using ok assms(2,3) obs(2,3) by (auto simp: db_ok_def http_obs_ok_def)
  then have "db_ok (d\<lparr>db_http_obs := db_http_obs d @ [obs]\<rparr>)" using ok by (simp add: db_ok_def)
  then have "monitor_inv (d\<lparr>db_http_obs := db_http_obs d @ [obs]\<rparr>)"
    using assms(1)
    by (simp add: monitor_inv_def incidents_inv_def one_open_def alerted_once_def incident_ids_pos_def alerts_of_def
      health_tracks_def row_tracks_def site_checks_def open_of_def Let_def)
  with obs show ?thesis by (intro that) auto
qed

text \<open>A check either leaves the database alone and reports why, or adds one result for the site.\<close>

lemma CheckSite_cases:
  assumes inv: "monitor_inv d" and small: "int (length (db_checks d)) < 2 ^ 63 - 1"
  obtains (none) e where "CheckSite net sid d = (Inl (Failed e), d)"
  | (checked) r d' where "CheckSite net sid d = (Inr r, d')" "monitor_inv d'" "db_checks d' = db_checks d @ [r]"
      "chk_site r = sid" "db_sites d' = db_sites d" "db_monitors d' = db_monitors d" "db_headers d' = db_headers d"
proof (cases "CheckSite net sid d = (Inl (Failed ''enabled site monitor not found''), d)")
  case False
  then obtain m s where m: "first_row (\<lambda>m. mon_site m = sid \<and> (\<exists>s \<in> set (db_sites d). site_id s = sid \<and> site_enabled s \<and> site_archived s = None)) (db_monitors d) = Some m"
    "first_row (\<lambda>s. site_id s = sid) (db_sites d) = Some s"
    by (auto simp: CheckSite_def split: option.splits)
  define ex where "ex = net (site_url s) (check_timeout (mon_timeout m))"
  have ch: "CheckSite net sid d = check sid (mon_id m) (site_url s) (mon_min m) (mon_max m) ex d"
    using m by (simp add: CheckSite_def ex_def)
  have fk: "sid \<in> set (site_ids d)" "mon_id m \<in> set (map mon_id (db_monitors d))"
    using first_row_Some [OF m(1)] first_row_Some [OF m(2)] by auto
  have stored: thesis
    if eq: "CheckSite net sid d = lift_sql (persist res d)" and "chk_site res = sid" "chk_monitor res = mon_id m" for res
  proof -
    from that(2,3) fk have "chk_site res \<in> set (site_ids d)" "chk_monitor res \<in> set (map mon_id (db_monitors d))" by simp_all
    then obtain d' i where p: "persist res d = (Inr (res\<lparr>chk_id := i\<rparr>), d')" "monitor_inv d'"
      "db_checks d' = db_checks d @ [res\<lparr>chk_id := i\<rparr>]" "db_sites d' = db_sites d" "db_monitors d' = db_monitors d"
      "db_headers d' = db_headers d"
      using persist_inv [OF inv _ _ small] by metis
    show thesis by (rule checked [of "res\<lparr>chk_id := i\<rparr>" d']) (use eq p that(2) in \<open>simp_all add: lift_sql_def\<close>)
  qed
  show ?thesis
  proof (cases "ex_parse ex")
    case (Inl e)
    then show ?thesis by (intro none [of e]) (simp add: ch check_def Let_def)
  next
    case u: (Inr u)
    show ?thesis
    proof (cases "ValidateURL (ex_guard ex) u")
      case (Inl e)
      show ?thesis by (rule stored [of "(blank_result sid (mon_id m) (site_url s) ex)\<lparr>chk_error_class := ''blocked'', chk_error := e\<rparr>"])
        (simp_all add: ch check_def u Inl blank_result_def)
    next
      case v: (Inr v)
      show ?thesis
      proof (cases "ex_request ex")
        case (Some e)
        then show ?thesis by (intro none [of e]) (simp add: ch check_def u v)
      next
        case rq: None
        define res where "res = (blank_result sid (mon_id m) (site_url s) ex)\<lparr>chk_latency := ex_latency ex\<rparr>"
        show ?thesis
        proof (cases "client_do (site_url s) ex")
          case (Inl e)
          show ?thesis by (rule stored [of "res\<lparr>chk_error_class := classifyError e, chk_error := fst e\<rparr>"])
            (simp_all add: ch check_def u v rq Inl res_def blank_result_def)
        next
          case (Inr ra)
          obtain rs ans where ra: "ra = (rs, ans)" by fastforce
          define out where "out = answered (mon_min m) (mon_max m) res ans"
          have o: "chk_site out = sid" "chk_monitor out = mon_id m" by (simp_all add: out_def answered_def res_def blank_result_def Let_def)
          then have "chk_site out \<in> set (site_ids d)" "chk_monitor out \<in> set (map mon_id (db_monitors d))" using fk by simp_all
          then obtain d1 i where p: "persist out d = (Inr (out\<lparr>chk_id := i\<rparr>), d1)" "monitor_inv d1"
            "db_checks d1 = db_checks d @ [out\<lparr>chk_id := i\<rparr>]" "db_sites d1 = db_sites d" "db_monitors d1 = db_monitors d"
            "db_headers d1 = db_headers d"
            using persist_inv [OF inv _ _ small] by metis
          have "chk_site (out\<lparr>chk_id := i\<rparr>) \<in> set (site_ids d1)" "chk_id (out\<lparr>chk_id := i\<rparr>) \<in> set (map chk_id (db_checks d1))"
            using p(3,4) o(1) fk(1) by simp_all
          then obtain obs where obs: "persistHTTPObservation (out\<lparr>chk_id := i\<rparr>) rs (ans_scheme ans) (ans_headers ans) d1 =
              (Inr obs, d1\<lparr>db_http_obs := db_http_obs d1 @ [obs]\<rparr>)" "monitor_inv (d1\<lparr>db_http_obs := db_http_obs d1 @ [obs]\<rparr>)"
            by (rule observation_inv [OF p(2)])
          show ?thesis
            by (rule checked [of "out\<lparr>chk_id := i\<rparr>" "d1\<lparr>db_http_obs := db_http_obs d1 @ [obs]\<rparr>"])
              (use p obs o in \<open>simp_all add: ch check_def u v rq Inr ra out_def res_def Let_def\<close>)
        qed
      qed
    qed
  qed
qed (rule none)

definition run_checks :: "(int \<times> (string \<Rightarrow> duration \<Rightarrow> exchange)) list \<Rightarrow> db \<Rightarrow> db" where
  "run_checks cs d = fold (\<lambda>(sid, net) d. snd (CheckSite net sid d)) cs d"

lemma CheckSite_inv:
  assumes "monitor_inv d" "int (length (db_checks d)) < 2 ^ 63 - 1"
  shows "monitor_inv (snd (CheckSite net sid d))" "length (db_checks (snd (CheckSite net sid d))) \<le> Suc (length (db_checks d))"
  by (rule CheckSite_cases [OF assms, of net sid]; use assms in simp)+

lemma run_checks_inv:
  "monitor_inv d \<Longrightarrow> int (length (db_checks d)) + int (length cs) < 2 ^ 63 \<Longrightarrow> monitor_inv (run_checks cs d)"
proof (induction cs arbitrary: d)
  case (Cons c cs)
  obtain sid net where c: "c = (sid, net)" by fastforce
  from Cons.prems have small: "int (length (db_checks d)) < 2 ^ 63 - 1" by simp
  note step = CheckSite_inv [OF Cons.prems(1) small, of net sid]
  have "monitor_inv (run_checks cs (snd (CheckSite net sid d)))"
    by (rule Cons.IH) (use step Cons.prems(2) in auto)
  then show ?case by (simp add: run_checks_def c)
qed (simp add: run_checks_def)


subsection \<open>Properties\<close>

text \<open>C17. Health is a function of the history. Whatever checks run, on whatever sites and with whatever
  network behaviour, the health row of every site says exactly what the results of that site say: the
  number of failures since the last success, the state (unknown before any check, healthy after a
  success, degraded or warning after one failure, down after two or more) and the last check; and the site
  has an open incident, in that same state, exactly while the state is neither unknown nor healthy.\<close>

theorem health_follows_history:
  assumes "monitor_inv d" "int (length (db_checks d)) + int (length cs) < 2 ^ 63" "h \<in> set (db_health (run_checks cs d))"
  shows "hl_fails h = int (fails_of (site_checks (hl_site h) (run_checks cs d))) \<and>
    hl_state h = state_of (site_checks (hl_site h) (run_checks cs d)) \<and>
    (open_of (hl_site h) (run_checks cs d) = {}) = (hl_state h \<in> {''healthy'', ''unknown''}) \<and>
    (\<forall>i \<in> open_of (hl_site h) (run_checks cs d). inc_state i = hl_state h)"
  using run_checks_inv [OF assms(1,2)] assms(3)
  unfolding monitor_inv_def health_tracks_def row_tracks_def Let_def by auto

lemma sample_monitor_inv: "monitor_inv sample_db"
  by (simp add: monitor_inv_def health_tracks_def row_tracks_def) (simp add: sample_db_def init_db_def site_checks_def open_of_def state_of_def)

definition sample_guard :: Guard where
  "sample_guard = \<lparr>Resolver = \<lambda>h. Inr [v4 93 184 216 34], AllowPrivate = False\<rparr>"

definition sample_exchange :: "(string \<times> bool, http_answer) result \<Rightarrow> string \<Rightarrow> exchange" where
  "sample_exchange out at = \<lparr>ex_parse = Inr \<lparr>u_scheme = ''https'', u_hostname = ''shop.example''\<rparr>, ex_guard = sample_guard,
     ex_request = None, ex_hops = [], ex_end = out, ex_latency = 5, ex_at = at\<rparr>"

lemma sample_valid: "ValidateURL sample_guard \<lparr>u_scheme = ''https'', u_hostname = ''shop.example''\<rparr> = Inr ()"
proof -
  have "\<not> Blocked (V4 1572395042)" unfolding Blocked_V4 by (simp add: blocked_v4_def quad_def)
  then show ?thesis unfolding ValidateURL_ok by (simp add: sample_guard_def v4_def)
qed

theorem health_follows_history_witness:
  "let d = run_checks [(7, \<lambda>u t. sample_exchange (Inl (''refused'', False)) ''t1'')] sample_db
   in \<forall>h \<in> set (db_health d). hl_state h = state_of (site_checks (hl_site h) d)"
proof -
  have "int (length (db_checks sample_db)) + int (length [(7 :: int, \<lambda>(u :: string) (t :: duration). sample_exchange (Inl (''refused'', False)) ''t1'')]) < 2 ^ 63"
    by (simp add: sample_db_def init_db_def)
  note health_follows_history [OF sample_monitor_inv this]
  from conjunct1 [OF conjunct2 [OF this]] show ?thesis unfolding Let_def by (rule ballI)
qed

lemma follow_redirects_ok:
  "follow_redirects via hops rs = Inr rs' \<Longrightarrow> rs' = rs @ map hop_url hops \<and> (hops = [] \<or> via + length hops \<le> 10) \<and>
     (\<forall>h \<in> set hops. ValidateURL (hop_guard h) (hop_parsed h) = Inr ())"
  by (induction via hops rs rule: follow_redirects.induct) (auto split: if_splits sum.splits)

text \<open>C18. A response is accepted only at the end of a chain of at most ten requests, each of whose redirect
  targets the guard validated with the answers of its own moment: an http or https URL whose host
  resolved only to allowed addresses.\<close>

theorem redirects_are_guarded:
  assumes "client_do raw ex = Inr (redirects, ans)"
  shows "redirects = raw # map hop_url (ex_hops ex) \<and> length redirects \<le> 10 \<and>
    (\<forall>h \<in> set (ex_hops ex). u_scheme (hop_parsed h) \<in> {''http'', ''https''} \<and>
       (\<exists>ips. Resolver (hop_guard h) (u_hostname (hop_parsed h)) = Inr ips \<and> ips \<noteq> [] \<and>
          (\<forall>ip \<in> set ips. AllowPrivate (hop_guard h) \<or> \<not> Blocked ip)))"
proof -
  from assms have f: "follow_redirects 1 (ex_hops ex) [raw] = Inr redirects"
    by (auto simp: client_do_def split: sum.splits prod.splits)
  from follow_redirects_ok [OF f] show ?thesis by (auto simp: ValidateURL_ok)
qed

theorem redirects_are_guarded_witness:
  "let a = \<lparr>ans_status = 200, ans_body = 3, ans_url = ''https://shop.example/'', ans_scheme = Some ''https'', ans_headers = []\<rparr>;
       ex = sample_exchange (Inr a) ''t'';
       ex' = ex\<lparr>ex_hops := [\<lparr>hop_url = ''https://shop.example/'', hop_parsed = \<lparr>u_scheme = ''https'', u_hostname = ''shop.example''\<rparr>, hop_guard = sample_guard\<rparr>]\<rparr>
   in \<exists>rs. client_do ''http://shop.example/'' ex' = Inr (rs, a) \<and> length rs \<le> 10"
proof -
  let ?a = "\<lparr>ans_status = 200, ans_body = 3, ans_url = ''https://shop.example/'', ans_scheme = Some ''https'', ans_headers = []\<rparr>"
  let ?ex = "(sample_exchange (Inr ?a) ''t'')\<lparr>ex_hops := [\<lparr>hop_url = ''https://shop.example/'', hop_parsed = \<lparr>u_scheme = ''https'', u_hostname = ''shop.example''\<rparr>, hop_guard = sample_guard\<rparr>]\<rparr>"
  have "client_do ''http://shop.example/'' ?ex = Inr ([''http://shop.example/'', ''https://shop.example/''], ?a)"
    by (simp add: client_do_def sample_exchange_def sample_valid)
  from redirects_are_guarded [OF this] this show ?thesis unfolding Let_def by blast
qed

lemma client_do_fails: "ex_end ex = Inl x \<Longrightarrow> \<exists>e. client_do raw ex = Inl e"
  by (cases "follow_redirects 1 (ex_hops ex) [raw]") (auto simp: client_do_def split: prod.splits)

text \<open>C19. A check whose context is cancelled while the request is in flight is not dropped: for any enabled
  site it is stored as a failed result and drives the health and the incident of the site like an outage,
  also when the cancellation comes from losing the claim to another worker.\<close>

theorem cancelled_check_is_stored:
  assumes inv: "monitor_inv d" "int (length (db_checks d)) < 2 ^ 63 - 1"
    and site: "s \<in> set (db_sites d)" "site_id s = sid" "site_enabled s" "site_archived s = None"
    and mon: "m \<in> set (db_monitors d)" "mon_site m = sid"
    and net: "\<And>u t. ex_parse (net u t) = Inr p" "\<And>u t. ValidateURL (ex_guard (net u t)) p = Inr ()"
      "\<And>u t. ex_request (net u t) = None" "\<And>u t. ex_end (net u t) = Inl (''context canceled'', False)"
  shows "\<exists>r d'. CheckSite net sid d = (Inr r, d') \<and> \<not> chk_ok r \<and> db_checks d' = db_checks d @ [r] \<and> chk_site r = sid \<and>
    state_of (site_checks sid d') \<notin> {''healthy'', ''unknown''} \<and> open_of sid d' \<noteq> {}"
proof -
  let ?on = "\<lambda>m. mon_site m = sid \<and> (\<exists>s \<in> set (db_sites d). site_id s = sid \<and> site_enabled s \<and> site_archived s = None)"
  have "first_row ?on (db_monitors d) \<noteq> None" "first_row (\<lambda>s. site_id s = sid) (db_sites d) \<noteq> None"
    using site mon unfolding first_row_None by auto
  then obtain m' s' where m': "first_row ?on (db_monitors d) = Some m'" "first_row (\<lambda>s. site_id s = sid) (db_sites d) = Some s'"
    by blast
  obtain e where e: "client_do (site_url s') (net (site_url s') (check_timeout (mon_timeout m'))) = Inl e"
    using client_do_fails [OF net(4)] by blast
  define ex where "ex = net (site_url s') (check_timeout (mon_timeout m'))"
  define res where "res = (blank_result sid (mon_id m') (site_url s') ex)\<lparr>chk_latency := ex_latency ex, chk_error_class := classifyError e, chk_error := fst e\<rparr>"
  have res: "chk_site res = sid" "chk_monitor res = mon_id m'" "\<not> chk_ok res" by (simp_all add: res_def blank_result_def)
  have form: "CheckSite net sid d = lift_sql (persist res d)"
    using m' e net(1-3) by (simp add: CheckSite_def check_def Let_def res_def ex_def)
  have fk: "chk_site res \<in> set (site_ids d)" "chk_monitor res \<in> set (map mon_id (db_monitors d))"
    using first_row_Some [OF m'(1)] first_row_Some [OF m'(2)] res by (auto intro: rev_image_eqI)
  obtain d' i where r: "persist res d = (Inr (res\<lparr>chk_id := i\<rparr>), d')" "monitor_inv d'" "db_checks d' = db_checks d @ [res\<lparr>chk_id := i\<rparr>]"
    by (rule persist_inv [OF inv(1) fk inv(2)])
  have sc: "site_checks sid d' = site_checks sid d @ [res\<lparr>chk_id := i\<rparr>]" using r(3) res(1) by (simp add: site_checks_def)
  have st: "state_of (site_checks sid d') \<notin> {''healthy'', ''unknown''}"
    unfolding state_of_quiet sc using res(3) by simp
  have out: "CheckSite net sid d = (Inr (res\<lparr>chk_id := i\<rparr>), d')" using form r(1) by (simp add: lift_sql_def)
  from row_for_site(3) [OF r(2), of sid] st have "open_of sid d' \<noteq> {}" by blast
  then show ?thesis
    by (intro exI [of _ "res\<lparr>chk_id := i\<rparr>"] exI [of _ d'] conjI out r(3) st) (use res in simp_all)
qed

theorem cancelled_check_is_stored_witness:
  "\<exists>r d'. CheckSite (\<lambda>u t. sample_exchange (Inl (''context canceled'', False)) ''t1'') 7 sample_db = (Inr r, d') \<and> \<not> chk_ok r \<and> open_of 7 d' \<noteq> {}"
proof -
  let ?net = "\<lambda>(u :: string) (t :: duration). sample_exchange (Inl (''context canceled'', False)) ''t1''"
  have rows: "hd (db_sites sample_db) \<in> set (db_sites sample_db)" "site_id (hd (db_sites sample_db)) = 7" "site_enabled (hd (db_sites sample_db))"
    "site_archived (hd (db_sites sample_db)) = None" "hd (db_monitors sample_db) \<in> set (db_monitors sample_db)"
    "mon_site (hd (db_monitors sample_db)) = 7" "int (length (db_checks sample_db)) < 2 ^ 63 - 1"
    by (simp_all add: sample_db_def init_db_def)
  have net: "ex_parse (?net u t) = Inr \<lparr>u_scheme = ''https'', u_hostname = ''shop.example''\<rparr>" "ex_request (?net u t) = None"
    "ex_end (?net u t) = Inl (''context canceled'', False)"
    "ValidateURL (ex_guard (?net u t)) \<lparr>u_scheme = ''https'', u_hostname = ''shop.example''\<rparr> = Inr ()" for u t
    by (simp_all add: sample_exchange_def sample_valid)
  from cancelled_check_is_stored [where net = ?net, OF sample_monitor_inv rows(7) rows(1-4) rows(5,6) net(1,4,2,3)]
  show ?thesis by blast
qed


subsection \<open>The observation history\<close>

lemma sort_key_snoc_max: "(\<And>x. x \<in> set xs \<Longrightarrow> k x < k y) \<Longrightarrow> sort_key k (xs @ [y]) = sort_key k xs @ [y]" for k :: "'a \<Rightarrow> 'b::linorder"
proof (induction xs)
  case (Cons x xs)
  have *: "insort_key k x (zs @ [y]) = insort_key k x zs @ [y]" if "k x < k y" for zs
    using that by (induction zs) auto
  from Cons show ?case by (simp add: *)
qed simp

text \<open>What a check observed is read back as it was: the newest entry of the history is the observation just
  stored, with its redirect chain, the selected headers and the list of missing headers, whose names
  survive the newline-separated column.\<close>

theorem observation_round_trip:
  assumes "persistHTTPObservation res redirects scheme h d = (Inr obs, d')"
    and "\<And>x. x \<in> set (db_headers d) \<Longrightarrow> hx_name x \<noteq> [] \<and> CHR 0x0A \<notin> set (hx_name x)"
  shows "\<exists>older. HTTPHistory (chk_site res) d' =
    \<lparr>hob_id = ho_id obs, hob_site = chk_site res, hob_check = chk_id res, hob_chain = redirects, hob_headers = selected_headers h,
     hob_missing = missing_headers (chk_site res) scheme h d, hob_changed = ho_changed obs, hob_at = chk_at res\<rparr> # older"
proof -
  define missing where "missing = missing_headers (chk_site res) scheme h d"
  from assms(1) have d': "d' = d\<lparr>db_http_obs := db_http_obs d @ [obs]\<rparr>" and o: "ho_id obs = fresh_id (map ho_id (db_http_obs d))"
      "ho_site obs = chk_site res" "ho_check obs = chk_id res" "ho_chain obs = redirects" "ho_headers obs = selected_headers h"
      "ho_missing obs = join_str newline missing" "ho_at obs = chk_at res"
    unfolding persistHTTPObservation_def Let_def missing_def by (auto split: if_splits)
  have names: "x \<noteq> [] \<and> CHR 0x0A \<notin> set x" if "x \<in> set missing" for x
    using that assms(2) by (auto simp: missing_def missing_headers_def)
  have "(if ho_missing obs = '''' then [] else split_char (CHR 0x0A) (ho_missing obs)) = missing"
  proof (cases "missing = []")
    case False
    then have "ho_missing obs \<noteq> ''''" using names unfolding o(6) newline_def join_str_eq_Nil by auto
    moreover have "split_char (CHR 0x0A) (ho_missing obs) = missing"
      unfolding o(6) newline_def using False names by (intro split_join) blast+
    ultimately show ?thesis by simp
  qed (simp add: o(6))
  moreover have "ho_id x < ho_id obs" if "x \<in> set (filter (\<lambda>o'. ho_site o' = chk_site res) (db_http_obs d))" for x
    using that fresh_id_gt [of "ho_id x" "map ho_id (db_http_obs d)"] by (auto simp: o(1))
  then have "sort_key ho_id (filter (\<lambda>o'. ho_site o' = chk_site res) (db_http_obs d @ [obs])) =
      sort_key ho_id (filter (\<lambda>o'. ho_site o' = chk_site res) (db_http_obs d)) @ [obs]"
    using sort_key_snoc_max [of "filter (\<lambda>o'. ho_site o' = chk_site res) (db_http_obs d)" ho_id obs] o(2) by simp
  ultimately show ?thesis
    unfolding HTTPHistory_def d' by (simp add: obs_of_row_def o missing_def take_Cons')
qed

theorem observation_round_trip_witness:
  "\<exists>older. HTTPHistory 7 (snd (persistHTTPObservation
     \<lparr>chk_id = 1, chk_site = 7, chk_monitor = 1, chk_ok = True, chk_status = 200, chk_latency = 5, chk_bytes = 3, chk_final_url = ''https://shop.example/'',
      chk_error_class = '''', chk_error = '''', chk_at = ''t''\<rparr> [''https://shop.example/''] (Some ''https'') [(''Server'', ''x'')]
     (sample_db\<lparr>db_checks := [\<lparr>chk_id = 1, chk_site = 7, chk_monitor = 1, chk_ok = True, chk_status = 200, chk_latency = 5, chk_bytes = 3, chk_final_url = ''u'', chk_error_class = '''', chk_error = '''', chk_at = ''t''\<rparr>],
        db_headers := [\<lparr>hx_id = 1, hx_site = 7, hx_name = ''Referrer-Policy'', hx_required = True\<rparr>]\<rparr>))) =
    \<lparr>hob_id = 1, hob_site = 7, hob_check = 1, hob_chain = [''https://shop.example/''], hob_headers = [(''Server'', ''x'')],
     hob_missing = [''Referrer-Policy''], hob_changed = False, hob_at = ''t''\<rparr> # older"
proof -
  define res where "res = \<lparr>chk_id = 1, chk_site = 7, chk_monitor = 1, chk_ok = True, chk_status = 200, chk_latency = 5, chk_bytes = 3, chk_final_url = ''https://shop.example/'',
      chk_error_class = '''', chk_error = '''', chk_at = ''t''\<rparr>"
  define d where "d = sample_db\<lparr>db_checks := [\<lparr>chk_id = 1, chk_site = 7, chk_monitor = 1, chk_ok = True, chk_status = 200, chk_latency = 5, chk_bytes = 3, chk_final_url = ''u'', chk_error_class = '''', chk_error = '''', chk_at = ''t''\<rparr>],
        db_headers := [\<lparr>hx_id = 1, hx_site = 7, hx_name = ''Referrer-Policy'', hx_required = True\<rparr>]\<rparr>"
  have sel: "selected_headers [(''Server'', ''x'')] = [(''Server'', ''x'')]"
    by (simp add: selected_headers_def selected_names_def header_get_def header_eval)
  have mis: "missing_headers 7 (Some ''https'') [(''Server'', ''x'')] d = [''Referrer-Policy'']"
    by (simp add: missing_headers_def d_def header_get_def header_eval)
  obtain obs where obs: "persistHTTPObservation res [''https://shop.example/''] (Some ''https'') [(''Server'', ''x'')] d = (Inr obs, d\<lparr>db_http_obs := [obs]\<rparr>)"
    "ho_id obs = 1" "\<not> ho_changed obs"
    by (simp add: persistHTTPObservation_def Let_def res_def d_def sample_db_def init_db_def latest_def fresh_id_def)
  have names: "hx_name x \<noteq> [] \<and> CHR 0x0A \<notin> set (hx_name x)" if "x \<in> set (db_headers d)" for x
    using that by (simp add: d_def)
  have s: "chk_site res = 7" "chk_id res = 1" "chk_at res = ''t''" by (simp_all add: res_def)
  from observation_round_trip [OF obs(1) names] show ?thesis
    unfolding res_def [symmetric] d_def [symmetric] obs(1) snd_conv s sel mis obs(2) using obs(3) by simp
qed


text \<open>The class \<^verbatim>\<open>blocked\<close> is given only to the site's own URL: the error of a guarded redirect never contains
  the words the classification looks for, and is reported as a DNS failure.\<close>

lemma blocked_redirect_reported_as_dns:
  "classifyError (url_error_text ''http://a.example/'' (''target resolved to blocked address 10.0.0.1''), False) = ''dns''"
  by (simp add: classifyError_def url_error_text_def str_simps)

end
