(* ===== verification/Observations.thy ===== *)
theory Observations
  imports Monitor "HOL-Library.Multiset"
begin

text \<open>
  Certificate and DNS observations, \<^verbatim>\<open>internal/tlshealth/tlshealth.go\<close> and \<^verbatim>\<open>internal/dnsobs/dns.go\<close>: two
  histories per site, kept beside the tables of the fleet. The network's answers are inputs.
\<close>

record tls_row =
  tl_id :: int
  tl_site :: int
  tl_valid :: bool
  tl_hostname_valid :: bool
  tl_issuer :: string
  tl_subject :: string
  tl_serial :: string
  tl_not_before :: string
  tl_not_after :: string
  tl_days :: int
  tl_error_class :: string
  tl_error :: string
  tl_checked :: string

record dns_row =
  dn_id :: int
  dn_site :: int
  dn_a :: string
  dn_aaaa :: string
  dn_cname :: string
  dn_status :: string
  dn_changed :: bool
  dn_error :: string
  dn_checked :: string

record obs_tables =
  ob_tls :: "tls_row list"
  ob_dns :: "dns_row list"

subsection \<open>Certificates\<close>

record certificate =
  ce_hostname_ok :: bool
  ce_issuer :: string
  ce_subject :: string
  ce_serial :: string
  ce_not_before :: string
  ce_not_after :: string
  ce_expires_in :: duration

text \<open>What the network does during one inspection.\<close>

record 'c inspection =
  in_parse :: "(string, string \<times> string \<times> string) result"
  in_validate :: Guard
  in_guard :: Guard
  in_dial :: "addr \<Rightarrow> (string, 'c) result"
  in_handshake :: "'c \<Rightarrow> (string, certificate list) result"
  in_at :: string

definition JoinHostPort :: "string \<Rightarrow> string \<Rightarrow> string" where
  "JoinHostPort host port =
     (if CHR '':'' \<in> set host \<or> CHR ''%'' \<in> set host then ''['' @ host @ '']:'' @ port else host @ '':'' @ port)"

definition blank_tls :: "int \<Rightarrow> string \<Rightarrow> tls_row" where
  "blank_tls sid at = \<lparr>tl_id = 0, tl_site = sid, tl_valid = False, tl_hostname_valid = False, tl_issuer = '''', tl_subject = '''',
     tl_serial = '''', tl_not_before = '''', tl_not_after = '''', tl_days = 0, tl_error_class = '''', tl_error = '''', tl_checked = at\<rparr>"

definition persist_tls :: "db \<Rightarrow> tls_row \<Rightarrow> obs_tables \<Rightarrow> (check_error, tls_row) result \<times> obs_tables" where
  "persist_tls d o1 t =
     (if tl_site o1 \<notin> set (site_ids d) then (Inl (Sql ForeignKeyViolation), t)
      else let o2 = o1\<lparr>tl_id := fresh_id (map tl_id (ob_tls t))\<rparr> in (Inr o2, t\<lparr>ob_tls := ob_tls t @ [o2]\<rparr>))"

definition certificate_observed :: "certificate \<Rightarrow> tls_row \<Rightarrow> tls_row" where
  "certificate_observed c o1 =
     o1\<lparr>tl_valid := ce_hostname_ok c, tl_hostname_valid := ce_hostname_ok c, tl_issuer := ce_issuer c, tl_subject := ce_subject c,
        tl_serial := ce_serial c, tl_not_before := ce_not_before c, tl_not_after := ce_not_after c,
        tl_days := go_div (ce_expires_in c) (24 * hour),
        tl_error_class := (if ce_hostname_ok c then '''' else ''hostname''),
        tl_error := (if ce_hostname_ok c then '''' else ''certificate hostname mismatch'')\<rparr>"

definition InspectSite :: "'c inspection \<Rightarrow> int \<Rightarrow> db \<Rightarrow> obs_tables \<Rightarrow> (check_error, tls_row) result \<times> obs_tables" where
  "InspectSite w sid d t =
     (case first_row (\<lambda>s. site_id s = sid) (db_sites d) of
        None \<Rightarrow> (Inl (Failed ''site not found''), t)
      | Some s \<Rightarrow>
          (case in_parse w of
             Inl e \<Rightarrow> (Inl (Failed e), t)
           | Inr (scheme, host, port) \<Rightarrow>
               let obs = blank_tls sid (in_at w);
                   failed = \<lambda>cls e. persist_tls d (obs\<lparr>tl_error_class := cls, tl_error := e\<rparr>) t
               in if scheme \<noteq> ''https'' then failed ''not_https'' ''site does not use HTTPS''
                  else case ValidateHost (in_validate w) host of
                    Inl e \<Rightarrow> failed ''blocked'' e
                  | Inr _ \<Rightarrow>
                      (case fst (DialContext (in_guard w) (in_dial w) (JoinHostPort host (if port = '''' then ''443'' else port))) of
                         Inl e \<Rightarrow> failed ''connection'' (dial_error_text e)
                       | Inr c \<Rightarrow>
                           (case in_handshake w c of
                              Inl e \<Rightarrow> failed ''tls'' e
                            | Inr [] \<Rightarrow> failed ''tls'' ''server returned no certificate''
                            | Inr (cert # _) \<Rightarrow> persist_tls d (certificate_observed cert obs) t))))"

definition LatestTLS :: "int \<Rightarrow> obs_tables \<Rightarrow> (string, tls_row) result" where
  "LatestTLS sid t = (case latest (\<lambda>o1. tl_site o1 = sid) tl_id (ob_tls t) of
     None \<Rightarrow> Inl ''no TLS observation'' | Some o1 \<Rightarrow> Inr o1)"

definition FleetWarnings :: "int \<Rightarrow> int \<Rightarrow> db \<Rightarrow> obs_tables \<Rightarrow> tls_row list" where
  "FleetWarnings org days d t =
     (let days = (if days < 1 then 30 else days)
      in sort_key tl_days (filter (\<lambda>o1. \<not> (\<exists>o2 \<in> set (ob_tls t). tl_site o2 = tl_site o1 \<and> tl_id o1 < tl_id o2) \<and>
           (\<exists>s \<in> set (db_sites d). site_id s = tl_site o1 \<and> site_org s = org) \<and> (\<not> tl_valid o1 \<or> tl_days o1 \<le> days)) (ob_tls t)))"

subsection \<open>DNS\<close>

record dns_answer =
  da_parse :: "(string, string) result"
  da_ips :: "(string, addr list) result"
  da_cname :: "string option"
  da_allow_private :: bool
  da_at :: string

text \<open>The fields of an \<^verbatim>\<open>Observation\<close> that the columns do not hold as they are.\<close>

record dns_obs =
  dob_id :: int
  dob_a :: "string list"
  dob_aaaa :: "string list"
  dob_cname :: string

definition split_records :: "string \<Rightarrow> string list" where
  "split_records s = (if s = '''' then [] else split_char (CHR '','') s)"

definition dns_of_row :: "dns_row \<Rightarrow> dns_obs" where
  "dns_of_row r = \<lparr>dob_id = dn_id r, dob_a = split_records (dn_a r), dob_aaaa = split_records (dn_aaaa r), dob_cname = dn_cname r\<rparr>"

definition trim_dot :: "string \<Rightarrow> string" where
  "trim_dot s = (if has_suffix s ''.'' then butlast s else s)"

definition is4 :: "addr \<Rightarrow> bool" where
  "is4 ip = (case ip of V4 w \<Rightarrow> True | V6 w z \<Rightarrow> False)"

definition persist_dns :: "db \<Rightarrow> dns_row \<Rightarrow> obs_tables \<Rightarrow> (check_error, dns_row) result \<times> obs_tables" where
  "persist_dns d o1 t =
     (if dn_site o1 \<notin> set (site_ids d) then (Inl (Sql ForeignKeyViolation), t)
      else let o2 = o1\<lparr>dn_id := fresh_id (map dn_id (ob_dns t))\<rparr> in (Inr o2, t\<lparr>ob_dns := ob_dns t @ [o2]\<rparr>))"

definition LatestDNS :: "int \<Rightarrow> obs_tables \<Rightarrow> (string, dns_row) result" where
  "LatestDNS sid t = (case latest (\<lambda>o1. dn_site o1 = sid) dn_id (ob_dns t) of
     None \<Rightarrow> Inl ''no DNS observation'' | Some o1 \<Rightarrow> Inr o1)"

definition LatestSuccessful :: "int \<Rightarrow> obs_tables \<Rightarrow> (string, dns_obs) result" where
  "LatestSuccessful sid t = (case latest (\<lambda>o1. dn_site o1 = sid \<and> dn_status o1 = ''ok'') dn_id (ob_dns t) of
     None \<Rightarrow> Inl ''no successful DNS observation'' | Some o1 \<Rightarrow> Inr (dns_of_row o1))"

definition DNSHistory :: "int \<Rightarrow> obs_tables \<Rightarrow> dns_row list" where
  "DNSHistory sid t = take 50 (rev (sort_key dn_id (filter (\<lambda>o1. dn_site o1 = sid) (ob_dns t))))"

text \<open>The addresses read before the first blocked one.\<close>

definition allowed_front :: "dns_answer \<Rightarrow> addr list \<Rightarrow> addr list" where
  "allowed_front w ips = map addr_unmap (takeWhile (\<lambda>ip. da_allow_private w \<or> \<not> Blocked ip) ips)"

definition observed_cname :: "dns_answer \<Rightarrow> string \<Rightarrow> string" where
  "observed_cname w host = (case da_cname w of
     None \<Rightarrow> ''''
   | Some c \<Rightarrow> if trim_dot (to_lower c) \<noteq> trim_dot (to_lower host) then trim_dot c else '''')"

definition dns_changed :: "string list \<Rightarrow> string list \<Rightarrow> string \<Rightarrow> (string, dns_obs) result \<Rightarrow> bool" where
  "dns_changed a aaaa cname prev = (case prev of
     Inl _ \<Rightarrow> False
   | Inr p \<Rightarrow> 0 < dob_id p \<and> (join_str '','' (dob_a p) \<noteq> join_str '','' a \<or> join_str '','' (dob_aaaa p) \<noteq> join_str '','' aaaa \<or> dob_cname p \<noteq> cname))"

definition ObserveSite :: "dns_answer \<Rightarrow> int \<Rightarrow> db \<Rightarrow> obs_tables \<Rightarrow> (check_error, dns_row) result \<times> obs_tables" where
  "ObserveSite w sid d t =
     (case first_row (\<lambda>s. site_id s = sid) (db_sites d) of
        None \<Rightarrow> (Inl (Failed ''site not found''), t)
      | Some s \<Rightarrow>
          (case da_parse w of
             Inl e \<Rightarrow> (Inl (Failed e), t)
           | Inr host \<Rightarrow>
               let row = \<lambda>a aaaa cname status changed e. \<lparr>dn_id = 0, dn_site = sid, dn_a = join_str '','' a, dn_aaaa = join_str '','' aaaa,
                           dn_cname = cname, dn_status = status, dn_changed = changed, dn_error = e, dn_checked = da_at w\<rparr>
               in case da_ips w of
                    Inl e \<Rightarrow> persist_dns d (row [] [] '''' ''error'' False e) t
                  | Inr ips \<Rightarrow>
                      (let front = allowed_front w ips;
                           a = map addr_string (filter is4 front);
                           aaaa = map addr_string (filter (\<lambda>ip. \<not> is4 ip) front)
                       in if length front < length ips then
                            persist_dns d (row a aaaa '''' ''blocked'' False ''hostname resolved to a private/reserved address'') t
                          else
                            (let a = sort a; aaaa = sort aaaa; cname = observed_cname w host
                             in persist_dns d (row a aaaa cname ''ok'' (dns_changed a aaaa cname (LatestSuccessful sid t)) '''') t))))"

subsection \<open>Properties\<close>

lemma persist_tls_Inr:
  "persist_tls d o1 t = (Inr r, t') \<Longrightarrow> tl_site o1 \<in> set (site_ids d) \<and> r = o1\<lparr>tl_id := fresh_id (map tl_id (ob_tls t))\<rparr> \<and>
     t' = t\<lparr>ob_tls := ob_tls t @ [r]\<rparr>"
  by (auto simp: persist_tls_def Let_def split: if_splits)

text \<open>C20. A certificate is recorded as valid only when the site uses HTTPS, the guard accepted its host and then
  dialled only allowed addresses, the handshake with the connection it got succeeded, and the first
  certificate presented matches the host name.\<close>

theorem valid_certificate_verified:
  assumes "InspectSite w sid d t = (Inr r, t')" "tl_valid r" "\<not> AllowPrivate (in_guard w)"
  shows "\<exists>host port c cert rest tried. in_parse w = Inr (''https'', host, port) \<and> ValidateHost (in_validate w) host = Inr () \<and>
    DialContext (in_guard w) (in_dial w) (JoinHostPort host (if port = '''' then ''443'' else port)) = (Inr c, tried) \<and>
    tried \<noteq> [] \<and> in_dial w (last tried) = Inr c \<and> \<not> Blocked (last tried) \<and>
    in_handshake w c = Inr (cert # rest) \<and> ce_hostname_ok cert \<and> tl_days r = go_div (ce_expires_in cert) (24 * hour)"
proof -
  have bad: "persist_tls d ((blank_tls sid (in_at w))\<lparr>tl_error_class := k, tl_error := e\<rparr>) t \<noteq> (Inr r, t')" for k e
    using persist_tls_Inr assms(2) by (fastforce simp: blank_tls_def)
  obtain host port where p: "in_parse w = Inr (''https'', host, port)" and v: "ValidateHost (in_validate w) host = Inr ()"
    using assms(1) by (auto simp: InspectSite_def Let_def bad split: option.splits sum.splits if_splits)
  obtain x tried where x: "DialContext (in_guard w) (in_dial w) (JoinHostPort host (if port = '''' then ''443'' else port)) = (x, tried)"
    by fastforce
  obtain c cert rest where c: "x = Inr c" "in_handshake w c = Inr (cert # rest)"
    and r: "persist_tls d (certificate_observed cert (blank_tls sid (in_at w))) t = (Inr r, t')"
    using assms(1) x by (auto simp: InspectSite_def Let_def p v bad split: option.splits sum.splits if_splits list.splits)
  have "tried \<noteq> []"
  proof
    assume "tried = []"
    with x c(1) show False
      by (auto simp: DialContext_def Let_def split: option.splits sum.splits if_splits dest!: dial_first_tried)
  qed
  from dial_only_allowed [OF assms(3) x this] c(1) \<open>tried \<noteq> []\<close> have "\<not> Blocked (last tried)" "in_dial w (last tried) = Inr c" by auto
  with persist_tls_Inr [OF r] assms(2) p v x c \<open>tried \<noteq> []\<close> show ?thesis by (auto simp: certificate_observed_def)
qed

lemma join_split: "join_str [sep] (split_char sep s) = s"
proof (induction s)
  case (Cons c cs)
  obtain w ws where "split_char sep cs = w # ws" by (meson neq_Nil_conv split_char_neq_Nil)
  with Cons show ?case by (cases ws) auto
qed simp

lemma join_split_records: "join_str '','' (split_records s) = s"
  by (simp add: split_records_def join_split)

lemma latest_snoc_max:
  assumes "\<And>x. x \<in> set rs \<Longrightarrow> k x < k r" "P r"
  shows "latest P k (rs @ [r]) = Some r"
proof -
  have "sort_key k (filter P (rs @ [r])) = sort_key k (filter P rs) @ [r]"
    using assms sort_key_snoc_max [of "filter P rs" k r] by simp
  moreover have "(case ys @ [r] of [] \<Rightarrow> None | x # xs \<Rightarrow> Some (last (x # xs))) = Some r" for ys by (cases ys) simp_all
  ultimately show ?thesis unfolding latest_def by simp
qed

lemma persist_dns_Inr:
  "persist_dns d o1 t = (Inr r, t') \<Longrightarrow> r = o1\<lparr>dn_id := fresh_id (map dn_id (ob_dns t))\<rparr> \<and> t' = t\<lparr>ob_dns := ob_dns t @ [r]\<rparr>"
  by (auto simp: persist_dns_def Let_def split: if_splits)

lemma ObserveSite_ok:
  assumes "ObserveSite w sid d t = (Inr r, t')" "dn_status r = ''ok''"
  obtains ips host where "da_ips w = Inr ips" "da_parse w = Inr host" "t' = t\<lparr>ob_dns := ob_dns t @ [r]\<rparr>" "dn_site r = sid"
    "dn_id r = fresh_id (map dn_id (ob_dns t))" "\<forall>ip \<in> set ips. da_allow_private w \<or> \<not> Blocked ip"
    "dn_a r = join_str '','' (sort (map addr_string (filter is4 (map addr_unmap ips))))"
    "dn_aaaa r = join_str '','' (sort (map addr_string (filter (\<lambda>ip. \<not> is4 ip) (map addr_unmap ips))))"
    "dn_cname r = observed_cname w host"
    "dn_changed r = dns_changed (sort (map addr_string (filter is4 (map addr_unmap ips))))
        (sort (map addr_string (filter (\<lambda>ip. \<not> is4 ip) (map addr_unmap ips)))) (dn_cname r) (LatestSuccessful sid t)"
proof -
  obtain host ips where p: "da_parse w = Inr host" "da_ips w = Inr ips"
    using assms by (auto simp: ObserveSite_def Let_def split: option.splits sum.splits dest!: persist_dns_Inr)
  have full: "\<not> length (allowed_front w ips) < length ips"
    using assms p by (auto simp: ObserveSite_def Let_def split: option.splits dest!: persist_dns_Inr)
  have le: "length (takeWhile (\<lambda>ip. da_allow_private w \<or> \<not> Blocked ip) ips) \<le> length ips" by (rule length_takeWhile_le)
  with full have eq: "takeWhile (\<lambda>ip. da_allow_private w \<or> \<not> Blocked ip) ips = ips"
    by (metis (no_types, lifting) allowed_front_def le_neq_implies_less length_map takeWhile_eq_take take_all_iff order_refl)
  then have all: "\<forall>ip \<in> set ips. da_allow_private w \<or> \<not> Blocked ip" by (metis (no_types, lifting) set_takeWhileD)
  have front: "allowed_front w ips = map addr_unmap ips" unfolding allowed_front_def eq by (rule refl)
  show ?thesis
    using assms(1) full p by (intro that [OF p(2,1) _ _ _ all])
      (auto simp: ObserveSite_def Let_def front split: option.splits dest!: persist_dns_Inr)
qed

text \<open>DNS changes are neither missed nor invented: a successful observation is flagged as changed, compared
  with the successful one before it, exactly when one of the stored record columns differs; and the
  columns do not depend on the order in which the resolver lists the addresses.\<close>

theorem dns_change_exact:
  assumes "ObserveSite w sid d t = (Inr r, t1)" "dn_status r = ''ok''"
    and "ObserveSite w' sid d' t1 = (Inr r', t2)" "dn_status r' = ''ok''"
  shows "dn_changed r' = (dn_a r' \<noteq> dn_a r \<or> dn_aaaa r' \<noteq> dn_aaaa r \<or> dn_cname r' \<noteq> dn_cname r) \<and>
    (\<forall>ips ips'. da_ips w = Inr ips \<longrightarrow> da_ips w' = Inr ips' \<longrightarrow> mset ips = mset ips' \<longrightarrow> dn_a r' = dn_a r \<and> dn_aaaa r' = dn_aaaa r)"
proof -
  obtain ips host where 1: "da_ips w = Inr ips" "t1 = t\<lparr>ob_dns := ob_dns t @ [r]\<rparr>" "dn_site r = sid" "dn_id r = fresh_id (map dn_id (ob_dns t))"
    "dn_a r = join_str '','' (sort (map addr_string (filter is4 (map addr_unmap ips))))"
    "dn_aaaa r = join_str '','' (sort (map addr_string (filter (\<lambda>ip. \<not> is4 ip) (map addr_unmap ips))))"
    by (rule ObserveSite_ok [OF assms(1,2)])
  obtain ips' host' where 2: "da_ips w' = Inr ips'"
    "dn_a r' = join_str '','' (sort (map addr_string (filter is4 (map addr_unmap ips'))))"
    "dn_aaaa r' = join_str '','' (sort (map addr_string (filter (\<lambda>ip. \<not> is4 ip) (map addr_unmap ips'))))"
    "dn_changed r' = dns_changed (sort (map addr_string (filter is4 (map addr_unmap ips'))))
        (sort (map addr_string (filter (\<lambda>ip. \<not> is4 ip) (map addr_unmap ips')))) (dn_cname r') (LatestSuccessful sid t1)"
    by (rule ObserveSite_ok [OF assms(3,4)])
  have "latest (\<lambda>o1. dn_site o1 = sid \<and> dn_status o1 = ''ok'') dn_id (ob_dns t @ [r]) = Some r"
    by (rule latest_snoc_max) (use fresh_id_gt [of _ "map dn_id (ob_dns t)"] 1(3,4) assms(2) in auto)
  then have prev: "LatestSuccessful sid t1 = Inr (dns_of_row r)" by (simp add: LatestSuccessful_def 1(2))
  have "0 < dn_id r" using 1(4) by simp
  then have "dn_changed r' = (dn_a r' \<noteq> dn_a r \<or> dn_aaaa r' \<noteq> dn_aaaa r \<or> dn_cname r' \<noteq> dn_cname r)"
    unfolding 2(4) prev dns_changed_def dns_of_row_def by (simp add: join_split_records 2(2,3) [symmetric]) auto
  moreover have "dn_a r' = dn_a r \<and> dn_aaaa r' = dn_aaaa r" if "mset ips = mset ips'"
  proof -
    have s: "sort (map addr_string (filter P (map addr_unmap ips'))) = sort (map addr_string (filter P (map addr_unmap ips)))" for P
      by (rule properties_for_sort) (simp_all add: that)
    show ?thesis unfolding 1(5,6) 2(2,3) s by simp
  qed
  ultimately show ?thesis using 1(1) 2(1) by simp
qed


subsection \<open>Witnesses\<close>

definition sample_obs :: obs_tables where
  "sample_obs = \<lparr>ob_tls = [], ob_dns = []\<rparr>"

definition sample_cert :: certificate where
  "sample_cert = \<lparr>ce_hostname_ok = True, ce_issuer = ''i'', ce_subject = ''s'', ce_serial = ''1'', ce_not_before = ''a'', ce_not_after = ''b'',
     ce_expires_in = 48 * hour\<rparr>"

definition sample_inspection :: "unit inspection" where
  "sample_inspection = \<lparr>in_parse = Inr (''https'', ''shop.example'', ''''), in_validate = sample_guard, in_guard = sample_guard,
     in_dial = \<lambda>ip. Inr (), in_handshake = \<lambda>c. Inr [sample_cert], in_at = ''t''\<rparr>"

lemma public_v4 [simp]: "\<not> Blocked (V4 1572395042)"
  unfolding Blocked_V4 by (simp add: blocked_v4_def quad_def)

theorem valid_certificate_verified_witness:
  "\<exists>r. fst (InspectSite sample_inspection 7 sample_db sample_obs) = Inr r \<and> tl_valid r \<and> tl_days r = 2"
proof -
  obtain r t' where r: "InspectSite sample_inspection 7 sample_db sample_obs = (Inr r, t')" "tl_valid r"
    by (simp add: InspectSite_def sample_inspection_def sample_guard_def ValidateHost_def DialContext_def JoinHostPort_def SplitHostPort_def
      Let_def v4_def persist_tls_def certificate_observed_def sample_cert_def sample_db_def init_db_def sample_obs_def blank_tls_def)
  from valid_certificate_verified [OF r] have "tl_days r = go_div (ce_expires_in sample_cert) (24 * hour)"
    by (auto simp: sample_inspection_def sample_guard_def)
  with r show ?thesis by (simp add: sample_cert_def go_div_def)
qed

definition sample_answer :: "addr list \<Rightarrow> dns_answer" where
  "sample_answer ips = \<lparr>da_parse = Inr ''shop.example'', da_ips = Inr ips, da_cname = None, da_allow_private = True, da_at = ''t''\<rparr>"

theorem dns_change_exact_witness:
  "let w = sample_answer [v4 1 1 1 1, v4 2 2 2 2]; w' = sample_answer [v4 2 2 2 2, v4 1 1 1 1];
       (r, t1) = ObserveSite w 7 sample_db sample_obs; (r', t2) = ObserveSite w' 7 sample_db t1
   in \<exists>x. r' = Inr x \<and> \<not> dn_changed x"
proof -
  let ?w = "sample_answer [v4 1 1 1 1, v4 2 2 2 2]" and ?w' = "sample_answer [v4 2 2 2 2, v4 1 1 1 1]"
  have ok: "\<exists>r. ObserveSite (sample_answer ips) 7 sample_db t = (Inr r, t\<lparr>ob_dns := ob_dns t @ [r]\<rparr>) \<and> dn_status r = ''ok'' \<and> dn_cname r = ''''" for ips t
    by (simp add: ObserveSite_def sample_answer_def sample_db_def init_db_def allowed_front_def persist_dns_def Let_def observed_cname_def takeWhile_eq_all_conv [THEN iffD2])
  obtain r where r: "ObserveSite ?w 7 sample_db sample_obs = (Inr r, sample_obs\<lparr>ob_dns := ob_dns sample_obs @ [r]\<rparr>)" "dn_status r = ''ok''" "dn_cname r = ''''"
    using ok by blast
  define t1 where "t1 = sample_obs\<lparr>ob_dns := ob_dns sample_obs @ [r]\<rparr>"
  obtain r' where r': "ObserveSite ?w' 7 sample_db t1 = (Inr r', t1\<lparr>ob_dns := ob_dns t1 @ [r']\<rparr>)" "dn_status r' = ''ok''" "dn_cname r' = ''''"
    using ok by blast
  from dns_change_exact [OF r(1) [folded t1_def] r(2) r'(1,2)] have "\<not> dn_changed r'"
    using r(3) r'(3) by (simp add: sample_answer_def add.commute)
  then show ?thesis unfolding Let_def r(1) t1_def [symmetric] prod.case r'(1) by simp
qed

end
