(* ===== verification/Scheduler.thy ===== *)
theory Scheduler
  imports Claims Observations
begin

text \<open>
  The scheduler, \<^verbatim>\<open>internal/scheduler/scheduler.go\<close>: its settings, the fenced unit of work it runs per site,
  the renewal of the claim and the bounded pool of workers. Each unit is a sequence of atomic store
  operations; \<open>check_unit\<close> is the unit run without interference, the pool is a step relation.
  \<open>parse_time\<close> stands for \<^verbatim>\<open>time.Parse(time.RFC3339Nano, _)\<close>.
\<close>

record Scheduler =
  sc_interval :: duration
  sc_crawlInterval :: duration
  sc_concurrency :: int
  sc_owner :: string
  sc_checkTTL :: duration
  sc_crawlTTL :: duration

definition newScheduler :: "duration \<Rightarrow> duration \<Rightarrow> int \<Rightarrow> string \<Rightarrow> Scheduler" where
  "newScheduler interval crawlInterval concurrency owner =
     (let interval = (if interval \<le> 0 then minute else interval);
          crawlInterval = (if crawlInterval \<le> 0 then 6 * hour else crawlInterval);
          concurrency = (if concurrency < 1 then 1 else concurrency);
          checkTTL = wrap64 (2 * interval);
          checkTTL = (if checkTTL < minute then minute else checkTTL);
          crawlTTL = go_div crawlInterval 4;
          crawlTTL = (if crawlTTL < 30 * minute then 30 * minute else crawlTTL)
      in \<lparr>sc_interval = interval, sc_crawlInterval = crawlInterval, sc_concurrency = concurrency, sc_owner = owner,
          sc_checkTTL = checkTTL, sc_crawlTTL = crawlTTL\<rparr>)"

definition siteIDs :: "db \<Rightarrow> int list" where
  "siteIDs d = sort (map site_id (filter (\<lambda>s. site_enabled s \<and> site_archived s = None) (db_sites d)))"

definition observationDue :: "(string \<Rightarrow> instant option) \<Rightarrow> instant \<Rightarrow> string option \<Rightarrow> duration \<Rightarrow> bool" where
  "observationDue parse_time now checked maxAge =
     (case checked of
        None \<Rightarrow> True
      | Some text \<Rightarrow> (case parse_time text of None \<Rightarrow> True | Some t \<Rightarrow> maxAge < now - t))"

definition jitter :: "duration \<Rightarrow> int \<Rightarrow> duration" where
  "jitter d random =
     (let spread = go_div d 10; spread = (if spread < second then second else spread)
      in wrap64 (d - spread + random mod (2 * spread)))"

definition crawlWorkers :: "int \<Rightarrow> int" where
  "crawlWorkers concurrency = (let workers = go_div concurrency 2 in if workers < 1 then 1 else if 4 < workers then 4 else workers)"

subsection \<open>A unit of work\<close>

text \<open>The clock readings and the network during one unit.\<close>

record 'c check_work =
  cw_now :: instant
  cw_net :: "string \<Rightarrow> duration \<Rightarrow> exchange"
  cw_tls_now :: instant
  cw_tls :: "'c inspection"
  cw_dns_now :: instant
  cw_dns :: dns_answer
  cw_done :: instant

definition check_unit :: "(string \<Rightarrow> instant option) \<Rightarrow> Scheduler \<Rightarrow> 'c check_work \<Rightarrow> int \<Rightarrow> db \<times> obs_tables \<Rightarrow> db \<times> obs_tables" where
  "check_unit parse_time s w sid = (\<lambda>(d, t).
     case ClaimDue ''check'' sid (sc_owner s) (cw_now w) (cw_now w + sc_checkTTL s) d of
       (None, d1) \<Rightarrow> (d1, t)
     | (Some gen, d1) \<Rightarrow>
         (let d2 = snd (CheckSite (cw_net w) sid d1);
              t1 = (if observationDue parse_time (cw_tls_now w) (map_option tl_checked (latest (\<lambda>o1. tl_site o1 = sid) tl_id (ob_tls t))) (12 * hour)
                    then snd (InspectSite (cw_tls w) sid d2 t) else t);
              t2 = (if observationDue parse_time (cw_dns_now w) (map_option dn_checked (latest (\<lambda>o1. dn_site o1 = sid) dn_id (ob_dns t1))) hour
                    then snd (ObserveSite (cw_dns w) sid d2 t1) else t1)
          in (CompleteClaim ''check'' sid (sc_owner s) gen (cw_done w + sc_interval s) d2, t2)))"

definition RunOnce :: "(string \<Rightarrow> instant option) \<Rightarrow> Scheduler \<Rightarrow> (int \<Rightarrow> 'c check_work) \<Rightarrow> db \<times> obs_tables \<Rightarrow> db \<times> obs_tables" where
  "RunOnce parse_time s work dt = fold (\<lambda>sid. check_unit parse_time s (work sid) sid) (siteIDs (fst dt)) dt"

text \<open>The crawl unit has the same shape around \<^verbatim>\<open>CrawlSite\<close>, which is an argument here.\<close>

definition crawl_unit :: "Scheduler \<Rightarrow> (int \<Rightarrow> db \<Rightarrow> db) \<Rightarrow> instant \<Rightarrow> instant \<Rightarrow> int \<Rightarrow> db \<Rightarrow> db" where
  "crawl_unit s crawl now done sid d =
     (case ClaimDue ''crawl'' sid (sc_owner s) now (now + sc_crawlTTL s) d of
        (None, d1) \<Rightarrow> d1
      | (Some gen, d1) \<Rightarrow> CompleteClaim ''crawl'' sid (sc_owner s) gen (done + sc_crawlInterval s) (crawl sid d1))"

text \<open>One tick of the renewal loop: a store error keeps the loop going, a lost claim cancels the work.\<close>

datatype renewal = Keep | Cancel

definition renew_tick :: "Scheduler \<Rightarrow> string \<Rightarrow> int \<Rightarrow> int \<Rightarrow> instant \<Rightarrow> bool \<Rightarrow> db \<Rightarrow> renewal \<times> db" where
  "renew_tick s kind sid gen now store_fails d =
     (let ttl = (if kind = ''crawl'' then sc_crawlTTL s else sc_checkTTL s)
      in if store_fails then (Keep, d)
         else case RenewClaim kind sid (sc_owner s) gen (now + ttl) d of
           (ok, d') \<Rightarrow> (if ok then Keep else Cancel, d'))"

definition renew_period :: "Scheduler \<Rightarrow> string \<Rightarrow> duration" where
  "renew_period s kind = go_div (if kind = ''crawl'' then sc_crawlTTL s else sc_checkTTL s) 3"

subsection \<open>The bounded pool\<close>

text \<open>One goroutine per id: it waits for a slot of the semaphore or for the end of the context, runs, and
  releases the slot. \<open>ran\<close> records the ids whose function was called.\<close>

record pool =
  waiting :: "int list"
  running :: "int list"
  ran :: "int list"
  skipped :: "int list"

definition start_pool :: "int list \<Rightarrow> pool" where
  "start_pool ids = \<lparr>waiting = ids, running = [], ran = [], skipped = []\<rparr>"

inductive pool_step :: "nat \<Rightarrow> bool \<Rightarrow> pool \<Rightarrow> pool \<Rightarrow> bool" for limit :: nat and cancelled :: bool where
  acquire: "i \<in> set (waiting p) \<Longrightarrow> length (running p) < limit \<Longrightarrow>
     pool_step limit cancelled p (p\<lparr>waiting := remove1 i (waiting p), running := i # running p, ran := i # ran p\<rparr>)"
| give_up: "i \<in> set (waiting p) \<Longrightarrow> cancelled \<Longrightarrow>
     pool_step limit cancelled p (p\<lparr>waiting := remove1 i (waiting p), skipped := i # skipped p\<rparr>)"
| release: "i \<in> set (running p) \<Longrightarrow>
     pool_step limit cancelled p (p\<lparr>running := remove1 i (running p)\<rparr>)"

inductive_cases pool_stepE: "pool_step limit cancelled p q"

text \<open>The context may end at any time: the flag is chosen anew at each step.\<close>

inductive pool_run :: "nat \<Rightarrow> pool \<Rightarrow> nat \<Rightarrow> pool \<Rightarrow> bool" for limit :: nat where
  stop: "pool_run limit p 0 p"
| next_step: "pool_run limit p n q \<Longrightarrow> pool_step limit c q r \<Longrightarrow> pool_run limit p (Suc n) r"

definition pool_done :: "pool \<Rightarrow> bool" where
  "pool_done p \<longleftrightarrow> waiting p = [] \<and> running p = []"

definition pool_inv :: "nat \<Rightarrow> int list \<Rightarrow> pool \<Rightarrow> bool" where
  "pool_inv limit ids p \<longleftrightarrow> length (running p) \<le> limit \<and> mset (running p) \<subseteq># mset (ran p) \<and>
     mset (waiting p) + mset (ran p) + mset (skipped p) = mset ids"

lemma pool_inv_step: "pool_step limit c p q \<Longrightarrow> pool_inv limit ids p \<Longrightarrow> pool_inv limit ids q"
proof (induction rule: pool_step.induct)
  case (acquire i p)
  then show ?case by (auto simp: pool_inv_def)
next
  case (give_up i p)
  then have "i \<in># mset ids" unfolding pool_inv_def by (metis set_mset_mset union_iff)
  with give_up show ?case by (auto simp: pool_inv_def)
next
  case (release i p)
  then show ?case
    by (auto simp: pool_inv_def length_remove1 intro: subset_mset.order_trans [OF diff_subset_eq_self])
qed

lemma pool_run_inv: "pool_run limit p n q \<Longrightarrow> pool_inv limit ids p \<Longrightarrow> pool_inv limit ids q"
  by (induction rule: pool_run.induct) (auto intro: pool_inv_step)

lemma start_pool_inv: "pool_inv limit ids (start_pool ids)"
  by (simp add: pool_inv_def start_pool_def)

definition pool_measure :: "pool \<Rightarrow> nat" where
  "pool_measure p = 2 * length (waiting p) + length (running p)"

lemma pool_measure_step: "pool_step limit c p q \<Longrightarrow> pool_measure q < pool_measure p"
proof (induction rule: pool_step.induct)
  case (acquire i p)
  then obtain n where "length (waiting p) = Suc n" by (cases "waiting p") auto
  with acquire show ?case by (simp add: pool_measure_def length_remove1)
next
  case (give_up i p)
  then show ?case using length_pos_if_in_set [of i "waiting p"] by (simp add: pool_measure_def length_remove1)
next
  case (release i p)
  then show ?case using length_pos_if_in_set [of i "running p"] by (simp add: pool_measure_def length_remove1)
qed

lemma pool_run_measure: "pool_run limit p n q \<Longrightarrow> pool_measure q + n \<le> pool_measure p"
  by (induction rule: pool_run.induct) (auto dest: pool_measure_step)

lemma pool_progress: "0 < limit \<Longrightarrow> \<not> pool_done p \<Longrightarrow> \<exists>q. pool_step limit c p q"
proof -
  assume *: "0 < limit" "\<not> pool_done p"
  show ?thesis
  proof (cases "running p")
    case Nil
    with * have "hd (waiting p) \<in> set (waiting p)" by (simp add: pool_done_def)
    from acquire [OF this, of limit c] Nil * show ?thesis by auto
  next
    case (Cons i _)
    with release [of i p limit c] show ?thesis by auto
  qed
qed

subsection \<open>Claims are touched by nothing else\<close>

lemma Transition_claims: "Transition sid prev next at d = Inr d' \<Longrightarrow> db_claims d' = db_claims d"
  by (auto simp: Transition_def Let_def recordDelivery_def insert_incident_def update_incident_def enqueueWebhooks_def split: if_splits)

lemma updateHealth_claims: "db_claims (snd (updateHealth r d)) = db_claims d"
  by (auto simp: updateHealth_def store_health_def insert_health_def Let_def Transition_claims split: sum.splits option.splits if_splits
      dest!: Transition_claims)

lemma persist_claims: "db_claims (snd (persist r d)) = db_claims d"
proof (cases "insert_check r d")
  case (Inr x)
  then obtain i d1 where x: "x = (i, d1)" "db_claims d1 = db_claims d"
    by (cases x) (auto simp: insert_check_def Let_def split: if_splits)
  obtain res d2 where u: "updateHealth (r\<lparr>chk_id := i\<rparr>) d1 = (res, d2)" by fastforce
  with updateHealth_claims [of "r\<lparr>chk_id := i\<rparr>" d1] x have "db_claims d2 = db_claims d" by simp
  with u Inr x show ?thesis by (cases res) (simp_all add: persist_def Let_def)
qed (simp add: persist_def)

lemma CheckSite_claims [simp]: "db_claims (snd (CheckSite net sid d)) = db_claims d"
  by (rule CheckSite_preserves [where F = db_claims, OF persist_claims]) (simp add: persistHTTPObservation_def Let_def)

lemma CompleteClaim_due:
  assumes "first_row (claim_key kind sid) (db_claims d) = Some r" "cl_owner r = w" "cl_generation r = g"
  shows "first_row (claim_key kind sid) (db_claims (CompleteClaim kind sid w g t d)) =
    Some (r\<lparr>cl_next_due := format_nano t, cl_owner := '''', cl_lease := ''''\<rparr>)"
proof -
  have "claim_key kind sid r" using first_row_Some [OF assms(1)] by simp
  with assms(2,3) have "owned_by kind sid w g r" by (simp add: owned_by_def)
  with first_row_upd_where [of "claim_key kind sid" "\<lambda>r. r\<lparr>cl_next_due := format_nano t, cl_owner := '''', cl_lease := ''''\<rparr>"
      "owned_by kind sid w g" "db_claims d"] assms(1) show ?thesis
    by (simp add: CompleteClaim_def)
qed

lemma ClaimDue_row:
  assumes "ClaimDue kind sid w t l d = (Some g, d')"
  obtains r where "first_row (claim_key kind sid) (db_claims d') = Some r" "cl_owner r = w" "cl_generation r = g"
proof (cases rule: ClaimDue_cases [of kind sid d w t l])
  case new
  then show ?thesis using assms that [of "\<lparr>cl_kind = kind, cl_site = sid, cl_next_due = format_nano t, cl_owner = w, cl_generation = 1, cl_lease = format_nano l\<rparr>"]
    by (auto simp: first_row_append claim_key_def)
next
  case (taken r)
  then have "first_row (claim_key kind sid) (db_claims d') =
      Some (r\<lparr>cl_owner := w, cl_generation := cl_generation r + 1, cl_lease := format_nano l\<rparr>)"
    using assms by (auto intro: first_row_claimed)
  then show ?thesis using taken assms by (intro that) auto
next
  case (refused r)
  with assms show ?thesis by simp
qed

subsection \<open>Properties\<close>

text \<open>The pool of workers: whatever the order in which the goroutines get the semaphore, and whenever the
  context ends, at most \<open>limit\<close> units run at the same time, no site is run more often than it was listed,
  and every site is accounted for; a pool that has finished has run or skipped each of them.\<close>

theorem pool_bounded:
  assumes "pool_run limit (start_pool ids) n p"
  shows "length (running p) \<le> limit \<and> mset (ran p) \<subseteq># mset ids \<and>
    mset (waiting p) + mset (ran p) + mset (skipped p) = mset ids \<and>
    (pool_done p \<longrightarrow> mset (ran p) + mset (skipped p) = mset ids)"
proof -
  have inv: "pool_inv limit ids p" by (rule pool_run_inv [OF assms start_pool_inv])
  then have eq: "mset (waiting p) + mset (ran p) + mset (skipped p) = mset ids" by (simp add: pool_inv_def)
  have "mset (ran p) \<subseteq># mset ids" unfolding eq [symmetric] by (simp add: subset_mset.add_increasing)
  with inv eq show ?thesis by (auto simp: pool_inv_def pool_done_def)
qed

theorem pool_bounded_witness:
  "\<exists>p. pool_run 1 (start_pool [3, 4]) 1 p \<and> length (running p) \<le> 1"
proof -
  let ?p = "(start_pool [3, 4])\<lparr>waiting := [4], running := [3], ran := [3]\<rparr>"
  have "pool_step 1 False (start_pool [3, 4]) ?p"
    using acquire [of 3 "start_pool [3, 4]" 1 False] by (simp add: start_pool_def)
  with stop have "pool_run 1 (start_pool [3, 4]) (Suc 0) ?p" by (rule next_step)
  with pool_bounded [OF this] show ?thesis by auto
qed

text \<open>The pool always finishes: with at least one slot a pool that is not done can take a step, and no run
  takes more than two steps per site, so \<^verbatim>\<open>runBounded\<close> returns.\<close>

theorem pool_terminates:
  assumes "0 < limit" "pool_run limit (start_pool ids) n p"
  shows "n \<le> 2 * length ids \<and> (pool_done p \<or> (\<exists>q. pool_step limit c p q)) \<and> (n = 2 * length ids \<longrightarrow> pool_done p)"
proof -
  have m: "pool_measure p + n \<le> 2 * length ids"
    using pool_run_measure [OF assms(2)] by (simp add: pool_measure_def start_pool_def)
  then have "n = 2 * length ids \<Longrightarrow> pool_done p" by (simp add: pool_measure_def pool_done_def)
  with m pool_progress [OF assms(1), of p c] show ?thesis by auto
qed

theorem pool_terminates_witness:
  "pool_done (start_pool [3]) \<or> (\<exists>q. pool_step 1 False (start_pool [3]) q)"
  using pool_terminates [OF zero_less_one stop, where c = False] by blast

text \<open>C21. A site is not checked again before it is due: after a worker has claimed, checked and completed a
  site, a unit of any scheduler that starts in an earlier second than the completion time plus the
  interval does nothing at all, neither to the tables nor to the observations.\<close>

theorem no_check_before_due:
  assumes "fst (ClaimDue ''check'' sid (sc_owner s) (cw_now w) (cw_now w + sc_checkTTL s) d) \<noteq> None"
    and "check_unit parse_time s w sid (d, t) = (d1, t1)"
    and "secs (cw_now w') < secs (cw_done w + sc_interval s)"
    and "four_digit_year (cw_now w')" "four_digit_year (cw_done w + sc_interval s)"
  shows "check_unit parse_time s' w' sid (d1, t1) = (d1, t1)"
proof -
  obtain g dc where c: "ClaimDue ''check'' sid (sc_owner s) (cw_now w) (cw_now w + sc_checkTTL s) d = (Some g, dc)"
    using assms(1) by (cases "ClaimDue ''check'' sid (sc_owner s) (cw_now w) (cw_now w + sc_checkTTL s) d") auto
  obtain r where r: "first_row (claim_key ''check'' sid) (db_claims dc) = Some r" "cl_owner r = sc_owner s" "cl_generation r = g"
    by (rule ClaimDue_row [OF c])
  have "d1 = CompleteClaim ''check'' sid (sc_owner s) g (cw_done w + sc_interval s) (snd (CheckSite (cw_net w) sid dc))"
    using assms(2) c by (simp add: check_unit_def Let_def)
  moreover have "first_row (claim_key ''check'' sid) (db_claims (snd (CheckSite (cw_net w) sid dc))) = Some r" using r(1) by simp
  ultimately have row: "first_row (claim_key ''check'' sid) (db_claims d1) =
      Some (r\<lparr>cl_next_due := format_nano (cw_done w + sc_interval s), cl_owner := '''', cl_lease := ''''\<rparr>)"
    using CompleteClaim_due r(2,3) by simp
  have "\<not> format_nano (cw_done w + sc_interval s) \<le> format_nano (cw_now w')"
    using format_nano_less [OF assms(3-5)] by simp
  then have "ClaimDue ''check'' sid (sc_owner s') (cw_now w') (cw_now w' + sc_checkTTL s') d1 = (None, d1)"
    unfolding ClaimDue_def row by simp
  then show ?thesis by (simp add: check_unit_def)
qed

definition sample_work :: "instant \<Rightarrow> instant \<Rightarrow> unit check_work" where
  "sample_work now done = \<lparr>cw_now = now, cw_net = \<lambda>u t. sample_exchange (Inl (''refused'', False)) ''t1'', cw_tls_now = now,
     cw_tls = sample_inspection, cw_dns_now = now, cw_dns = sample_answer [], cw_done = done\<rparr>"

theorem no_check_before_due_witness:
  "let s = newScheduler minute hour 4 ''worker-a''; s' = newScheduler minute hour 4 ''worker-b'';
       dt = check_unit (\<lambda>_. None) s (sample_work (1700000000 * second) (1700000005 * second)) 7 (sample_db, sample_obs)
   in check_unit (\<lambda>_. None) s' (sample_work (1700000030 * second) (1700000031 * second)) 7 dt = dt"
proof -
  let ?s = "newScheduler minute hour 4 ''worker-a''" and ?s' = "newScheduler minute hour 4 ''worker-b''"
  let ?w = "sample_work (1700000000 * second) (1700000005 * second)" and ?w' = "sample_work (1700000030 * second) (1700000031 * second)"
  obtain d1 t1 where dt: "check_unit (\<lambda>_. None) ?s ?w 7 (sample_db, sample_obs) = (d1, t1)" by fastforce
  have claim: "fst (ClaimDue ''check'' 7 (sc_owner ?s) (cw_now ?w) (cw_now ?w + sc_checkTTL ?s) sample_db) \<noteq> None"
    by (simp add: ClaimDue_def sample_db_def init_db_def)
  have times: "secs (cw_now ?w') < secs (cw_done ?w + sc_interval ?s)" "four_digit_year (cw_now ?w')"
    "four_digit_year (cw_done ?w + sc_interval ?s)"
    by (simp_all add: sample_work_def newScheduler_def time_simps)
  from no_check_before_due [OF claim dt times] show ?thesis unfolding Let_def dt .
qed

text \<open>The settings: leases are long enough to be renewed before they end, and the ticker never gets a
  period of zero.\<close>

lemma renewal_settings:
  "minute \<le> sc_checkTTL (newScheduler i c n o')" "30 * minute \<le> sc_crawlTTL (newScheduler i c n o')"
  "1 \<le> sc_concurrency (newScheduler i c n o')"
  "0 < renew_period (newScheduler i c n o') k"
  "3 * renew_period (newScheduler i c n o') k \<le> (if k = ''crawl'' then sc_crawlTTL (newScheduler i c n o') else sc_checkTTL (newScheduler i c n o'))"
proof -
  let ?s = "newScheduler i c n o'"
  show ttl: "minute \<le> sc_checkTTL ?s" "30 * minute \<le> sc_crawlTTL ?s" "1 \<le> sc_concurrency ?s"
    by (simp_all add: newScheduler_def Let_def)
  let ?t = "if k = ''crawl'' then sc_crawlTTL ?s else sc_checkTTL ?s"
  have "minute \<le> ?t" using ttl by auto
  moreover from this have "renew_period ?s k = ?t div 3" by (simp add: renew_period_def go_div_nonneg)
  ultimately show "0 < renew_period ?s k" "3 * renew_period ?s k \<le> ?t" by auto
qed

lemma jitter_bounds:
  assumes "0 < d" "11 * d \<le> 10 * 2 ^ 62"
  shows "d - max second (d div 10) \<le> jitter d r \<and> jitter d r < d + max second (d div 10)"
proof -
  define s where "s = max second (d div 10)"
  have s: "(if go_div d 10 < second then second else go_div d 10) = s" "0 < s" "10 * s \<le> max (10 * second) d"
    using assms(1) by (auto simp: s_def go_div_nonneg max_def)
  have r: "0 \<le> r mod (2 * s)" "r mod (2 * s) < 2 * s" using s(2) by simp_all
  have "d \<le> 10 * 2 ^ 62 div 11" using assms(2) by simp
  moreover from this s(3) have "s \<le> 419244183493398901" by (auto simp: max_def split: if_splits)
  moreover have "fits64 (d - s + m)" if "0 \<le> m" "m < 2 * s" "d \<le> 10 * 2 ^ 62 div 11" "s \<le> 419244183493398901" for m
    using that s(2) assms(1) by (simp add: fits64_def)
  ultimately have "fits64 (d - s + r mod (2 * s))" using r by blast
  then have "jitter d r = d - s + r mod (2 * s)" unfolding jitter_def Let_def s(1) by simp
  with r show ?thesis by (simp add: s_def)
qed

end
