(* ===== verification/Accounts.thy ===== *)
theory Accounts
  imports Tables Netip
begin

text \<open>
  Accounts: \<^verbatim>\<open>internal/auth\<close> (first administrator, sessions, password change), \<^verbatim>\<open>internal/rbac\<close> (memberships and
  the role matrix) and \<^verbatim>\<open>internal/apitokens\<close>. The account tables are a record of their own beside \<open>db\<close>, which
  is only read here (for the organizations). \<^verbatim>\<open>gantry-core/auth\<close> is not part of the sources: its account model and
  password hash are the fields of \<open>coreauth\<close>. Random tokens, the SHA-256 digest and
  \<^verbatim>\<open>time.Parse(time.RFC3339Nano, _)\<close> are arguments of the operations that use them.
\<close>

subsection \<open>Tables\<close>

record user_row =
  us_id :: int
  us_username :: string
  us_email :: string
  us_hash :: string
  us_role :: string
  us_created :: string

record session_row =
  se_hash :: string
  se_user :: int
  se_csrf :: string
  se_expires :: string
  se_created :: string

record member_row =
  mb_org :: int
  mb_user :: int
  mb_role :: string
  mb_created :: string

record token_row =
  tk_id :: int
  tk_user :: int
  tk_org :: int
  tk_name :: string
  tk_hash :: string
  tk_prefix :: string
  tk_scopes :: string
  tk_used :: "string option"
  tk_revoked :: "string option"
  tk_created :: string

record audit_event_row =
  ae_kind :: string
  ae_detail :: string
  ae_created :: string

record security_event =
  sv_actor :: int
  sv_org :: int
  sv_action :: string
  sv_target :: string
  sv_created :: string

record oidc_config_row =
  oc_issuer :: string
  oc_client :: string
  oc_secret :: string
  oc_enabled :: bool
  oc_auto :: bool
  oc_updated :: string

record oidc_state_row =
  ox_state :: string
  ox_nonce :: string
  ox_browser :: string
  ox_expires :: string

record acct =
  ac_users :: "user_row list"
  ac_sessions :: "session_row list"
  ac_members :: "member_row list"
  ac_tokens :: "token_row list"
  ac_audit :: "audit_event_row list"
  ac_security :: "security_event list"
  ac_oidc :: "oidc_config_row option"
  ac_states :: "oidc_state_row list"

definition init_acct :: acct where
  "init_acct = \<lparr>ac_users = [], ac_sessions = [], ac_members = [], ac_tokens = [], ac_audit = [], ac_security = [],
     ac_oidc = None, ac_states = []\<rparr>"

text \<open>The keys and references the schema declares on these tables.\<close>

definition acct_ok :: "db \<Rightarrow> acct \<Rightarrow> bool" where
  "acct_ok d a \<longleftrightarrow> distinct (map us_id (ac_users a)) \<and> distinct (map us_email (ac_users a)) \<and>
     distinct (map se_hash (ac_sessions a)) \<and> (\<forall>s \<in> set (ac_sessions a). se_user s \<in> us_id ` set (ac_users a)) \<and>
     distinct (map (\<lambda>m. (mb_org m, mb_user m)) (ac_members a)) \<and>
     (\<forall>m \<in> set (ac_members a). mb_org m \<in> set (org_ids d) \<and> mb_user m \<in> us_id ` set (ac_users a) \<and>
        mb_role m \<in> {''owner'', ''admin'', ''operator'', ''viewer''}) \<and>
     distinct (map tk_id (ac_tokens a)) \<and> distinct (map tk_hash (ac_tokens a)) \<and>
     (\<forall>t \<in> set (ac_tokens a). tk_user t \<in> us_id ` set (ac_users a) \<and> tk_org t \<in> set (org_ids d)) \<and>
     distinct (map ox_state (ac_states a))"

lemma init_acct_ok: "acct_ok d init_acct"
  by (simp add: acct_ok_def init_acct_def)

datatype acct_error = MembershipNotFound | InvalidRole | UserNotFound | TokenNameRequired | UnsupportedScope
  | InvalidToken | InvalidSetup | SetupCompleted | NoOrganization | InvalidCredentials | NoSession | InvalidSession
  | ExpiredSession | PasswordTooShort | InvalidCurrentPassword | AccountFile string | HashFailed string | BadId
  | SqlFailed sql_error | OIDCConfig | OIDCDiscovery | OIDCNotEnabled | OIDCMissing | OIDCInvalidState
  | OIDCExpiredState | OIDCExchange | OIDCVerify | OIDCNonce | OIDCClaims | OIDCUserinfo | OIDCVerifiedEmail
  | OIDCNotProvisioned

subsection \<open>Statements\<close>

definition insert_session :: "session_row \<Rightarrow> acct \<Rightarrow> (sql_error, acct) result" where
  "insert_session r a =
     (if \<exists>s \<in> set (ac_sessions a). se_hash s = se_hash r then Inl UniqueViolation
      else if se_user r \<notin> set (map us_id (ac_users a)) then Inl ForeignKeyViolation
      else Inr (a\<lparr>ac_sessions := ac_sessions a @ [r]\<rparr>))"

definition insert_member :: "db \<Rightarrow> member_row \<Rightarrow> acct \<Rightarrow> (sql_error, acct) result" where
  "insert_member d r a =
     (if \<exists>m \<in> set (ac_members a). mb_org m = mb_org r \<and> mb_user m = mb_user r then Inl UniqueViolation
      else if mb_org r \<notin> set (org_ids d) \<or> mb_user r \<notin> set (map us_id (ac_users a)) then Inl ForeignKeyViolation
      else Inr (a\<lparr>ac_members := ac_members a @ [r]\<rparr>))"

text \<open>\<^verbatim>\<open>INSERT \<dots> ON CONFLICT(organization_id,user_id) DO UPDATE SET role=excluded.role\<close>\<close>

definition upsert_member :: "db \<Rightarrow> member_row \<Rightarrow> acct \<Rightarrow> (sql_error, acct) result" where
  "upsert_member d r a =
     (if \<exists>m \<in> set (ac_members a). mb_org m = mb_org r \<and> mb_user m = mb_user r
      then Inr (a\<lparr>ac_members := upd_where (\<lambda>m. mb_org m = mb_org r \<and> mb_user m = mb_user r)
                   (\<lambda>m. m\<lparr>mb_role := mb_role r\<rparr>) (ac_members a)\<rparr>)
      else insert_member d r a)"

definition insert_user :: "user_row \<Rightarrow> acct \<Rightarrow> (sql_error, int \<times> acct) result" where
  "insert_user r a =
     (if \<exists>u \<in> set (ac_users a). us_email u = us_email r then Inl UniqueViolation
      else let i = fresh_id (map us_id (ac_users a)) in Inr (i, a\<lparr>ac_users := ac_users a @ [r\<lparr>us_id := i\<rparr>]\<rparr>))"

definition audit_event :: "string \<Rightarrow> string \<Rightarrow> instant \<Rightarrow> acct \<Rightarrow> acct" where
  "audit_event kind detail now a =
     a\<lparr>ac_audit := ac_audit a @ [\<lparr>ae_kind = kind, ae_detail = detail, ae_created = format_nano now\<rparr>]\<rparr>"

definition user_by_email :: "string \<Rightarrow> acct \<Rightarrow> user_row option" where
  "user_by_email email a = first_row (\<lambda>u. to_lower (us_email u) = to_lower email) (ac_users a)"

subsection \<open>Roles\<close>

definition Can :: "string \<Rightarrow> string \<Rightarrow> bool" where
  "Can role action =
     (if role = ''owner'' then True
      else if role = ''admin'' then action \<noteq> ''organization.delete''
      else if role = ''operator'' then
        (if has_suffix action ''.read'' then True
         else if has_prefix action ''monitor.'' then True
         else if has_prefix action ''site.'' \<and> action \<noteq> ''site.delete'' then True
         else action \<in> {''audit.run'', ''crawl.run'', ''tls.run'', ''dns.run'', ''analytics.manage'',
                        ''deployments.record'', ''incidents.acknowledge''})
      else if role = ''viewer'' then has_suffix action ''.read''
      else False)"

record Membership =
  mem_OrgID :: int
  mem_Role :: string

definition Resolve :: "int \<Rightarrow> acct \<Rightarrow> (acct_error, Membership) result" where
  "Resolve userID a =
     (case sort_key mb_org (filter (\<lambda>m. mb_user m = userID) (ac_members a)) of
        [] \<Rightarrow> Inl MembershipNotFound
      | m # _ \<Rightarrow> Inr \<lparr>mem_OrgID = mb_org m, mem_Role = mb_role m\<rparr>)"

definition Role :: "int \<Rightarrow> int \<Rightarrow> acct \<Rightarrow> (acct_error, string) result" where
  "Role userID orgID a =
     (case first_row (\<lambda>m. mb_user m = userID \<and> mb_org m = orgID) (ac_members a) of
        None \<Rightarrow> Inl MembershipNotFound
      | Some m \<Rightarrow> Inr (mb_role m))"

record Member =
  mr_UserID :: int
  mr_Email :: string
  mr_Role :: string

definition Members :: "int \<Rightarrow> acct \<Rightarrow> Member list" where
  "Members orgID a = map snd (sort_key fst (concat (map (\<lambda>m.
     if mb_org m = orgID
     then map (\<lambda>u. (to_lower (us_email u), \<lparr>mr_UserID = us_id u, mr_Email = us_email u, mr_Role = mb_role m\<rparr>))
            (filter (\<lambda>u. us_id u = mb_user m) (ac_users a))
     else []) (ac_members a))))"

definition Add :: "db \<Rightarrow> instant \<Rightarrow> int \<Rightarrow> int \<Rightarrow> string \<Rightarrow> string \<Rightarrow> acct \<Rightarrow> (acct_error, unit) result \<times> acct" where
  "Add d now actor org email role a =
     (let role = to_lower role
      in if role \<notin> {''owner'', ''admin'', ''operator'', ''viewer''} then (Inl InvalidRole, a)
         else case user_by_email email a of
           None \<Rightarrow> (Inl UserNotFound, a)
         | Some u \<Rightarrow>
             (case upsert_member d \<lparr>mb_org = org, mb_user = us_id u, mb_role = role, mb_created = format_nano now\<rparr> a of
                Inl e \<Rightarrow> (Inl (SqlFailed e), a)
              | Inr a1 \<Rightarrow>
                  if actor \<notin> set (map us_id (ac_users a)) \<or> org \<notin> set (org_ids d) then (Inl (SqlFailed ForeignKeyViolation), a1)
                  else (Inr (), a1\<lparr>ac_security := ac_security a1 @ [\<lparr>sv_actor = actor, sv_org = org,
                    sv_action = ''membership.update'', sv_target = email, sv_created = format_nano now\<rparr>]\<rparr>)))"

subsection \<open>API tokens\<close>

definition token_scopes :: "string list" where
  "token_scopes = [''sites:read'', ''sites:write'', ''fleet:read'', ''analytics:read'', ''audit:run'']"

record Created =
  cr_ID :: int
  cr_Name :: string
  cr_Token :: string
  cr_Prefix :: string
  cr_Scopes :: "string list"

text \<open>\<open>tok\<close> is the fresh random token \<^verbatim>\<open>wf_\<dots>\<close>, \<open>hash\<close> the hexadecimal SHA-256.\<close>

definition Create :: "db \<Rightarrow> (string \<Rightarrow> string) \<Rightarrow> string \<Rightarrow> instant \<Rightarrow> int \<Rightarrow> int \<Rightarrow> string \<Rightarrow> string list \<Rightarrow> acct
    \<Rightarrow> (acct_error, Created) result \<times> acct" where
  "Create d hash tok now user org nm scopes a =
     (let nm = trim_space nm
      in if nm = '''' then (Inl TokenNameRequired, a)
         else if \<exists>x \<in> set scopes. x \<notin> set token_scopes then (Inl UnsupportedScope, a)
         else if \<exists>t \<in> set (ac_tokens a). tk_hash t = hash tok then (Inl (SqlFailed UniqueViolation), a)
         else if user \<notin> set (map us_id (ac_users a)) \<or> org \<notin> set (org_ids d) then (Inl (SqlFailed ForeignKeyViolation), a)
         else let i = fresh_id (map tk_id (ac_tokens a)); prefix = take 10 tok
              in (Inr \<lparr>cr_ID = i, cr_Name = nm, cr_Token = tok, cr_Prefix = prefix, cr_Scopes = scopes\<rparr>,
                  a\<lparr>ac_tokens := ac_tokens a @ [\<lparr>tk_id = i, tk_user = user, tk_org = org, tk_name = nm, tk_hash = hash tok,
                     tk_prefix = prefix, tk_scopes = join_str '','' scopes, tk_used = None, tk_revoked = None,
                     tk_created = format_nano now\<rparr>]\<rparr>))"

definition scope_list :: "string \<Rightarrow> string list" where
  "scope_list t = (if t = '''' then [] else split_char (CHR '','') t)"

definition Authenticate :: "(string \<Rightarrow> string) \<Rightarrow> instant \<Rightarrow> string \<Rightarrow> acct
    \<Rightarrow> (acct_error, int \<times> int \<times> string list) result \<times> acct" where
  "Authenticate hash now tok a =
     (case first_row (\<lambda>t. tk_hash t = hash tok \<and> tk_revoked t = None) (ac_tokens a) of
        None \<Rightarrow> (Inl InvalidToken, a)
      | Some t \<Rightarrow> (Inr (tk_user t, tk_org t, scope_list (tk_scopes t)),
          a\<lparr>ac_tokens := upd_where (\<lambda>x. tk_id x = tk_id t) (\<lambda>x. x\<lparr>tk_used := Some (format_nano now)\<rparr>) (ac_tokens a)\<rparr>))"

fun HasScope :: "string list \<Rightarrow> string \<Rightarrow> bool" where
  "HasScope [] want = False"
| "HasScope (s # ss) want = (if s = want then True else HasScope ss want)"

definition Revoke :: "instant \<Rightarrow> int \<Rightarrow> int \<Rightarrow> int \<Rightarrow> acct \<Rightarrow> acct" where
  "Revoke now i user org a =
     a\<lparr>ac_tokens := upd_where (\<lambda>t. tk_id t = i \<and> tk_user t = user \<and> tk_org t = org)
        (\<lambda>t. t\<lparr>tk_revoked := Some (format_nano now)\<rparr>) (ac_tokens a)\<rparr>"

subsection \<open>Authentication\<close>

text \<open>What \<^verbatim>\<open>LoadAccounts\<close> hands to the account model.\<close>

record identity =
  idn_ID :: string
  idn_Type :: string
  idn_Username :: string
  idn_Email :: string
  idn_PasswordHash :: string
  idn_Enabled :: bool

record account =
  acc_ID :: string
  acc_DisplayName :: string
  acc_Enabled :: bool
  acc_Roles :: "string list"
  acc_Identities :: "identity list"
  acc_CreatedAt :: instant

record core_role =
  cro_ID :: string
  cro_Name :: string
  cro_Capabilities :: "string list"
  cro_BuiltIn :: bool

definition webfleetRoles :: "core_role list" where
  "webfleetRoles =
    [\<lparr>cro_ID = ''administrator'', cro_Name = ''Administrator'', cro_Capabilities = [''*''], cro_BuiltIn = True\<rparr>,
     \<lparr>cro_ID = ''operator'', cro_Name = ''Operator'', cro_Capabilities = [''organizations.use''], cro_BuiltIn = True\<rparr>,
     \<lparr>cro_ID = ''user'', cro_Name = ''User'', cro_Capabilities = [''organizations.use''], cro_BuiltIn = True\<rparr>,
     \<lparr>cro_ID = ''viewer'', cro_Name = ''Viewer'', cro_Capabilities = [''organizations.read''], cro_BuiltIn = True\<rparr>]"

definition FormatInt :: "int \<Rightarrow> string" where
  "FormatInt i = (if i < 0 then ''-'' @ string_of_nat (nat (- i)) else string_of_nat (nat i))"

definition ParseInt :: "string \<Rightarrow> int option" where
  "ParseInt s =
     (let (neg, ds) = (case s of [] \<Rightarrow> (False, []) | c # cs \<Rightarrow> if c = CHR ''-'' then (True, cs)
                         else if c = CHR ''+'' then (False, cs) else (False, s));
          v = (if neg then - int (dec_value ds) else int (dec_value ds))
      in if ds = [] \<or> \<not> list_all is_digit ds \<or> \<not> fits64 v then None else Some v)"

definition account_of :: "instant \<Rightarrow> user_row \<Rightarrow> account" where
  "account_of created u =
     (let accountID = FormatInt (us_id u);
          roleID = (if us_role u = ''admin'' then ''administrator'' else us_role u);
          identity = (if us_hash u \<noteq> ''''
            then \<lparr>idn_ID = ''pwd_'' @ accountID, idn_Type = ''password'', idn_Username = us_username u, idn_Email = us_email u,
                  idn_PasswordHash = us_hash u, idn_Enabled = True\<rparr>
            else \<lparr>idn_ID = ''email_'' @ accountID, idn_Type = ''email'', idn_Username = '''', idn_Email = us_email u,
                  idn_PasswordHash = '''', idn_Enabled = True\<rparr>)
      in \<lparr>acc_ID = accountID, acc_DisplayName = us_username u, acc_Enabled = True, acc_Roles = [roleID],
          acc_Identities = [identity], acc_CreatedAt = created\<rparr>)"

definition LoadAccounts :: "(string \<Rightarrow> instant option) \<Rightarrow> acct \<Rightarrow> (acct_error, account list) result" where
  "LoadAccounts parse_time a =
     res_fold (\<lambda>u acc. case parse_time (us_created u) of
         None \<Rightarrow> Inl (AccountFile ''created_at'')
       | Some t \<Rightarrow> Inr (acc @ [account_of t u])) (sort_key us_email (ac_users a)) []"

text \<open>\<^verbatim>\<open>coreauth.Model\<close>: built from the accounts and roles, asked whether it is empty and for a password
  login; and the password hash behind \<^verbatim>\<open>internal/password\<close>.\<close>

record 'm coreauth =
  ca_model :: "account list \<Rightarrow> core_role list \<Rightarrow> (string, 'm) result"
  ca_empty :: "'m \<Rightarrow> bool"
  ca_password :: "'m \<Rightarrow> string \<Rightarrow> string \<Rightarrow> account option"
  ca_hash :: "string \<Rightarrow> (string, string) result"
  ca_verify :: "string \<Rightarrow> string \<Rightarrow> bool"

text \<open>The documented behaviour the setup flow relies on: the model is empty exactly when it holds no account.\<close>

definition coreauth_counts :: "'m coreauth \<Rightarrow> bool" where
  "coreauth_counts ca \<longleftrightarrow> (\<forall>accs m. ca_model ca accs webfleetRoles = Inr m \<longrightarrow> (ca_empty ca m \<longleftrightarrow> accs = []))"

definition Reload :: "'m coreauth \<Rightarrow> (string \<Rightarrow> instant option) \<Rightarrow> acct \<Rightarrow> (acct_error, 'm) result" where
  "Reload ca parse_time a =
     res_bind (LoadAccounts parse_time a) (\<lambda>accs.
       case ca_model ca accs webfleetRoles of Inl e \<Rightarrow> Inl (AccountFile e) | Inr m \<Rightarrow> Inr m)"

definition NeedsSetup :: "'m coreauth \<Rightarrow> (string \<Rightarrow> instant option) \<Rightarrow> acct \<Rightarrow> (acct_error, bool) result" where
  "NeedsSetup ca parse_time a = res_bind (Reload ca parse_time a) (\<lambda>m. Inr (ca_empty ca m))"

definition PrimaryOrgID :: "db \<Rightarrow> (acct_error, int) result" where
  "PrimaryOrgID d = (case sort (org_ids d) of [] \<Rightarrow> Inl NoOrganization | i # _ \<Rightarrow> Inr i)"

text \<open>The transaction of \<^verbatim>\<open>CreateAdmin\<close>: the guarded insert, the lookup of the new id and the owner membership.\<close>

definition create_admin_tx :: "db \<Rightarrow> instant \<Rightarrow> int \<Rightarrow> string \<Rightarrow> string \<Rightarrow> string \<Rightarrow> acct \<Rightarrow> (acct_error, acct) result" where
  "create_admin_tx d now org username email h a =
     (if ac_users a \<noteq> [] then Inl SetupCompleted
      else case insert_user \<lparr>us_id = 0, us_username = username, us_email = email, us_hash = h, us_role = ''admin'',
                  us_created = format_nano now\<rparr> a of
        Inl e \<Rightarrow> Inl (SqlFailed e)
      | Inr (_, a1) \<Rightarrow>
          (case first_row (\<lambda>u. to_lower (us_email u) = email) (ac_users a1) of
             None \<Rightarrow> Inl (SqlFailed NoRows)
           | Some u \<Rightarrow>
               (case insert_member d \<lparr>mb_org = org, mb_user = us_id u, mb_role = ''owner'', mb_created = format_nano now\<rparr> a1 of
                  Inl e \<Rightarrow> Inl (SqlFailed e) | Inr a2 \<Rightarrow> Inr a2)))"

definition MinPasswordLength :: nat where
  "MinPasswordLength = 7"

definition CreateAdmin :: "'m coreauth \<Rightarrow> (string \<Rightarrow> instant option) \<Rightarrow> db \<Rightarrow> instant \<Rightarrow> string \<Rightarrow> string \<Rightarrow> string \<Rightarrow> acct
    \<Rightarrow> (acct_error, unit) result \<times> acct" where
  "CreateAdmin ca parse_time d now username email pw a =
     (let username = trim_space username; email = trim_space (to_lower email)
      in if username = '''' \<or> \<not> str_contains email ''@'' \<or> length pw < MinPasswordLength then (Inl InvalidSetup, a)
         else case NeedsSetup ca parse_time a of
           Inl e \<Rightarrow> (Inl e, a)
         | Inr need \<Rightarrow> if \<not> need then (Inl SetupCompleted, a)
           else case ca_hash ca pw of
             Inl e \<Rightarrow> (Inl (HashFailed e), a)
           | Inr h \<Rightarrow> (case PrimaryOrgID d of
               Inl e \<Rightarrow> (Inl e, a)
             | Inr org \<Rightarrow> (case create_admin_tx d now org username email h a of
                 Inl e \<Rightarrow> (Inl e, a)
               | Inr a1 \<Rightarrow> (case Reload ca parse_time a1 of
                   Inl e \<Rightarrow> (Inl e, a1)
                 | Inr _ \<Rightarrow> (Inr (), audit_event ''first_admin_created'' email now a1)))))"

record Session =
  ss_UserID :: int
  ss_Email :: string
  ss_CSRF :: string
  ss_Expires :: instant

text \<open>The part \<^verbatim>\<open>Login\<close> and \<^verbatim>\<open>CreateSessionForUser\<close> share: the row for 24 hours and the session handed to the browser.\<close>

definition open_session :: "(string \<Rightarrow> string) \<Rightarrow> string \<Rightarrow> string \<Rightarrow> instant \<Rightarrow> int \<Rightarrow> string \<Rightarrow> string \<Rightarrow> acct
    \<Rightarrow> (acct_error, string \<times> Session) result \<times> acct" where
  "open_session sha raw csrf now userID name kind a =
     (let exp = now + 24 * hour
      in case insert_session \<lparr>se_hash = sha raw, se_user = userID, se_csrf = csrf, se_expires = format_nano exp,
                se_created = format_nano now\<rparr> a of
        Inl e \<Rightarrow> (Inl (SqlFailed e), a)
      | Inr a1 \<Rightarrow> (Inr (raw, \<lparr>ss_UserID = userID, ss_Email = name, ss_CSRF = csrf, ss_Expires = exp\<rparr>),
          audit_event kind name now a1))"

definition Login :: "'m coreauth \<Rightarrow> (string \<Rightarrow> instant option) \<Rightarrow> (string \<Rightarrow> string) \<Rightarrow> string \<Rightarrow> string \<Rightarrow> instant \<Rightarrow> string
    \<Rightarrow> string \<Rightarrow> acct \<Rightarrow> (acct_error, string \<times> Session) result \<times> acct" where
  "Login ca parse_time sha raw csrf now email pw a =
     (case Reload ca parse_time a of
        Inl e \<Rightarrow> (Inl e, a)
      | Inr m \<Rightarrow> (case ca_password ca m email pw of
          None \<Rightarrow> (Inl InvalidCredentials, a)
        | Some account \<Rightarrow> (case ParseInt (acc_ID account) of
            None \<Rightarrow> (Inl BadId, a)
          | Some userID \<Rightarrow> open_session sha raw csrf now userID (acc_DisplayName account) ''login'' a)))"

definition CreateSessionForUser :: "'m coreauth \<Rightarrow> (string \<Rightarrow> instant option) \<Rightarrow> (string \<Rightarrow> string) \<Rightarrow> string \<Rightarrow> string
    \<Rightarrow> instant \<Rightarrow> int \<Rightarrow> string \<Rightarrow> acct \<Rightarrow> (acct_error, string \<times> Session) result \<times> acct" where
  "CreateSessionForUser ca parse_time sha raw csrf now userID email a =
     (case Reload ca parse_time a of
        Inl e \<Rightarrow> (Inl e, a)
      | Inr m \<Rightarrow> open_session sha raw csrf now userID email ''oidc_login'' a)"

definition delete_session :: "string \<Rightarrow> acct \<Rightarrow> acct" where
  "delete_session h a = a\<lparr>ac_sessions := del_where (\<lambda>s. se_hash s = h) (ac_sessions a)\<rparr>"

definition session_lookup :: "(string \<Rightarrow> string) \<Rightarrow> string \<Rightarrow> acct \<Rightarrow> (session_row \<times> user_row) option" where
  "session_lookup sha raw a =
     (case first_row (\<lambda>s. se_hash s = sha raw) (ac_sessions a) of
        None \<Rightarrow> None
      | Some s \<Rightarrow> map_option (Pair s) (first_row (\<lambda>u. us_id u = se_user s) (ac_users a)))"

definition SessionOf :: "(string \<Rightarrow> instant option) \<Rightarrow> (string \<Rightarrow> string) \<Rightarrow> instant \<Rightarrow> string \<Rightarrow> acct
    \<Rightarrow> (acct_error, Session) result \<times> acct" where
  "SessionOf parse_time sha now raw a =
     (if raw = '''' then (Inl NoSession, a)
      else case session_lookup sha raw a of
        None \<Rightarrow> (Inl InvalidSession, a)
      | Some (s, u) \<Rightarrow>
          (case parse_time (se_expires s) of
             None \<Rightarrow> (Inl ExpiredSession, delete_session (sha raw) a)
           | Some exp \<Rightarrow>
               if exp < now then (Inl ExpiredSession, delete_session (sha raw) a)
               else (Inr \<lparr>ss_UserID = se_user s, ss_Email = us_email u, ss_CSRF = se_csrf s, ss_Expires = exp\<rparr>, a)))"

definition Logout :: "(string \<Rightarrow> string) \<Rightarrow> instant \<Rightarrow> string \<Rightarrow> acct \<Rightarrow> acct" where
  "Logout sha now raw a = audit_event ''logout'' '''' now (delete_session (sha raw) a)"

definition ChangePassword :: "'m coreauth \<Rightarrow> (string \<Rightarrow> instant option) \<Rightarrow> (string \<Rightarrow> string) \<Rightarrow> instant \<Rightarrow> int \<Rightarrow> string
    \<Rightarrow> string \<Rightarrow> string \<Rightarrow> acct \<Rightarrow> (acct_error, unit) result \<times> acct" where
  "ChangePassword ca parse_time sha now userID currentPassword newPassword keepToken a =
     (if length newPassword < MinPasswordLength then (Inl PasswordTooShort, a)
      else case first_row (\<lambda>u. us_id u = userID) (ac_users a) of
        None \<Rightarrow> (Inl InvalidCurrentPassword, a)
      | Some u \<Rightarrow>
          if \<not> ca_verify ca (us_hash u) currentPassword then (Inl InvalidCurrentPassword, a)
          else case ca_hash ca newPassword of
            Inl e \<Rightarrow> (Inl (HashFailed e), a)
          | Inr nextHash \<Rightarrow>
              (let a1 = a\<lparr>ac_users := upd_where (\<lambda>x. us_id x = userID) (\<lambda>x. x\<lparr>us_hash := nextHash\<rparr>) (ac_users a),
                         ac_sessions := del_where (\<lambda>s. se_user s = userID \<and> se_hash s \<noteq> sha keepToken) (ac_sessions a)\<rparr>;
                   a2 = audit_event ''password_changed'' ''self-service password change'' now a1
               in case Reload ca parse_time a2 of Inl e \<Rightarrow> (Inl e, a2) | Inr _ \<Rightarrow> (Inr (), a2)))"

subsection \<open>What the statements keep\<close>

named_theorems acct_simps \<open>definitions of the account operations, for case analysis\<close>

lemmas [acct_simps] = insert_session_def insert_member_def upsert_member_def insert_user_def audit_event_def delete_session_def

lemma insert_session_ok:
  assumes "acct_ok d a" "insert_session r a = Inr a'"
  shows "acct_ok d a'"
proof -
  have "a' = a\<lparr>ac_sessions := ac_sessions a @ [r]\<rparr>" "se_hash r \<notin> set (map se_hash (ac_sessions a))"
    "se_user r \<in> us_id ` set (ac_users a)"
    using assms(2) by (auto simp: insert_session_def split: if_splits)
  with assms(1) show ?thesis unfolding acct_ok_def by simp
qed

lemma insert_member_ok:
  assumes "acct_ok d a" "insert_member d r a = Inr a'" "mb_role r \<in> {''owner'', ''admin'', ''operator'', ''viewer''}"
  shows "acct_ok d a'"
proof -
  have "a' = a\<lparr>ac_members := ac_members a @ [r]\<rparr>" "(mb_org r, mb_user r) \<notin> set (map (\<lambda>m. (mb_org m, mb_user m)) (ac_members a))"
    "mb_org r \<in> set (org_ids d)" "mb_user r \<in> us_id ` set (ac_users a)"
    using assms(2) by (auto simp: insert_member_def split: if_splits)
  with assms(1,3) show ?thesis unfolding acct_ok_def by simp
qed

lemma upsert_member_ok:
  assumes "acct_ok d a" "upsert_member d r a = Inr a'" "mb_role r \<in> {''owner'', ''admin'', ''operator'', ''viewer''}"
  shows "acct_ok d a'"
proof (cases "\<exists>m \<in> set (ac_members a). mb_org m = mb_org r \<and> mb_user m = mb_user r")
  case True
  let ?ms = "upd_where (\<lambda>m. mb_org m = mb_org r \<and> mb_user m = mb_user r) (\<lambda>m. m\<lparr>mb_role := mb_role r\<rparr>) (ac_members a)"
  have a': "a' = a\<lparr>ac_members := ?ms\<rparr>" using assms(2) True by (auto simp: upsert_member_def)
  have "distinct (map (\<lambda>m. (mb_org m, mb_user m)) ?ms)"
    using assms(1) by (simp add: map_upd_where_same acct_ok_def)
  moreover have "\<forall>m \<in> set ?ms. mb_org m \<in> set (org_ids d) \<and> mb_user m \<in> us_id ` set (ac_users a) \<and>
      mb_role m \<in> {''owner'', ''admin'', ''operator'', ''viewer''}"
  proof -
    have old: "\<forall>m \<in> set (ac_members a). mb_org m \<in> set (org_ids d) \<and> mb_user m \<in> us_id ` set (ac_users a) \<and>
        mb_role m \<in> {''owner'', ''admin'', ''operator'', ''viewer''}"
      using assms(1) by (simp add: acct_ok_def)
    show ?thesis
    proof
      fix m assume "m \<in> set ?ms"
      then obtain m0 where "m0 \<in> set (ac_members a)" "m = m0 \<or> m = m0\<lparr>mb_role := mb_role r\<rparr>"
        unfolding set_upd_where by blast
      with old assms(3) show "mb_org m \<in> set (org_ids d) \<and> mb_user m \<in> us_id ` set (ac_users a) \<and>
        mb_role m \<in> {''owner'', ''admin'', ''operator'', ''viewer''}" by (elim disjE) simp_all
    qed
  qed
  ultimately show ?thesis using assms(1) unfolding a' acct_ok_def by simp
next
  case False
  then have "insert_member d r a = Inr a'"
    using assms(2) unfolding upsert_member_def by (simp only: if_False)
  then show ?thesis using insert_member_ok [OF assms(1)] assms(3) by simp
qed

lemma insert_user_ok: "acct_ok d a \<Longrightarrow> insert_user r a = Inr (i, a') \<Longrightarrow> acct_ok d a'"
proof -
  assume ok: "acct_ok d a" and ins: "insert_user r a = Inr (i, a')"
  have i: "i = fresh_id (map us_id (ac_users a))" "a' = a\<lparr>ac_users := ac_users a @ [r\<lparr>us_id := i\<rparr>]\<rparr>"
    "us_email r \<notin> set (map us_email (ac_users a))"
    using ins by (auto simp: insert_user_def Let_def split: if_splits)
  have "i \<notin> set (map us_id (ac_users a))" unfolding i(1) by (rule fresh_id_notin)
  then show ?thesis using ok i(3) unfolding i(2) acct_ok_def by auto
qed

lemma acct_ok_cong:
  "acct_ok d a \<Longrightarrow> ac_users a' = ac_users a \<Longrightarrow> ac_members a' = ac_members a \<Longrightarrow> ac_tokens a' = ac_tokens a \<Longrightarrow>
     set (ac_sessions a') \<subseteq> set (ac_sessions a) \<Longrightarrow> distinct (map se_hash (ac_sessions a')) \<Longrightarrow>
     distinct (map ox_state (ac_states a')) \<Longrightarrow> acct_ok d a'"
  unfolding acct_ok_def by auto

lemma audit_event_ok: "acct_ok d a \<Longrightarrow> acct_ok d (audit_event k t now a)"
  by (simp add: acct_ok_def audit_event_def)

lemma delete_session_ok: "acct_ok d a \<Longrightarrow> acct_ok d (delete_session h a)"
  by (simp add: acct_ok_def delete_session_def)

lemmas statement_acct_ok = insert_session_ok insert_member_ok upsert_member_ok insert_user_ok audit_event_ok delete_session_ok

text \<open>Every operation on the accounts preserves the schema's constraints.\<close>

lemma Add_ok: "acct_ok d a \<Longrightarrow> acct_ok d (snd (Add d now actor org email role a))"
proof (cases "upsert_member d \<lparr>mb_org = org, mb_user = us_id (the (user_by_email email a)), mb_role = to_lower role, mb_created = format_nano now\<rparr> a")
  case (Inr a1)
  assume ok: "acct_ok d a"
  have "acct_ok d a1" if "to_lower role \<in> {''owner'', ''admin'', ''operator'', ''viewer''}"
    using upsert_member_ok [OF ok Inr] that by simp
  moreover have "acct_ok d (a1\<lparr>ac_security := s\<rparr>)" if "acct_ok d a1" for s
    using that by (simp add: acct_ok_def)
  ultimately show ?thesis using ok Inr unfolding Add_def Let_def
    by (auto split: option.split sum.split)
qed (auto simp: Add_def Let_def split: option.split)

lemma Create_ok: "acct_ok d a \<Longrightarrow> acct_ok d (snd (Create d hash tok now user org nm scopes a))"
proof -
  assume ok: "acct_ok d a"
  have "fresh_id (map tk_id (ac_tokens a)) \<notin> set (map tk_id (ac_tokens a))" by (rule fresh_id_notin)
  then show ?thesis using ok unfolding Create_def Let_def acct_ok_def by auto
qed

lemma token_update_ok:
  assumes "acct_ok d a" "\<And>t. tk_id (f t) = tk_id t \<and> tk_hash (f t) = tk_hash t \<and> tk_user (f t) = tk_user t \<and> tk_org (f t) = tk_org t"
  shows "acct_ok d (a\<lparr>ac_tokens := upd_where P f (ac_tokens a)\<rparr>)"
  using assms by (auto simp: acct_ok_def map_upd_where_same set_upd_where)

lemma Authenticate_ok: "acct_ok d a \<Longrightarrow> acct_ok d (snd (Authenticate hash now tok a))"
  by (auto simp: Authenticate_def token_update_ok split: option.split)

lemma Revoke_ok: "acct_ok d a \<Longrightarrow> acct_ok d (Revoke now i user org a)"
  by (simp add: Revoke_def token_update_ok)

lemma create_admin_tx_ok: "acct_ok d a \<Longrightarrow> create_admin_tx d now org username email h a = Inr a' \<Longrightarrow> acct_ok d a'"
proof -
  assume ok: "acct_ok d a" and tx: "create_admin_tx d now org username email h a = Inr a'"
  then obtain i a1 and u :: user_row where "insert_user \<lparr>us_id = 0, us_username = username, us_email = email, us_hash = h, us_role = ''admin'',
        us_created = format_nano now\<rparr> a = Inr (i, a1)"
      "insert_member d \<lparr>mb_org = org, mb_user = us_id u, mb_role = ''owner'', mb_created = format_nano now\<rparr> a1 = Inr a'"
    by (auto simp: create_admin_tx_def split: if_splits sum.splits option.splits)
  then show ?thesis using insert_member_ok [OF insert_user_ok [OF ok]] by simp
qed

lemma CreateAdmin_ok: "acct_ok d a \<Longrightarrow> acct_ok d (snd (CreateAdmin ca parse_time d now username email pw a))"
  unfolding CreateAdmin_def Let_def
  by (auto simp: audit_event_ok create_admin_tx_ok split: sum.split)

lemma open_session_ok: "acct_ok d a \<Longrightarrow> acct_ok d (snd (open_session sha raw csrf now i name kind a))"
  unfolding open_session_def Let_def by (auto simp: audit_event_ok insert_session_ok split: sum.split)

lemma Login_ok: "acct_ok d a \<Longrightarrow> acct_ok d (snd (Login ca parse_time sha raw csrf now email pw a))"
  by (auto simp: Login_def open_session_ok split: sum.split option.split)

lemma CreateSessionForUser_ok: "acct_ok d a \<Longrightarrow> acct_ok d (snd (CreateSessionForUser ca parse_time sha raw csrf now i email a))"
  by (auto simp: CreateSessionForUser_def open_session_ok split: sum.split)

lemma SessionOf_ok: "acct_ok d a \<Longrightarrow> acct_ok d (snd (SessionOf parse_time sha now raw a))"
  by (auto simp: SessionOf_def delete_session_ok split: option.split)

lemma Logout_ok: "acct_ok d a \<Longrightarrow> acct_ok d (Logout sha now raw a)"
  by (simp add: Logout_def audit_event_ok delete_session_ok)

lemma ChangePassword_ok: "acct_ok d a \<Longrightarrow> acct_ok d (snd (ChangePassword ca parse_time sha now i old new keep a))"
proof -
  assume ok: "acct_ok d a"
  let ?us = "upd_where (\<lambda>x. us_id x = i) (\<lambda>x. x\<lparr>us_hash := h\<rparr>) (ac_users a)"
  have "acct_ok d (a\<lparr>ac_users := upd_where (\<lambda>x. us_id x = i) (\<lambda>x. x\<lparr>us_hash := h\<rparr>) (ac_users a),
      ac_sessions := del_where (\<lambda>s. se_user s = i \<and> se_hash s \<noteq> sha keep) (ac_sessions a)\<rparr>)" for h
  proof -
    let ?us = "upd_where (\<lambda>x. us_id x = i) (\<lambda>x. x\<lparr>us_hash := h\<rparr>) (ac_users a)"
    have "map us_id ?us = map us_id (ac_users a)" "map us_email ?us = map us_email (ac_users a)"
      by (simp_all add: map_upd_where_same)
    moreover from this have "us_id ` set ?us = us_id ` set (ac_users a)" by (metis list.set_map)
    ultimately show ?thesis using ok unfolding acct_ok_def by simp
  qed
  with ok show ?thesis unfolding ChangePassword_def Let_def
    by (auto simp: audit_event_ok split: option.split sum.split)
qed

subsection \<open>Sessions\<close>

lemma first_user_new_hash:
  "first_row (\<lambda>u. us_id u = j) (upd_where P (\<lambda>x. x\<lparr>us_hash := h\<rparr>) us) =
     map_option (\<lambda>u. if P u then u\<lparr>us_hash := h\<rparr> else u) (first_row (\<lambda>u. us_id u = j) us)"
  by (rule first_row_upd_where) simp

lemma first_session_kept:
  "distinct (map se_hash ss) \<Longrightarrow>
     first_row (\<lambda>s. se_hash s = h) (del_where Q ss) =
       (case first_row (\<lambda>s. se_hash s = h) ss of None \<Rightarrow> None | Some s \<Rightarrow> if Q s then None else Some s)"
proof (induction ss)
  case (Cons s ss)
  show ?case
  proof (cases "se_hash s = h")
    case True
    then have "\<And>r. r \<in> set ss \<Longrightarrow> se_hash r \<noteq> h" using Cons.prems by (simp, metis rev_image_eqI)
    then have "first_row (\<lambda>s. se_hash s = h) (del_where Q ss) = None" by (simp add: first_row_None)
    with True show ?thesis by (simp add: del_where_def)
  next
    case False
    with Cons show ?thesis by (simp add: del_where_def)
  qed
qed (simp add: del_where_def)

lemma ChangePassword_state:
  assumes "ChangePassword ca parse_time sha now i old new keep a = (Inr (), a')"
  obtains h u where "ca_hash ca new = Inr h" "first_row (\<lambda>u. us_id u = i) (ac_users a) = Some u"
    "ca_verify ca (us_hash u) old" "MinPasswordLength \<le> length new"
    "ac_users a' = upd_where (\<lambda>x. us_id x = i) (\<lambda>x. x\<lparr>us_hash := h\<rparr>) (ac_users a)"
    "ac_sessions a' = del_where (\<lambda>s. se_user s = i \<and> se_hash s \<noteq> sha keep) (ac_sessions a)"
proof -
  obtain u where u: "first_row (\<lambda>u. us_id u = i) (ac_users a) = Some u" "ca_verify ca (us_hash u) old" "\<not> length new < MinPasswordLength"
    using assms by (auto simp: ChangePassword_def split: if_splits option.splits)
  obtain h where h: "ca_hash ca new = Inr h"
    using assms u by (cases "ca_hash ca new") (auto simp: ChangePassword_def)
  show ?thesis
    using assms u h
    by (intro that [OF h u(1,2)]) (auto simp: ChangePassword_def Let_def audit_event_def split: sum.splits)
qed

text \<open>C22. A successful password change signs every other browser of that user out and nobody else: afterwards a session
  token is rejected exactly when it was rejected before or belongs to that user and is not the token that made the change;
  and the stored hash is the one of the new password, the old one having been verified.\<close>

theorem password_change_revokes:
  assumes "acct_ok d a" "ChangePassword ca parse_time sha now i old new keep a = (Inr (), a')"
  shows "fst (SessionOf parse_time sha t raw a') =
      (if raw \<noteq> '''' \<and> sha raw \<noteq> sha keep \<and> (\<exists>s u. session_lookup sha raw a = Some (s, u) \<and> se_user s = i)
       then Inl InvalidSession else fst (SessionOf parse_time sha t raw a)) \<and>
    (\<exists>u h. first_row (\<lambda>u. us_id u = i) (ac_users a) = Some u \<and> ca_verify ca (us_hash u) old \<and> ca_hash ca new = Inr h \<and>
       first_row (\<lambda>u. us_id u = i) (ac_users a') = Some (u\<lparr>us_hash := h\<rparr>))"
proof -
  obtain h u where st: "ca_hash ca new = Inr h" "first_row (\<lambda>u. us_id u = i) (ac_users a) = Some u" "ca_verify ca (us_hash u) old"
      "ac_users a' = upd_where (\<lambda>x. us_id x = i) (\<lambda>x. x\<lparr>us_hash := h\<rparr>) (ac_users a)"
      "ac_sessions a' = del_where (\<lambda>s. se_user s = i \<and> se_hash s \<noteq> sha keep) (ac_sessions a)"
    by (rule ChangePassword_state [OF assms(2)])
  have "us_id u = i" using first_row_Some [OF st(2)] by simp
  then have user: "first_row (\<lambda>u. us_id u = i) (ac_users a') = Some (u\<lparr>us_hash := h\<rparr>)"
    unfolding st(4) first_user_new_hash by (simp add: st(2))
  have sess: "first_row (\<lambda>s. se_hash s = sha raw) (ac_sessions a') =
      (case first_row (\<lambda>s. se_hash s = sha raw) (ac_sessions a) of None \<Rightarrow> None
       | Some s \<Rightarrow> if se_user s = i \<and> se_hash s \<noteq> sha keep then None else Some s)"
    unfolding st(5) using assms(1) by (intro first_session_kept) (simp add: acct_ok_def)
  have "session_lookup sha raw a' = (case session_lookup sha raw a of None \<Rightarrow> None
     | Some (s, v) \<Rightarrow> if se_user s = i \<and> sha raw \<noteq> sha keep then None
                     else Some (s, if us_id v = i then v\<lparr>us_hash := h\<rparr> else v))"
    unfolding session_lookup_def sess st(4) first_user_new_hash
  proof (cases "first_row (\<lambda>s. se_hash s = sha raw) (ac_sessions a)")
    case (Some s)
    then have "se_hash s = sha raw" using first_row_Some by fastforce
    with Some show "(case case first_row (\<lambda>s. se_hash s = sha raw) (ac_sessions a) of None \<Rightarrow> None
          | Some s \<Rightarrow> if se_user s = i \<and> se_hash s \<noteq> sha keep then None else Some s of None \<Rightarrow> None
        | Some s \<Rightarrow> map_option (Pair s) (map_option (\<lambda>u. if us_id u = i then u\<lparr>us_hash := h\<rparr> else u)
            (first_row (\<lambda>u. us_id u = se_user s) (ac_users a)))) =
      (case case first_row (\<lambda>s. se_hash s = sha raw) (ac_sessions a) of None \<Rightarrow> None
          | Some s \<Rightarrow> map_option (Pair s) (first_row (\<lambda>u. us_id u = se_user s) (ac_users a)) of None \<Rightarrow> None
        | Some (s, v) \<Rightarrow> if se_user s = i \<and> sha raw \<noteq> sha keep then None
            else Some (s, if us_id v = i then v\<lparr>us_hash := h\<rparr> else v))"
      by (cases "first_row (\<lambda>u. us_id u = se_user s) (ac_users a)") simp_all
  qed simp
  then show ?thesis using st(1-3) user
    by (cases "session_lookup sha raw a") (auto simp: SessionOf_def split: option.split)
qed

text \<open>C23. A session lives for exactly 24 hours from the login that opened it: until then its token yields the user and the CSRF
  token handed out, afterwards it is refused and its row removed, so that it is refused from then on; and a logout
  ends it at once.\<close>

theorem session_lifetime:
  assumes "acct_ok d a" "raw \<noteq> ''''" "parse_time (format_nano (now + 24 * hour)) = Some (now + 24 * hour)"
    and opened: "open_session sha raw csrf now i name kind a = (Inr (tok, sess), a')"
  shows "tok = raw \<and> ss_Expires sess = now + 24 * hour \<and>
    (t \<le> now + 24 * hour \<longrightarrow>
      (\<exists>u \<in> set (ac_users a). us_id u = i \<and> SessionOf parse_time sha t raw a' = (Inr (sess\<lparr>ss_Email := us_email u\<rparr>), a'))) \<and>
    (now + 24 * hour < t \<longrightarrow> fst (SessionOf parse_time sha t raw a') = Inl ExpiredSession \<and>
      fst (SessionOf parse_time sha t' raw (snd (SessionOf parse_time sha t raw a'))) = Inl InvalidSession) \<and>
    fst (SessionOf parse_time sha t raw (Logout sha t0 raw a')) = Inl InvalidSession"
proof -
  let ?r = "\<lparr>se_hash = sha raw, se_user = i, se_csrf = csrf, se_expires = format_nano (now + 24 * hour), se_created = format_nano now\<rparr>"
  obtain a1 where ins: "insert_session ?r a = Inr a1" and a': "a' = audit_event kind name now a1"
    and sess: "tok = raw" "sess = \<lparr>ss_UserID = i, ss_Email = name, ss_CSRF = csrf, ss_Expires = now + 24 * hour\<rparr>"
    using opened by (auto simp: open_session_def Let_def split: sum.splits)
  have rows: "ac_sessions a' = ac_sessions a @ [?r]" "ac_users a' = ac_users a" "i \<in> us_id ` set (ac_users a)"
    and new: "\<forall>s \<in> set (ac_sessions a). se_hash s \<noteq> sha raw"
    using ins unfolding a' by (auto simp: insert_session_def audit_event_def split: if_splits)
  have none: "first_row (\<lambda>s. se_hash s = sha raw) (ac_sessions a) = None" using new by (simp add: first_row_None)
  obtain u where u: "first_row (\<lambda>u. us_id u = i) (ac_users a) = Some u"
    using rows(3) by (cases "first_row (\<lambda>u. us_id u = i) (ac_users a)") (auto simp: first_row_None)
  have look: "session_lookup sha raw a' = Some (?r, u)"
    by (simp add: session_lookup_def rows first_row_append none u)
  have gone: "session_lookup sha raw (delete_session (sha raw) x) = None" for x
    by (simp add: session_lookup_def delete_session_def first_row_del_where_same)
  have lu: "session_lookup sha raw (audit_event k n t x) = session_lookup sha raw x" for k n t x
    by (simp add: session_lookup_def audit_event_def split: option.split)
  have "\<exists>u \<in> set (ac_users a). us_id u = i \<and> SessionOf parse_time sha t raw a' = (Inr (sess\<lparr>ss_Email := us_email u\<rparr>), a')"
    if "t \<le> now + 24 * hour"
    using that assms(2,3) first_row_Some [OF u] by (intro bexI [of _ u]) (simp_all add: SessionOf_def look sess)
  moreover have "fst (SessionOf parse_time sha t raw a') = Inl ExpiredSession \<and>
      fst (SessionOf parse_time sha t' raw (snd (SessionOf parse_time sha t raw a'))) = Inl InvalidSession"
    if "now + 24 * hour < t"
    using that assms(2,3) by (simp add: SessionOf_def look gone)
  moreover have "fst (SessionOf parse_time sha t raw (Logout sha t0 raw a')) = Inl InvalidSession"
    using assms(2) by (simp add: SessionOf_def Logout_def lu gone)
  ultimately show ?thesis by (simp add: sess)
qed

text \<open>A concrete account model and user for the witnesses.\<close>

definition sample_core :: "account list coreauth" where
  "sample_core = \<lparr>ca_model = (\<lambda>accs roles. Inr accs), ca_empty = (\<lambda>m. m = []),
     ca_password = (\<lambda>m email pw. List.find (\<lambda>x. \<exists>idn \<in> set (acc_Identities x). idn_Email idn = email \<and> idn_PasswordHash idn = ''h'' @ pw) m),
     ca_hash = (\<lambda>pw. Inr (''h'' @ pw)), ca_verify = (\<lambda>h pw. h = ''h'' @ pw)\<rparr>"

definition sample_user :: user_row where
  "sample_user = \<lparr>us_id = 1, us_username = ''ann'', us_email = ''a@b.c'', us_hash = ''hsecret1'', us_role = ''admin'', us_created = ''''\<rparr>"

definition sample_acct :: acct where
  "sample_acct = init_acct\<lparr>ac_users := [sample_user], ac_sessions :=
     [\<lparr>se_hash = ''r1'', se_user = 1, se_csrf = ''c1'', se_expires = '''', se_created = ''''\<rparr>,
      \<lparr>se_hash = ''r2'', se_user = 1, se_csrf = ''c2'', se_expires = '''', se_created = ''''\<rparr>],
     ac_members := [\<lparr>mb_org = 1, mb_user = 1, mb_role = ''owner'', mb_created = ''''\<rparr>]\<rparr>"

lemma sample_acct_ok: "acct_ok init_db sample_acct"
  by (simp add: acct_ok_def sample_acct_def init_acct_def sample_user_def init_db_def)

theorem password_change_revokes_witness:
  "fst (SessionOf (\<lambda>s. Some 0) id 0 ''r1'' (snd (ChangePassword sample_core (\<lambda>s. Some 0) id 0 1 ''secret1'' ''secret2'' ''r2'' sample_acct))) =
     Inl InvalidSession"
proof -
  have step: "ChangePassword sample_core (\<lambda>s. Some 0) id 0 1 ''secret1'' ''secret2'' ''r2'' sample_acct =
      (Inr (), snd (ChangePassword sample_core (\<lambda>s. Some 0) id 0 1 ''secret1'' ''secret2'' ''r2'' sample_acct))"
    by (simp add: ChangePassword_def sample_core_def sample_acct_def sample_user_def init_acct_def MinPasswordLength_def
        Reload_def LoadAccounts_def audit_event_def upd_where_def Let_def)
  have look: "\<exists>s u. session_lookup id ''r1'' sample_acct = Some (s, u) \<and> se_user s = 1"
    by (simp add: session_lookup_def sample_acct_def sample_user_def init_acct_def)
  show ?thesis
    using password_change_revokes [OF sample_acct_ok step, of 0 "''r1''"] look by simp
qed

theorem session_lifetime_witness:
  "\<exists>sess a'. open_session id ''r3'' ''c3'' 0 1 ''ann'' ''login'' sample_acct = (Inr (''r3'', sess), a') \<and>
     fst (SessionOf (\<lambda>s. Some (24 * hour)) id (25 * hour) ''r3'' a') = Inl ExpiredSession \<and>
     fst (SessionOf (\<lambda>s. Some (24 * hour)) id 0 ''r3'' (Logout id 0 ''r3'' a')) = Inl InvalidSession"
proof -
  obtain sess a' where opened: "open_session id ''r3'' ''c3'' 0 1 ''ann'' ''login'' sample_acct = (Inr (''r3'', sess), a')"
    by (simp add: open_session_def insert_session_def sample_acct_def sample_user_def init_acct_def Let_def)
  have p: "(\<lambda>s. Some (24 * hour)) (format_nano (0 + 24 * hour)) = Some (0 + 24 * hour)" by simp
  note live = session_lifetime [OF sample_acct_ok _ p opened]
  from live [of "25 * hour"] live [of 0] opened show ?thesis by auto
qed

end
