(* ===== verification/Oidc.thy ===== *)
theory Oidc
  imports Accounts
begin

text \<open>
  Single sign-on, \<^verbatim>\<open>internal/oidc/oidc.go\<close>. The \<^verbatim>\<open>go-oidc\<close> provider (discovery, its endpoints, ID-token
  verification) and the HTTP answers of the provider are the fields of \<open>oidc_world\<close>; the cache of
  discovered providers is the state \<open>prov\<close>. The theory ends with the step relation of all account
  operations and the invariants that hold along it.
\<close>

record Config =
  cfg_Issuer :: string
  cfg_ClientID :: string
  cfg_ClientSecret :: string
  cfg_Enabled :: bool
  cfg_AutoProvision :: bool

record id_token =
  idt_Nonce :: string
  idt_Claims :: "(string \<times> bool) option" \<comment> \<open>\<^verbatim>\<open>email\<close> and \<^verbatim>\<open>email_verified\<close>; \<open>None\<close> when they do not decode\<close>

record token_answer =
  ta_status :: int
  ta_body :: "(string \<times> string) option" \<comment> \<open>\<^verbatim>\<open>access_token\<close> and \<^verbatim>\<open>id_token\<close>; \<open>None\<close> when the body is not JSON\<close>

record userinfo_answer =
  ua_status :: int
  ua_body :: "(string \<times> bool \<times> string) option" \<comment> \<open>\<^verbatim>\<open>email\<close>, \<^verbatim>\<open>email_verified\<close>, \<^verbatim>\<open>iss\<close>\<close>

record 'p oidc_world =
  ow_discover :: "string \<Rightarrow> 'p option"
  ow_auth_url :: "'p \<Rightarrow> string"
  ow_userinfo_url :: "'p \<Rightarrow> string"
  ow_token :: "'p \<Rightarrow> (string \<times> string) list \<Rightarrow> token_answer option" \<comment> \<open>the form posted to the token endpoint\<close>
  ow_verify :: "'p \<Rightarrow> string \<Rightarrow> string \<Rightarrow> id_token option" \<comment> \<open>client id and raw ID token\<close>
  ow_userinfo :: "'p \<Rightarrow> string \<Rightarrow> userinfo_answer option" \<comment> \<open>the access token sent as Bearer\<close>

definition rowConfig :: "acct \<Rightarrow> Config" where
  "rowConfig a = (case ac_oidc a of
     None \<Rightarrow> \<lparr>cfg_Issuer = '''', cfg_ClientID = '''', cfg_ClientSecret = '''', cfg_Enabled = False, cfg_AutoProvision = False\<rparr>
   | Some r \<Rightarrow> \<lparr>cfg_Issuer = oc_issuer r, cfg_ClientID = oc_client r, cfg_ClientSecret = oc_secret r,
       cfg_Enabled = oc_enabled r, cfg_AutoProvision = oc_auto r\<rparr>)"

definition public_config :: "acct \<Rightarrow> Config" where
  "public_config a = (rowConfig a)\<lparr>cfg_ClientSecret := ''''\<rparr>"

definition provider :: "'p oidc_world \<Rightarrow> string \<Rightarrow> (string \<rightharpoonup> 'p) \<Rightarrow> 'p option \<times> (string \<rightharpoonup> 'p)" where
  "provider w issuer prov =
     (case prov issuer of
        Some p \<Rightarrow> (Some p, prov)
      | None \<Rightarrow> (case ow_discover w issuer of None \<Rightarrow> (None, prov) | Some p \<Rightarrow> (Some p, prov(issuer \<mapsto> p))))"

definition dropProvider :: "string \<Rightarrow> (string \<rightharpoonup> 'p) \<Rightarrow> (string \<rightharpoonup> 'p)" where
  "dropProvider issuer prov = prov(issuer := None)"

definition Save :: "'p oidc_world \<Rightarrow> instant \<Rightarrow> Config \<Rightarrow> (string \<rightharpoonup> 'p) \<Rightarrow> acct
    \<Rightarrow> (acct_error, unit) result \<times> (string \<rightharpoonup> 'p) \<times> acct" where
  "Save w now c prov a =
     (let issuer = trim_right_char (CHR ''/'') (trim_space (cfg_Issuer c))
      in if \<not> has_prefix issuer ''https://'' \<or> cfg_ClientID c = '''' \<or> cfg_ClientSecret c = '''' then (Inl OIDCConfig, prov, a)
         else case provider w issuer prov of
           (None, prov1) \<Rightarrow> (Inl OIDCDiscovery, prov1, a)
         | (Some _, prov1) \<Rightarrow> (Inr (), dropProvider issuer prov1,
             a\<lparr>ac_oidc := Some \<lparr>oc_issuer = issuer, oc_client = cfg_ClientID c, oc_secret = cfg_ClientSecret c,
               oc_enabled = cfg_Enabled c, oc_auto = cfg_AutoProvision c, oc_updated = format_nano now\<rparr>\<rparr>))"

text \<open>\<^verbatim>\<open>url.Values.Encode\<close>: the pairs sorted by key, each component query-escaped.\<close>

definition hex_upper :: "nat \<Rightarrow> char" where
  "hex_upper n = char_of (if n < 10 then 48 + n else 55 + n)"

definition query_escape_char :: "char \<Rightarrow> string" where
  "query_escape_char c =
     (let n = (of_char c :: nat)
      in if (48 \<le> n \<and> n \<le> 57) \<or> (65 \<le> n \<and> n \<le> 90) \<or> (97 \<le> n \<and> n \<le> 122) \<or> c \<in> {CHR ''-'', CHR ''_'', CHR ''.'', CHR ''~''}
         then [c]
         else if c = CHR '' '' then ''+'' else [CHR ''%'', hex_upper (n div 16), hex_upper (n mod 16)])"

definition QueryEscape :: "string \<Rightarrow> string" where
  "QueryEscape s = concat (map query_escape_char s)"

definition values_encode :: "(string \<times> string) list \<Rightarrow> string" where
  "values_encode vs = join_str ''&'' (map (\<lambda>(k, v). QueryEscape k @ ''='' @ QueryEscape v) (sort_key fst vs))"

definition Begin :: "'p oidc_world \<Rightarrow> string \<Rightarrow> string \<Rightarrow> instant \<Rightarrow> string \<Rightarrow> string \<Rightarrow> (string \<rightharpoonup> 'p) \<Rightarrow> acct
    \<Rightarrow> (acct_error, string) result \<times> (string \<rightharpoonup> 'p) \<times> acct" where
  "Begin w state nonce now redirect browser prov a =
     (let c = rowConfig a
      in if \<not> cfg_Enabled c then (Inl OIDCNotEnabled, prov, a)
         else case provider w (cfg_Issuer c) prov of
           (None, prov1) \<Rightarrow> (Inl OIDCDiscovery, prov1, a)
         | (Some p, prov1) \<Rightarrow>
             if \<exists>x \<in> set (ac_states a). ox_state x = state then (Inl (SqlFailed UniqueViolation), prov1, a)
             else (Inr (ow_auth_url w p @ ''?'' @ values_encode
                     [(''client_id'', cfg_ClientID c), (''response_type'', ''code''), (''scope'', ''openid email profile''),
                      (''redirect_uri'', redirect), (''state'', state), (''nonce'', nonce)]),
                   prov1,
                   a\<lparr>ac_states := ac_states a @ [\<lparr>ox_state = state, ox_nonce = nonce, ox_browser = browser,
                      ox_expires = format_nano (now + 10 * minute)\<rparr>]\<rparr>))"

definition exchangeCode :: "'p oidc_world \<Rightarrow> 'p \<Rightarrow> Config \<Rightarrow> string \<Rightarrow> string \<Rightarrow> (acct_error, string \<times> string) result" where
  "exchangeCode w p c code redirect =
     (case ow_token w p [(''grant_type'', ''authorization_code''), (''code'', code), (''redirect_uri'', redirect),
                         (''client_id'', cfg_ClientID c), (''client_secret'', cfg_ClientSecret c)] of
        None \<Rightarrow> Inl OIDCExchange
      | Some resp \<Rightarrow>
          if ta_status resp \<noteq> 200 then Inl OIDCExchange
          else case ta_body resp of
            None \<Rightarrow> Inl OIDCExchange
          | Some (access, idt) \<Rightarrow> if idt = '''' then Inl OIDCExchange else Inr (idt, access))"

definition userinfo :: "'p oidc_world \<Rightarrow> 'p \<Rightarrow> string \<Rightarrow> string \<Rightarrow> (acct_error, string \<times> bool) result" where
  "userinfo w p access issuer =
     (if ow_userinfo_url w p = '''' then Inl OIDCUserinfo
      else case ow_userinfo w p access of
        None \<Rightarrow> Inl OIDCUserinfo
      | Some resp \<Rightarrow>
          if ua_status resp \<noteq> 200 then Inl OIDCUserinfo
          else case ua_body resp of
            None \<Rightarrow> Inl OIDCUserinfo
          | Some (email, verified, iss) \<Rightarrow>
              if iss \<noteq> '''' \<and> iss \<noteq> issuer then Inl OIDCUserinfo else Inr (email, verified))"

text \<open>The email the verified ID token, or userinfo when the token carries none, vouches for.\<close>

definition verified_email :: "'p oidc_world \<Rightarrow> 'p \<Rightarrow> Config \<Rightarrow> string \<Rightarrow> string \<Rightarrow> string \<Rightarrow> (acct_error, string) result" where
  "verified_email w p c code redirect nonce =
     res_bind (exchangeCode w p c code redirect) (\<lambda>(rawID, access).
       case ow_verify w p (cfg_ClientID c) rawID of
         None \<Rightarrow> Inl OIDCVerify
       | Some idt \<Rightarrow>
           if idt_Nonce idt \<noteq> nonce then Inl OIDCNonce
           else case idt_Claims idt of
             None \<Rightarrow> Inl OIDCClaims
           | Some claims \<Rightarrow>
               res_bind (if fst claims = '''' then userinfo w p access (cfg_Issuer c) else Inr claims) (\<lambda>(email, verified).
                 if email = '''' \<or> \<not> verified then Inl OIDCVerifiedEmail else Inr email))"

text \<open>The account for that email, provisioned as a viewer when the configuration allows it. A failure of the
  membership insert is ignored, as in the source.\<close>

definition provisioned_user :: "db \<Rightarrow> instant \<Rightarrow> Config \<Rightarrow> string \<Rightarrow> acct \<Rightarrow> (acct_error, int \<times> string) result \<times> acct" where
  "provisioned_user d now c email a =
     (case user_by_email email a of
        Some u \<Rightarrow> (Inr (us_id u, us_email u), a)
      | None \<Rightarrow>
          if \<not> cfg_AutoProvision c then (Inl OIDCNotProvisioned, a)
          else case PrimaryOrgID d of
            Inl e \<Rightarrow> (Inl e, a)
          | Inr org \<Rightarrow>
              (case insert_user \<lparr>us_id = 0, us_username = to_lower (hd (split_char (CHR ''@'') email)), us_email = to_lower email,
                      us_hash = '''', us_role = ''viewer'', us_created = format_nano now\<rparr> a of
                 Inl e \<Rightarrow> (Inl (SqlFailed e), a)
               | Inr (i, a1) \<Rightarrow>
                   (Inr (i, to_lower email),
                    case insert_member d \<lparr>mb_org = org, mb_user = i, mb_role = ''viewer'', mb_created = format_nano now\<rparr> a1 of
                      Inl _ \<Rightarrow> a1 | Inr a2 \<Rightarrow> a2)))"

text \<open>An expiry that does not parse reads as Go's zero time, which is always in the past.\<close>

definition Callback :: "'m coreauth \<Rightarrow> (string \<Rightarrow> instant option) \<Rightarrow> (string \<Rightarrow> string) \<Rightarrow> string \<Rightarrow> string \<Rightarrow> 'p oidc_world
    \<Rightarrow> db \<Rightarrow> instant \<Rightarrow> string \<Rightarrow> string \<Rightarrow> string \<Rightarrow> string \<Rightarrow> (string \<rightharpoonup> 'p) \<Rightarrow> acct
    \<Rightarrow> (acct_error, string \<times> Session) result \<times> (string \<rightharpoonup> 'p) \<times> acct" where
  "Callback ca parse_time sha raw csrf w d now state code redirect browser prov a =
     (if trim_space state = '''' \<or> trim_space code = '''' then (Inl OIDCMissing, prov, a)
      else case first_row (\<lambda>x. ox_state x = state \<and> ox_browser x = browser) (ac_states a) of
        None \<Rightarrow> (Inl OIDCInvalidState, prov, a)
      | Some x \<Rightarrow>
          (let a1 = a\<lparr>ac_states := del_where (\<lambda>y. ox_state y = state \<and> ox_browser y = browser) (ac_states a)\<rparr>
           in if (case parse_time (ox_expires x) of None \<Rightarrow> True | Some exp \<Rightarrow> exp < now) then (Inl OIDCExpiredState, prov, a1)
              else let c = rowConfig a1
              in if \<not> cfg_Enabled c then (Inl OIDCNotEnabled, prov, a1)
              else case provider w (cfg_Issuer c) prov of
                (None, prov1) \<Rightarrow> (Inl OIDCDiscovery, prov1, a1)
              | (Some p, prov1) \<Rightarrow>
                  (case verified_email w p c code redirect (ox_nonce x) of
                     Inl e \<Rightarrow> (Inl e, prov1, a1)
                   | Inr email \<Rightarrow>
                       (case provisioned_user d now c email a1 of
                          (Inl e, a2) \<Rightarrow> (Inl e, prov1, a2)
                        | (Inr (i, mail), a2) \<Rightarrow>
                            (case CreateSessionForUser ca parse_time sha raw csrf now i mail a2 of
                               (res, a3) \<Rightarrow> (res, prov1, a3))))))"

subsection \<open>Every account operation as a step\<close>

text \<open>\<open>worlds k\<close> is the identity provider's behaviour at one moment. \<open>ca\<close>, \<open>parse_time\<close> and \<open>sha\<close> are fixed along a run; every other argument, the clock and the random tokens included, is
  arbitrary at each step. \<open>admin_tx\<close> is the transaction of the first-run setup on its own, as two concurrent setup
  requests that have both passed the earlier check would run it.\<close>

inductive acct_step :: "'m coreauth \<Rightarrow> (nat \<Rightarrow> 'p oidc_world) \<Rightarrow> (string \<Rightarrow> instant option) \<Rightarrow> (string \<Rightarrow> string) \<Rightarrow> db \<Rightarrow> acct \<Rightarrow> acct \<Rightarrow> bool"
  for ca :: "'m coreauth" and worlds :: "nat \<Rightarrow> 'p oidc_world" and parse_time :: "string \<Rightarrow> instant option" and sha :: "string \<Rightarrow> string" and d :: db where
  st_add: "acct_step ca worlds parse_time sha d a (snd (Add d now actor org email role a))"
| st_create: "acct_step ca worlds parse_time sha d a (snd (Create d sha tok now user org nm scopes a))"
| st_token: "acct_step ca worlds parse_time sha d a (snd (Authenticate sha now tok a))"
| st_revoke: "acct_step ca worlds parse_time sha d a (Revoke now i user org a)"
| st_admin: "acct_step ca worlds parse_time sha d a (snd (CreateAdmin ca parse_time d now username email pw a))"
| st_admin_tx: "create_admin_tx d now org username email h a = Inr a' \<Longrightarrow> acct_step ca worlds parse_time sha d a a'"
| st_login: "acct_step ca worlds parse_time sha d a (snd (Login ca parse_time sha raw csrf now email pw a))"
| st_session: "acct_step ca worlds parse_time sha d a (snd (SessionOf parse_time sha now raw a))"
| st_logout: "acct_step ca worlds parse_time sha d a (Logout sha now raw a)"
| st_password: "acct_step ca worlds parse_time sha d a (snd (ChangePassword ca parse_time sha now i old new keep a))"
| st_save: "acct_step ca worlds parse_time sha d a (snd (snd (Save (worlds k) now c prov a)))"
| st_begin: "acct_step ca worlds parse_time sha d a (snd (snd (Begin (worlds k) state nonce now redirect browser prov a)))"
| st_callback: "acct_step ca worlds parse_time sha d a
     (snd (snd (Callback ca parse_time sha raw csrf (worlds k) d now state code redirect browser prov a)))"

inductive_cases acct_stepE: "acct_step ca worlds parse_time sha d a a'"

lemma Save_ok: "acct_ok d a \<Longrightarrow> acct_ok d (snd (snd (Save w now c prov a)))"
  by (auto simp: Save_def Let_def acct_ok_def split: option.split prod.split)

lemma Begin_ok:
  assumes "acct_ok d a"
  shows "acct_ok d (snd (snd (Begin w state nonce now redirect browser prov a)))"
proof -
  have "acct_ok d (a\<lparr>ac_states := ac_states a @ [x]\<rparr>)" if "\<forall>y \<in> set (ac_states a). ox_state y \<noteq> ox_state x" for x
    using assms that by (rule_tac acct_ok_cong) (auto simp: acct_ok_def)
  then show ?thesis using assms by (auto simp: Begin_def Let_def split: option.split prod.split)
qed

lemma provisioned_user_ok:
  assumes "acct_ok d a"
  shows "acct_ok d (snd (provisioned_user d now c email a))"
proof -
  have "acct_ok d a2" if "insert_user r a = Inr (i, a1)" "insert_member d m a1 = Inr a2" "mb_role m = ''viewer''" for r i a1 m a2
    using insert_member_ok [OF insert_user_ok [OF assms that(1)] that(2)] that(3) by simp
  moreover have "acct_ok d a1" if "insert_user r a = Inr (i, a1)" for r i a1
    using insert_user_ok [OF assms that] .
  ultimately show ?thesis using assms unfolding provisioned_user_def
    by (auto split: option.split sum.split prod.split)
qed

lemma consume_state_ok: "acct_ok d a \<Longrightarrow> acct_ok d (a\<lparr>ac_states := del_where P (ac_states a)\<rparr>)"
  by (simp add: acct_ok_def)

lemma Callback_ok:
  assumes "acct_ok d a"
  shows "acct_ok d (snd (snd (Callback ca parse_time sha raw csrf w d now state code redirect browser prov a)))"
proof -
  let ?a1 = "a\<lparr>ac_states := del_where (\<lambda>y. ox_state y = state \<and> ox_browser y = browser) (ac_states a)\<rparr>"
  have a1: "acct_ok d ?a1" by (rule consume_state_ok [OF assms])
  have "acct_ok d a2" if "provisioned_user d now c email ?a1 = (r, a2)" for c email r a2
    using provisioned_user_ok [OF a1, of now c email] that by simp
  moreover from this have "acct_ok d a3"
    if "provisioned_user d now c email ?a1 = (r', a2)" "CreateSessionForUser ca parse_time sha raw csrf now i mail a2 = (r, a3)"
    for c email r' i mail a2 r a3
    using CreateSessionForUser_ok [of d a2 ca parse_time sha raw csrf now i mail] that by (metis snd_conv)
  ultimately show ?thesis using assms a1 unfolding Callback_def Let_def
    by (auto split: option.split sum.split prod.split)
qed

lemmas operation_acct_ok = Add_ok Create_ok Authenticate_ok Revoke_ok CreateAdmin_ok create_admin_tx_ok Login_ok SessionOf_ok
  Logout_ok ChangePassword_ok Save_ok Begin_ok Callback_ok

lemma acct_step_ok: "acct_step ca worlds parse_time sha d a a' \<Longrightarrow> acct_ok d a \<Longrightarrow> acct_ok d a'"
  by (induction rule: acct_step.induct) (simp_all add: operation_acct_ok)

definition acct_reach :: "'m coreauth \<Rightarrow> (nat \<Rightarrow> 'p oidc_world) \<Rightarrow> (string \<Rightarrow> instant option) \<Rightarrow> (string \<Rightarrow> string) \<Rightarrow> db \<Rightarrow> acct \<Rightarrow> acct \<Rightarrow> bool" where
  "acct_reach ca worlds parse_time sha d = (acct_step ca worlds parse_time sha d)\<^sup>*\<^sup>*"

lemma acct_reach_ok: "acct_reach ca worlds parse_time sha d a a' \<Longrightarrow> acct_ok d a \<Longrightarrow> acct_ok d a'"
  unfolding acct_reach_def by (induction rule: rtranclp_induct) (auto intro: acct_step_ok)

subsection \<open>Users and tokens along a run\<close>

lemma insert_session_users: "insert_session r a = Inr a' \<Longrightarrow> ac_users a' = ac_users a \<and> ac_tokens a' = ac_tokens a"
  by (auto simp: insert_session_def split: if_splits)

lemma upsert_member_users: "upsert_member d r a = Inr a' \<Longrightarrow> ac_users a' = ac_users a \<and> ac_tokens a' = ac_tokens a"
  by (auto simp: upsert_member_def insert_member_def split: if_splits)

lemma insert_member_users: "insert_member d r a = Inr a' \<Longrightarrow> ac_users a' = ac_users a \<and> ac_tokens a' = ac_tokens a"
  by (auto simp: insert_member_def split: if_splits)

lemma insert_user_users: "insert_user r a = Inr (i, a') \<Longrightarrow> map us_id (ac_users a) @ [i] = map us_id (ac_users a') \<and> ac_tokens a' = ac_tokens a"
  by (auto simp: insert_user_def Let_def split: if_splits)

text \<open>Rows of \<^verbatim>\<open>users\<close> are never removed; those of \<^verbatim>\<open>api_tokens\<close> neither, and a revocation is never undone.\<close>

definition users_grow :: "acct \<Rightarrow> acct \<Rightarrow> bool" where
  "users_grow a a' \<longleftrightarrow> (\<exists>is. map us_id (ac_users a') = map us_id (ac_users a) @ is)"

definition token_evolves :: "token_row \<Rightarrow> token_row \<Rightarrow> bool" where
  "token_evolves t t' \<longleftrightarrow> tk_id t' = tk_id t \<and> tk_hash t' = tk_hash t \<and> tk_user t' = tk_user t \<and> tk_org t' = tk_org t \<and>
     tk_scopes t' = tk_scopes t \<and> (tk_revoked t \<noteq> None \<longrightarrow> tk_revoked t' \<noteq> None)"

definition tokens_grow :: "acct \<Rightarrow> acct \<Rightarrow> bool" where
  "tokens_grow a a' \<longleftrightarrow> (\<forall>t \<in> set (ac_tokens a). \<exists>t' \<in> set (ac_tokens a'). token_evolves t t')"

lemma users_grow_refl [simp]: "users_grow a a" by (simp add: users_grow_def)
lemma users_grow_same: "ac_users a' = ac_users a \<Longrightarrow> users_grow a a'" by (simp add: users_grow_def)
lemma users_grow_trans: "users_grow a b \<Longrightarrow> users_grow b c \<Longrightarrow> users_grow a c"
  by (auto simp: users_grow_def)
lemma token_evolves_refl [simp]: "token_evolves t t" by (simp add: token_evolves_def)
lemma tokens_grow_same: "ac_tokens a' = ac_tokens a \<Longrightarrow> tokens_grow a a'"
  unfolding tokens_grow_def by (metis token_evolves_refl)
lemma tokens_grow_trans: "tokens_grow a b \<Longrightarrow> tokens_grow b c \<Longrightarrow> tokens_grow a c"
  unfolding tokens_grow_def token_evolves_def by fastforce

lemma tokens_grow_update:
  assumes "\<And>t. token_evolves t (f t)"
  shows "tokens_grow a (a\<lparr>ac_tokens := upd_where P f (ac_tokens a)\<rparr>)"
  unfolding tokens_grow_def
proof
  fix t assume t: "t \<in> set (ac_tokens a)"
  show "\<exists>t' \<in> set (ac_tokens (a\<lparr>ac_tokens := upd_where P f (ac_tokens a)\<rparr>)). token_evolves t t'"
    using t assms [of t] by (intro bexI [of _ "if P t then f t else t"]) (auto simp: upd_where_def)
qed

lemma open_session_users: "open_session sha raw csrf now i name kind a = (r, a') \<Longrightarrow> ac_users a' = ac_users a \<and> ac_tokens a' = ac_tokens a"
  by (auto simp: open_session_def Let_def audit_event_def split: sum.splits dest: insert_session_users)

lemma Add_users: "ac_users (snd (Add d now actor org email role a)) = ac_users a \<and> ac_tokens (snd (Add d now actor org email role a)) = ac_tokens a"
  by (auto simp: Add_def Let_def split: sum.split option.split dest: upsert_member_users)

lemma create_admin_tx_users:
  assumes "create_admin_tx d now org username email h a = Inr a'"
  shows "ac_users a = [] \<and> (\<exists>i. map us_id (ac_users a') = [i]) \<and> ac_tokens a' = ac_tokens a"
proof -
  obtain i a1 and u :: user_row where "ac_users a = []"
      "insert_user \<lparr>us_id = 0, us_username = username, us_email = email, us_hash = h, us_role = ''admin'',
        us_created = format_nano now\<rparr> a = Inr (i, a1)"
      "insert_member d \<lparr>mb_org = org, mb_user = us_id u, mb_role = ''owner'', mb_created = format_nano now\<rparr> a1 = Inr a'"
    using assms by (auto simp: create_admin_tx_def split: if_splits sum.splits option.splits)
  then show ?thesis using insert_user_users insert_member_users by fastforce
qed

lemma provisioned_user_users: "provisioned_user d now c email a = (r, a') \<Longrightarrow> users_grow a a' \<and> ac_tokens a' = ac_tokens a"
  by (auto simp: provisioned_user_def users_grow_def split: option.splits if_splits sum.splits
      dest!: insert_user_users insert_member_users)
     (metis append_same_eq)+

lemma Callback_users:
  "users_grow a (snd (snd (Callback ca parse_time sha raw csrf w d now state code redirect browser prov a))) \<and>
   ac_tokens (snd (snd (Callback ca parse_time sha raw csrf w d now state code redirect browser prov a))) = ac_tokens a"
proof -
  let ?a1 = "a\<lparr>ac_states := del_where (\<lambda>y. ox_state y = state \<and> ox_browser y = browser) (ac_states a)\<rparr>"
  have same: "users_grow a ?a1" by (simp add: users_grow_def)
  have prov: "users_grow a a2 \<and> ac_tokens a2 = ac_tokens a" if "provisioned_user d now c email ?a1 = (r, a2)" for c email r a2
    using provisioned_user_users [OF that] by (simp add: users_grow_def)
  have "users_grow a a3 \<and> ac_tokens a3 = ac_tokens a"
    if "provisioned_user d now c email ?a1 = (r', a2)" "CreateSessionForUser ca parse_time sha raw csrf now i mail a2 = (r, a3)"
    for c email r' i mail a2 r a3
  proof -
    have "ac_users a3 = ac_users a2 \<and> ac_tokens a3 = ac_tokens a2"
      using that(2) by (auto simp: CreateSessionForUser_def split: sum.splits dest: open_session_users)
    then show ?thesis using prov [OF that(1)] by (simp add: users_grow_def)
  qed
  with same prov show ?thesis unfolding Callback_def Let_def
    by (auto split: option.split sum.split prod.split)
qed

lemma ChangePassword_users:
  "users_grow a (snd (ChangePassword ca parse_time sha now i old new keep a)) \<and>
   ac_tokens (snd (ChangePassword ca parse_time sha now i old new keep a)) = ac_tokens a"
  by (auto simp: ChangePassword_def Let_def audit_event_def users_grow_def map_upd_where_same split: option.split sum.split)

lemma CreateAdmin_users:
  "users_grow a (snd (CreateAdmin ca parse_time d now username email pw a)) \<and>
   ac_tokens (snd (CreateAdmin ca parse_time d now username email pw a)) = ac_tokens a"
  unfolding CreateAdmin_def Let_def audit_event_def users_grow_def
  by (auto split: sum.split dest!: create_admin_tx_users)

lemma acct_step_grows: "acct_step ca worlds parse_time sha d a a' \<Longrightarrow> users_grow a a' \<and> tokens_grow a a'"
proof (induction rule: acct_step.induct)
  case (st_create a tok now user org nm scopes)
  have "t \<in> set ts \<Longrightarrow> \<exists>x \<in> set ts. token_evolves t x" for t ts
    by (meson token_evolves_refl)
  then show ?case by (auto simp: Create_def Let_def users_grow_def tokens_grow_def)
next
  case (st_token a now tok)
  show ?case by (auto simp: Authenticate_def users_grow_def tokens_grow_same
      intro!: tokens_grow_update split: option.split) (simp add: token_evolves_def)
next
  case (st_revoke a now i user org)
  show ?case by (auto simp: Revoke_def users_grow_def intro!: tokens_grow_update) (simp add: token_evolves_def)
next
  case (st_admin_tx now org username email h a a')
  then show ?case using create_admin_tx_users by (auto simp: users_grow_def tokens_grow_same)
next
  case (st_login a raw csrf now email pw)
  show ?case
    by (auto simp: Login_def users_grow_same tokens_grow_same split: sum.split option.split 
        simp: open_session_users [OF surjective_pairing])
next
  case (st_session a now raw)
  show ?case by (auto simp: SessionOf_def delete_session_def users_grow_def tokens_grow_same split: option.split)
next
  case (st_logout a now raw)
  show ?case by (simp add: Logout_def delete_session_def audit_event_def users_grow_def tokens_grow_same)
next
  case (st_save a k now c prov)
  show ?case by (auto simp: Save_def Let_def users_grow_def tokens_grow_same split: option.split prod.split)
next
  case (st_begin a k state nonce now redirect browser prov)
  show ?case by (auto simp: Begin_def Let_def users_grow_def tokens_grow_same split: option.split prod.split)
qed (simp_all add: Add_users CreateAdmin_users ChangePassword_users Callback_users users_grow_same tokens_grow_same)

lemma acct_reach_grows: "acct_reach ca worlds parse_time sha d a a' \<Longrightarrow> users_grow a a' \<and> tokens_grow a a'"
  unfolding acct_reach_def
  by (induction rule: rtranclp_induct) (auto intro: users_grow_trans tokens_grow_trans tokens_grow_same dest: acct_step_grows)

text \<open>C24. First-run setup happens once: after a setup transaction has committed, its user is the only one and owns the
  organization, and whatever account operations follow, in any order and with any provider, no later setup
  succeeds, not even a transaction of a concurrent request that had already passed the first check.\<close>

theorem first_admin_once:
  assumes admin: "create_admin_tx d now org username email h a = Inr a1" and reach: "acct_reach ca worlds parse_time sha d a1 a2"
    and "acct_ok d a"
  shows "(\<exists>i. map (\<lambda>u. (us_id u, us_email u, us_hash u)) (ac_users a1) = [(i, email, h)] \<and> Role i org a1 = Inr ''owner'') \<and>
    create_admin_tx d now' org' username' email' h' a2 = Inl SetupCompleted \<and>
    fst (CreateAdmin ca parse_time d now' username' email' pw a2) \<noteq> Inr ()"
proof -
  have "ac_users a1 \<noteq> []" using create_admin_tx_users [OF admin] by auto
  with acct_reach_grows [OF reach] have "ac_users a2 \<noteq> []" by (auto simp: users_grow_def)
  then have tx: "create_admin_tx d now' o' u' e' p' a2 = Inl SetupCompleted" for o' u' e' p'
    by (simp add: create_admin_tx_def)
  then have "fst (CreateAdmin ca parse_time d now' username' email' pw a2) \<noteq> Inr ()"
    unfolding CreateAdmin_def Let_def by (auto split: sum.split)
  moreover have "ac_members a = []"
    using assms(3) create_admin_tx_users [OF admin] by (auto simp: acct_ok_def)
  then have "\<exists>i. map (\<lambda>u. (us_id u, us_email u, us_hash u)) (ac_users a1) = [(i, email, h)] \<and> Role i org a1 = Inr ''owner''"
    using admin by (auto simp: create_admin_tx_def insert_user_def insert_member_def Let_def Role_def
        split: if_splits option.splits)
  ultimately show ?thesis using tx by blast
qed

lemma token_scopes_decode:
  assumes "set scopes \<subseteq> set token_scopes"
  shows "scope_list (join_str '','' scopes) = scopes"
proof (cases "scopes = []")
  case False
  have "x \<in> set token_scopes \<Longrightarrow> x \<noteq> '''' \<and> CHR '','' \<notin> set x" for x
    by (auto simp: token_scopes_def)
  with assms have *: "\<And>x. x \<in> set scopes \<Longrightarrow> x \<noteq> '''' \<and> CHR '','' \<notin> set x" by blast
  then have "scopes \<noteq> [[]]" by auto
  with False * show ?thesis by (simp add: scope_list_def split_join join_str_eq_Nil)
qed (simp add: scope_list_def)

lemma Authenticate_row:
  assumes "acct_ok d a" "x \<in> set (ac_tokens a)" "tk_hash x = hash tok"
  shows "fst (Authenticate hash t tok a) = (if tk_revoked x = None
    then Inr (tk_user x, tk_org x, scope_list (tk_scopes x)) else Inl InvalidToken)"
proof -
  have uniq: "y = x" if "y \<in> set (ac_tokens a)" "tk_hash y = hash tok" for y
    using distinct_map_inj [of tk_hash "ac_tokens a" y x] assms that by (simp add: acct_ok_def)
  show ?thesis
  proof (cases "first_row (\<lambda>t. tk_hash t = hash tok \<and> tk_revoked t = None) (ac_tokens a)")
    case None
    then have "tk_revoked x \<noteq> None" using assms(2,3) by (auto simp: first_row_None)
    with None show ?thesis by (simp add: Authenticate_def)
  next
    case (Some y)
    then have "y = x" "tk_revoked x = None" using first_row_Some [OF Some] uniq by auto
    with Some show ?thesis by (simp add: Authenticate_def)
  qed
qed

text \<open>C25. An API token authenticates as the user, organization and scopes it was created with and as nothing else, after any
  run of account operations; and once it is revoked it never authenticates again, whatever happens
  afterwards.\<close>

theorem token_lifecycle:
  assumes "acct_ok d a" and created: "Create d sha tok now user org nm scopes a = (Inr c, a1)"
    and reach: "acct_reach ca worlds parse_time sha d a1 a2"
    and later: "acct_reach ca worlds parse_time sha d (Revoke t0 (cr_ID c) user org a2) a3"
  shows "fst (Authenticate sha t tok a1) = Inr (user, org, scopes) \<and>
    fst (Authenticate sha t tok a2) \<in> {Inr (user, org, scopes), Inl InvalidToken} \<and>
    fst (Authenticate sha t tok a3) = Inl InvalidToken"
proof -
  let ?i = "fresh_id (map tk_id (ac_tokens a))"
  let ?r = "\<lparr>tk_id = ?i, tk_user = user, tk_org = org, tk_name = trim_space nm, tk_hash = sha tok, tk_prefix = take 10 tok,
    tk_scopes = join_str '','' scopes, tk_used = None, tk_revoked = None, tk_created = format_nano now\<rparr>"
  have c: "cr_ID c = ?i" "a1 = a\<lparr>ac_tokens := ac_tokens a @ [?r]\<rparr>" and fresh: "\<forall>x \<in> set (ac_tokens a). tk_hash x \<noteq> sha tok"
    and scopes: "set scopes \<subseteq> set token_scopes"
    using created by (auto simp: Create_def Let_def split: if_splits)
  have r: "?r \<in> set (ac_tokens a1)" by (simp add: c)
  have ok1: "acct_ok d a1" using Create_ok [OF assms(1)] created by (metis snd_conv)
  have ok2: "acct_ok d a2" by (rule acct_reach_ok [OF reach ok1])
  have ok3: "acct_ok d a3" by (rule acct_reach_ok [OF later Revoke_ok [OF ok2]])
  have dec: "scope_list (join_str '','' scopes) = scopes" by (rule token_scopes_decode [OF scopes])
  have auth: "fst (Authenticate sha t tok b) = (if tk_revoked x = None then Inr (user, org, scopes) else Inl InvalidToken)"
    if "acct_ok d b" "x \<in> set (ac_tokens b)" "token_evolves ?r x" for b x
    using Authenticate_row [OF that(1,2), of sha tok t] that(3) dec by (simp add: token_evolves_def)
  obtain x where x: "x \<in> set (ac_tokens a2)" "token_evolves ?r x"
    using acct_reach_grows [OF reach] r by (auto simp: tokens_grow_def)
  let ?x = "x\<lparr>tk_revoked := Some (format_nano t0)\<rparr>"
  have "?x \<in> set (ac_tokens (Revoke t0 (cr_ID c) user org a2))"
    using x by (auto simp: Revoke_def c token_evolves_def set_upd_where)
  then obtain y where y: "y \<in> set (ac_tokens a3)" "token_evolves ?x y"
    using acct_reach_grows [OF later] unfolding tokens_grow_def by blast
  then have "token_evolves ?r y" "tk_revoked y \<noteq> None" using x(2) by (auto simp: token_evolves_def)
  with y(1) have "fst (Authenticate sha t tok a3) = Inl InvalidToken" using auth [OF ok3] by simp
  with auth [OF ok1 r] auth [OF ok2 x] show ?thesis by simp
qed

lemma provisioned_user_row:
  assumes "provisioned_user d now c email a = (Inr (i, mail), a')"
  shows "\<exists>u \<in> set (ac_users a'). us_id u = i \<and> to_lower (us_email u) = to_lower email"
proof (cases "user_by_email email a")
  case (Some u)
  then show ?thesis using assms first_row_Some [of _ "ac_users a" u] by (auto simp: provisioned_user_def user_by_email_def)
next
  case None
  then show ?thesis using assms
    by (auto simp: provisioned_user_def insert_user_def Let_def split: if_splits sum.splits dest!: insert_member_users)
qed

lemma provisioned_user_states: "provisioned_user d now c email a = (r, a') \<Longrightarrow> ac_states a' = ac_states a"
  by (auto simp: provisioned_user_def insert_user_def insert_member_def Let_def split: option.splits if_splits sum.splits)

lemma Callback_success:
  assumes "Callback ca parse_time sha raw csrf w d now state code redirect browser prov a = (Inr (tok, sess), prov', a')"
  obtains x p email exp where "first_row (\<lambda>x. ox_state x = state \<and> ox_browser x = browser) (ac_states a) = Some x"
    "parse_time (ox_expires x) = Some exp" "now \<le> exp" "cfg_Enabled (rowConfig a)"
    "fst (provider w (cfg_Issuer (rowConfig a)) prov) = Some p"
    "verified_email w p (rowConfig a) code redirect (ox_nonce x) = Inr email"
    "\<exists>u \<in> set (ac_users a'). us_id u = ss_UserID sess \<and> to_lower (us_email u) = to_lower email"
    "ac_states a' = del_where (\<lambda>y. ox_state y = state \<and> ox_browser y = browser) (ac_states a)"
proof -
  let ?P = "\<lambda>y. ox_state y = state \<and> ox_browser y = browser" and ?c = "rowConfig a"
  let ?a1 = "a\<lparr>ac_states := del_where ?P (ac_states a)\<rparr>"
  have c: "rowConfig ?a1 = ?c" by (simp add: rowConfig_def)
  obtain x exp where x: "first_row ?P (ac_states a) = Some x" "parse_time (ox_expires x) = Some exp" "now \<le> exp" "cfg_Enabled ?c"
    using assms by (auto simp: Callback_def Let_def c split: if_splits option.splits)
  obtain p prov1 email where p: "provider w (cfg_Issuer ?c) prov = (Some p, prov1)"
      "verified_email w p ?c code redirect (ox_nonce x) = Inr email"
    using assms x by (auto simp: Callback_def Let_def c split: if_splits option.splits prod.splits sum.splits)
  obtain i mail a2 where u: "provisioned_user d now ?c email ?a1 = (Inr (i, mail), a2)"
      "CreateSessionForUser ca parse_time sha raw csrf now i mail a2 = (Inr (tok, sess), a')"
    using assms x p by (auto simp: Callback_def Let_def c split: if_splits option.splits prod.splits sum.splits)
  have s: "ss_UserID sess = i" "ac_users a' = ac_users a2" "ac_states a' = ac_states a2"
    using u(2) by (auto simp: CreateSessionForUser_def open_session_def insert_session_def audit_event_def Let_def
        split: sum.splits if_splits)
  have "ac_states a2 = ac_states ?a1" using provisioned_user_states [OF u(1)] .
  then show ?thesis
    using that [OF x _ p(2)] p(1) provisioned_user_row [OF u(1)] s by simp
qed


subsection \<open>Concrete runs\<close>

lemma acct_reach_refl: "acct_reach ca worlds parse_time sha d a a"
  by (simp add: acct_reach_def)

definition sample_world :: "unit oidc_world" where
  "sample_world = \<lparr>ow_discover = (\<lambda>issuer. Some ()), ow_auth_url = (\<lambda>p. ''https://idp/auth''), ow_userinfo_url = (\<lambda>p. ''''),
     ow_token = (\<lambda>p form. Some \<lparr>ta_status = 200, ta_body = Some (''acc'', ''jwt'')\<rparr>),
     ow_verify = (\<lambda>p client raw. Some \<lparr>idt_Nonce = ''n'', idt_Claims = Some (''a@b.c'', True)\<rparr>),
     ow_userinfo = (\<lambda>p acc. None)\<rparr>"

definition pending_acct :: acct where
  "pending_acct = sample_acct\<lparr>ac_oidc := Some \<lparr>oc_issuer = ''https://idp'', oc_client = ''c'', oc_secret = ''s'', oc_enabled = True,
       oc_auto = False, oc_updated = ''''\<rparr>,
     ac_states := [\<lparr>ox_state = ''st'', ox_nonce = ''n'', ox_browser = ''br'', ox_expires = ''''\<rparr>]\<rparr>"

lemma pending_acct_ok: "acct_ok init_db pending_acct"
  using sample_acct_ok by (simp add: pending_acct_def acct_ok_def)

theorem first_admin_once_witness:
  "\<exists>a1. create_admin_tx init_db 0 1 ''ann'' ''a@b.c'' ''h'' init_acct = Inr a1 \<and>
     create_admin_tx init_db 0 1 ''bob'' ''b@b.c'' ''h2'' a1 = Inl SetupCompleted"
proof -
  obtain a1 where a1: "create_admin_tx init_db 0 1 ''ann'' ''a@b.c'' ''h'' init_acct = Inr a1"
    by (simp add: create_admin_tx_def insert_user_def insert_member_def init_acct_def init_db_def str_simps Let_def)
  show ?thesis
    using first_admin_once [OF a1 acct_reach_refl [of sample_core "\<lambda>k. sample_world" "\<lambda>s. Some 0" id] init_acct_ok] a1 by blast
qed

theorem token_lifecycle_witness:
  "\<exists>c a1. Create init_db id ''wf_0123456789'' 0 1 1 ''ci'' [''sites:read'', ''audit:run''] sample_acct = (Inr c, a1) \<and>
     fst (Authenticate id 0 ''wf_0123456789'' a1) = Inr (1, 1, [''sites:read'', ''audit:run'']) \<and>
     fst (Authenticate id 0 ''wf_0123456789'' (Revoke 0 (cr_ID c) 1 1 a1)) = Inl InvalidToken"
proof -
  obtain c a1 where c: "Create init_db id ''wf_0123456789'' 0 1 1 ''ci'' [''sites:read'', ''audit:run''] sample_acct = (Inr c, a1)"
    by (simp add: Create_def sample_acct_def init_acct_def init_db_def sample_user_def token_scopes_def str_simps Let_def)
  note refl = acct_reach_refl [of sample_core "\<lambda>k. sample_world" "\<lambda>s. Some 0" id init_db]
  show ?thesis using token_lifecycle [OF sample_acct_ok c refl refl] c by blast
qed


end
