(* ===== verification/Url.thy ===== *)
theory Url
  imports Netip
begin

text \<open>
  The parts of Go's \<^verbatim>\<open>net/url\<close> the sources use: the \<^verbatim>\<open>URL\<close> value, \<^verbatim>\<open>Hostname\<close> and query escaping. The parser, the
  printer and reference resolution of the package are the fields of \<open>net_url\<close>, and what the sources rely on of them
  is stated where it is needed.
\<close>

record go_url =
  gu_scheme :: string
  gu_user :: bool \<comment> \<open>\<^verbatim>\<open>User != nil\<close>\<close>
  gu_host :: string
  gu_path :: string
  gu_query :: string \<comment> \<open>\<^verbatim>\<open>RawQuery\<close>\<close>
  gu_fragment :: string
  gu_rest :: string \<comment> \<open>the fields no code of this program reads or writes\<close>

record net_url =
  nu_parse :: "string \<Rightarrow> go_url option"
  nu_string :: "go_url \<Rightarrow> string"
  nu_resolve :: "go_url \<Rightarrow> go_url \<Rightarrow> go_url" \<comment> \<open>\<^verbatim>\<open>base.ResolveReference(ref)\<close>\<close>

definition valid_optional_port :: "string \<Rightarrow> bool" where
  "valid_optional_port s = (case s of [] \<Rightarrow> True | c # cs \<Rightarrow> c = CHR '':'' \<and> list_all is_digit cs)"

text \<open>The text before and from the last colon.\<close>

definition last_colon :: "string \<Rightarrow> (string \<times> string) option" where
  "last_colon s = (if CHR '':'' \<in> set s
     then Some (rev (tl (dropWhile (\<lambda>c. c \<noteq> CHR '':'') (rev s))), CHR '':'' # rev (takeWhile (\<lambda>c. c \<noteq> CHR '':'') (rev s)))
     else None)"

definition strip_brackets :: "string \<Rightarrow> string" where
  "strip_brackets h = (if has_prefix h ''['' \<and> has_suffix h '']'' then butlast (tl h) else h)"

definition url_Hostname :: "go_url \<Rightarrow> string" where
  "url_Hostname u =
     (let h = gu_host u
      in strip_brackets (case last_colon h of
           None \<Rightarrow> h
         | Some (a, b) \<Rightarrow> if valid_optional_port b then a else h))"

end
