(* ===== verification/Sites.thy ===== *)
theory Sites
  imports Accounts Url Fleet_Spec
begin

text \<open>
  The site inventory, \<^verbatim>\<open>internal/sites/sites.go\<close>: groups, sites and tags of one organization, on the tables of \<open>db\<close>. The
  operations are not transactions: a failing statement leaves what the earlier ones wrote, and the model
  returns that database next to the error. \<^verbatim>\<open>ORDER BY\<close> keeps rows with equal keys in table order.
\<close>

datatype site_error = BadURL | BadScheme | BadHost | GroupName | SiteName | GroupNotFound | SiteNotFound | NotArchived
  | BadSiteId | TagTooLong | NotClusterManaged | SiteSql sql_error

record Group =
  gr_ID :: int
  gr_Name :: string
  gr_SiteCount :: nat

record Site =
  st_ID :: int
  st_Name :: string
  st_PrimaryURL :: string
  st_Enabled :: bool
  st_GroupID :: int
  st_GroupName :: string
  st_Archived :: bool
  st_Health :: string
  st_ConsecutiveFailures :: int
  st_LastCheckedAt :: string
  st_CreatedAt :: string
  st_UpdatedAt :: string

record SiteList =
  ls_Sites :: "Site list"
  ls_Page :: int
  ls_PageSize :: int
  ls_Total :: int
  ls_Pages :: int

definition CanonicalURL :: "net_url \<Rightarrow> string \<Rightarrow> (site_error, string) result" where
  "CanonicalURL nu raw =
     (case nu_parse nu (trim_space raw) of
        None \<Rightarrow> Inl BadURL
      | Some u \<Rightarrow>
          if gu_scheme u \<noteq> ''http'' \<and> gu_scheme u \<noteq> ''https'' then Inl BadScheme
          else if url_Hostname u = '''' \<or> gu_user u then Inl BadHost
          else Inr (nu_string nu (u\<lparr>gu_fragment := '''', gu_host := to_lower (gu_host u),
                 gu_path := (if gu_path u = '''' then ''/'' else gu_path u)\<rparr>)))"

definition CreateGroup :: "instant \<Rightarrow> int \<Rightarrow> string \<Rightarrow> db \<Rightarrow> (site_error, Group) result \<times> db" where
  "CreateGroup now orgID nm d =
     (let nm = trim_space nm
      in if nm = '''' \<or> 80 < length nm then (Inl GroupName, d)
         else case insert_group orgID nm (format_nano now) None d of
           Inl e \<Rightarrow> (Inl (SiteSql e), d)
         | Inr (i, d1) \<Rightarrow> (Inr \<lparr>gr_ID = i, gr_Name = nm, gr_SiteCount = 0\<rparr>, d1))"

definition Groups :: "int \<Rightarrow> db \<Rightarrow> Group list" where
  "Groups orgID d = map (\<lambda>g. \<lparr>gr_ID = grp_id g, gr_Name = grp_name g,
       gr_SiteCount = length (filter (\<lambda>s. site_group s = Some (grp_id g) \<and> site_archived s = None) (db_sites d))\<rparr>)
     (sort_key (\<lambda>g. to_lower (grp_name g)) (filter (\<lambda>g. grp_org g = orgID) (db_groups d)))"

text \<open>The joins of \<^verbatim>\<open>GetForOrg\<close> and \<^verbatim>\<open>List\<close> and \<^verbatim>\<open>rowSite\<close>.\<close>

definition rowSite :: "db \<Rightarrow> site_row \<Rightarrow> Site" where
  "rowSite d s =
     (let g = (case site_group s of None \<Rightarrow> None | Some gid \<Rightarrow> first_row (\<lambda>g. grp_id g = gid) (db_groups d));
          h = first_row (\<lambda>h. hl_site h = site_id s) (db_health d);
          c = latest (\<lambda>c. chk_site c = site_id s) chk_id (db_checks d)
      in \<lparr>st_ID = site_id s, st_Name = site_name s, st_PrimaryURL = site_url s, st_Enabled = site_enabled s,
          st_GroupID = (case site_group s of None \<Rightarrow> 0 | Some gid \<Rightarrow> gid),
          st_GroupName = (case g of None \<Rightarrow> '''' | Some r \<Rightarrow> grp_name r),
          st_Archived = (site_archived s \<noteq> None),
          st_Health = (case h of None \<Rightarrow> ''unknown'' | Some r \<Rightarrow> hl_state r),
          st_ConsecutiveFailures = (case h of None \<Rightarrow> 0 | Some r \<Rightarrow> hl_fails r),
          st_LastCheckedAt = (case c of None \<Rightarrow> '''' | Some r \<Rightarrow> chk_at r),
          st_CreatedAt = site_created s, st_UpdatedAt = site_updated s\<rparr>)"

definition GetForOrg :: "int \<Rightarrow> int \<Rightarrow> db \<Rightarrow> (site_error, Site) result" where
  "GetForOrg orgID i d =
     (case first_row (\<lambda>s. site_id s = i \<and> site_org s = orgID) (db_sites d) of
        None \<Rightarrow> Inl SiteNotFound | Some s \<Rightarrow> Inr (rowSite d s))"

text \<open>Statements executed one after the other, each on its own: the first failure ends the sequence.\<close>

fun run_stmts :: "(db \<Rightarrow> (sql_error, db) result) list \<Rightarrow> db \<Rightarrow> (site_error, unit) result \<times> db" where
  "run_stmts [] d = (Inr (), d)"
| "run_stmts (f # fs) d = (case f d of Inl e \<Rightarrow> (Inl (SiteSql e), d) | Inr d1 \<Rightarrow> run_stmts fs d1)"

definition group_known :: "int \<Rightarrow> int \<Rightarrow> db \<Rightarrow> bool" where
  "group_known orgID groupID d \<longleftrightarrow> (\<exists>g \<in> set (db_groups d). grp_id g = groupID \<and> grp_org g = orgID)"

definition nullif0 :: "int \<Rightarrow> int option" where
  "nullif0 g = (if g = 0 then None else Some g)"

text \<open>The name, URL and group a site is created or updated with.\<close>

definition checked_input :: "net_url \<Rightarrow> int \<Rightarrow> string \<Rightarrow> string \<Rightarrow> int \<Rightarrow> db \<Rightarrow> (site_error, string \<times> string) result" where
  "checked_input nu orgID nm rawURL groupID d =
     (let nm = trim_space nm
      in if nm = '''' \<or> 120 < length nm then Inl SiteName
         else case CanonicalURL nu rawURL of
           Inl e \<Rightarrow> Inl e
         | Inr u \<Rightarrow> if 0 < groupID \<and> \<not> group_known orgID groupID d then Inl GroupNotFound else Inr (nm, u))"

definition site_stmts :: "int \<Rightarrow> string \<Rightarrow> (db \<Rightarrow> (sql_error, db) result) list" where
  "site_stmts i now =
     [insert_monitor i ''http'' 10000 200 399 now,
      insert_health \<lparr>hl_site = i, hl_state = ''unknown'', hl_fails = 0, hl_last_check = None,
        hl_change = now, hl_success = None, hl_failure = None\<rparr>] @ map (insert_header i) default_headers"

definition CreateSite :: "net_url \<Rightarrow> instant \<Rightarrow> int \<Rightarrow> string \<Rightarrow> string \<Rightarrow> int \<Rightarrow> db \<Rightarrow> (site_error, Site) result \<times> db" where
  "CreateSite nu now orgID nm rawURL groupID d =
     (case checked_input nu orgID nm rawURL groupID d of
        Inl e \<Rightarrow> (Inl e, d)
      | Inr (nm, u) \<Rightarrow>
          (let now = format_nano now
           in case insert_site \<lparr>site_id = 0, site_org = orgID, site_name = nm, site_url = u, site_enabled = True,
                  site_group = nullif0 groupID, site_archived = None, site_created = now, site_updated = now,
                  site_cluster = None\<rparr> d of
                Inl e \<Rightarrow> (Inl (SiteSql e), d)
              | Inr (i, d1) \<Rightarrow>
                  (case run_stmts (site_stmts i now) d1 of
                     (Inl e, d2) \<Rightarrow> (Inl e, d2)
                   | (Inr _, d2) \<Rightarrow> (GetForOrg orgID i d2, d2))))"

definition UpdateSite :: "net_url \<Rightarrow> instant \<Rightarrow> int \<Rightarrow> int \<Rightarrow> string \<Rightarrow> string \<Rightarrow> int \<Rightarrow> bool \<Rightarrow> db \<Rightarrow> (site_error, Site) result \<times> db" where
  "UpdateSite nu now orgID i nm rawURL groupID enabled d =
     (case GetForOrg orgID i d of
        Inl e \<Rightarrow> (Inl e, d)
      | Inr _ \<Rightarrow>
          (case checked_input nu orgID nm rawURL groupID d of
             Inl e \<Rightarrow> (Inl e, d)
           | Inr (nm, u) \<Rightarrow>
               (case update_sites (\<lambda>s. site_id s = i \<and> site_org s = orgID)
                   (\<lambda>s. s\<lparr>site_name := nm, site_url := u, site_group := nullif0 groupID, site_enabled := enabled,
                          site_updated := format_nano now\<rparr>) d of
                  Inl e \<Rightarrow> (Inl (SiteSql e), d)
                | Inr d1 \<Rightarrow> (GetForOrg orgID i d1, d1))))"

definition Archive :: "instant \<Rightarrow> int \<Rightarrow> int \<Rightarrow> bool \<Rightarrow> db \<Rightarrow> (site_error, unit) result \<times> db" where
  "Archive now orgID i archived d =
     (case GetForOrg orgID i d of
        Inl e \<Rightarrow> (Inl e, d)
      | Inr _ \<Rightarrow>
          run_stmts [update_sites (\<lambda>s. site_id s = i \<and> site_org s = orgID)
             (\<lambda>s. s\<lparr>site_archived := (if archived then Some (format_nano now) else None), site_updated := format_nano now\<rparr>)] d)"

definition DeleteSite :: "int \<Rightarrow> int \<Rightarrow> db \<Rightarrow> (site_error, unit) result \<times> db" where
  "DeleteSite orgID i d =
     (case GetForOrg orgID i d of
        Inl e \<Rightarrow> (Inl e, d)
      | Inr site \<Rightarrow>
          if \<not> st_Archived site then (Inl NotArchived, d)
          else (Inr (), delete_sites (\<lambda>s. site_id s = i \<and> site_org s = orgID) d))"

text \<open>SQLite's LIKE: \<^verbatim>\<open>%\<close> any text, \<^verbatim>\<open>_\<close> any character, ASCII letters without case.\<close>

fun sql_like :: "string \<Rightarrow> string \<Rightarrow> bool" where
  "sql_like [] s \<longleftrightarrow> s = []"
| "sql_like (p # ps) [] \<longleftrightarrow> p = CHR ''%'' \<and> sql_like ps []"
| "sql_like (p # ps) (c # cs) \<longleftrightarrow>
     (if p = CHR ''%'' then sql_like ps (c # cs) \<or> sql_like (p # ps) cs
      else (p = CHR ''_'' \<or> lower_char p = lower_char c) \<and> sql_like ps cs)"

definition search_match :: "string \<Rightarrow> site_row \<Rightarrow> bool" where
  "search_match q s \<longleftrightarrow> trim_space q = '''' \<or>
     (let term = ''%'' @ to_lower (trim_space q) @ ''%''
      in sql_like term (to_lower (site_name s)) \<or> sql_like term (to_lower (site_url s)))"

definition group_match :: "int \<Rightarrow> site_row \<Rightarrow> bool" where
  "group_match groupID s \<longleftrightarrow> \<not> 0 < groupID \<or> site_group s = Some groupID"

definition clamp_size :: "int \<Rightarrow> int" where
  "clamp_size pageSize = (let n = (if pageSize < 1 then 20 else pageSize) in if 100 < n then 100 else n)"

text \<open>The page of the rows that match, as both listings compute it.\<close>

definition paginate :: "(site_row \<Rightarrow> bool) \<Rightarrow> int \<Rightarrow> int \<Rightarrow> db \<Rightarrow> SiteList" where
  "paginate P page pageSize d =
     (let rows = sort_key (\<lambda>s. to_lower (site_name s)) (filter P (db_sites d));
          size = clamp_size pageSize;
          total = int (length rows);
          pages = max 1 ((total + size - 1) div size);
          page = min pages (max 1 page)
      in \<lparr>ls_Sites = map (rowSite d) (take (nat size) (drop (nat ((page - 1) * size)) rows)),
          ls_Page = page, ls_PageSize = size, ls_Total = total, ls_Pages = pages\<rparr>)"

definition listed :: "int \<Rightarrow> string \<Rightarrow> int \<Rightarrow> bool \<Rightarrow> site_row \<Rightarrow> bool" where
  "listed orgID q groupID includeArchived s \<longleftrightarrow>
     site_org s = orgID \<and> (includeArchived \<or> site_archived s = None) \<and> search_match q s \<and> group_match groupID s"

definition ListSites :: "int \<Rightarrow> string \<Rightarrow> int \<Rightarrow> int \<Rightarrow> int \<Rightarrow> bool \<Rightarrow> db \<Rightarrow> SiteList" where
  "ListSites orgID q groupID page pageSize includeArchived d =
     paginate (listed orgID q groupID includeArchived) page pageSize d"

definition ListByTag :: "int \<Rightarrow> string \<Rightarrow> int \<Rightarrow> string \<Rightarrow> int \<Rightarrow> int \<Rightarrow> db \<Rightarrow> SiteList" where
  "ListByTag orgID q groupID tag page pageSize d =
     (if trim_space tag = '''' then ListSites orgID q groupID page pageSize False d
      else let tag = to_lower (trim_space tag)
           in paginate (\<lambda>s. site_org s = orgID \<and> site_archived s = None \<and>
                  (\<exists>t \<in> set (db_tags d). tag_site t = site_id s \<and> tag_text t = tag) \<and> search_match q s \<and> group_match groupID s)
                page pageSize d)"

definition ParseID :: "string \<Rightarrow> (site_error, int) result" where
  "ParseID raw = (case ParseInt raw of None \<Rightarrow> Inl BadSiteId | Some i \<Rightarrow> if i < 1 then Inl BadSiteId else Inr i)"

definition Tags :: "int \<Rightarrow> int \<Rightarrow> db \<Rightarrow> (site_error, string list) result" where
  "Tags orgID siteID d =
     (case GetForOrg orgID siteID d of
        Inl e \<Rightarrow> Inl e
      | Inr _ \<Rightarrow> Inr (map tag_text (sort_key (\<lambda>t. to_lower (tag_text t)) (filter (\<lambda>t. tag_site t = siteID) (db_tags d)))))"

text \<open>The loop of \<^verbatim>\<open>SetTags\<close>, after the tags of the site have been deleted.\<close>

fun add_tags :: "int \<Rightarrow> string list \<Rightarrow> string list \<Rightarrow> db \<Rightarrow> (site_error, unit) result \<times> db" where
  "add_tags siteID seen [] d = (Inr (), d)"
| "add_tags siteID seen (t # ts) d =
     (let tag = to_lower (trim_space t)
      in if tag = '''' \<or> tag \<in> set seen then add_tags siteID seen ts d
         else if 40 < length tag then (Inl TagTooLong, d)
         else case insert_tag siteID tag d of
           Inl e \<Rightarrow> (Inl (SiteSql e), d)
         | Inr d1 \<Rightarrow> add_tags siteID (tag # seen) ts d1)"

definition SetTags :: "int \<Rightarrow> int \<Rightarrow> string list \<Rightarrow> db \<Rightarrow> (site_error, unit) result \<times> db" where
  "SetTags orgID siteID tags d =
     (case GetForOrg orgID siteID d of
        Inl e \<Rightarrow> (Inl e, d)
      | Inr _ \<Rightarrow> add_tags siteID [] tags (delete_tags siteID d))"

definition ClusterIDForSite :: "int \<Rightarrow> int \<Rightarrow> db \<Rightarrow> (site_error, string) result" where
  "ClusterIDForSite orgID i d =
     (case first_row (\<lambda>s. site_id s = i \<and> site_org s = orgID) (db_sites d) of
        None \<Rightarrow> Inl NotClusterManaged
      | Some s \<Rightarrow> (case site_cluster s of None \<Rightarrow> Inl NotClusterManaged | Some c \<Rightarrow> Inr c))"

definition ClusterIDForGroup :: "int \<Rightarrow> int \<Rightarrow> db \<Rightarrow> (site_error, string) result" where
  "ClusterIDForGroup orgID i d =
     (if i = 0 then Inr ''''
      else case first_row (\<lambda>g. grp_id g = i \<and> grp_org g = orgID) (db_groups d) of
        None \<Rightarrow> Inl NotClusterManaged
      | Some g \<Rightarrow> (case grp_cluster g of None \<Rightarrow> Inl NotClusterManaged | Some c \<Rightarrow> Inr c))"

definition GetByClusterID :: "int \<Rightarrow> string \<Rightarrow> db \<Rightarrow> (site_error, Site) result" where
  "GetByClusterID orgID cid d =
     (case first_row (\<lambda>s. site_cluster s = Some cid \<and> site_org s = orgID) (db_sites d) of
        None \<Rightarrow> Inl SiteNotFound | Some s \<Rightarrow> GetForOrg orgID (site_id s) d)"

definition GroupByClusterID :: "int \<Rightarrow> string \<Rightarrow> db \<Rightarrow> (site_error, Group) result" where
  "GroupByClusterID orgID cid d =
     (case first_row (\<lambda>g. grp_cluster g = Some cid \<and> grp_org g = orgID) (db_groups d) of
        None \<Rightarrow> Inl GroupNotFound | Some g \<Rightarrow> Inr \<lparr>gr_ID = grp_id g, gr_Name = grp_name g, gr_SiteCount = 0\<rparr>)"

subsection \<open>Pages\<close>

lemma concat_chunks:
  "0 < n \<Longrightarrow> length xs \<le> m * n \<Longrightarrow> concat (map (\<lambda>k. take n (drop (k * n) xs)) [0..<m]) = xs"
proof (induction m arbitrary: xs)
  case (Suc m)
  have "concat (map (\<lambda>k. take n (drop (k * n) xs)) [0..<Suc m]) =
      take n xs @ concat (map (\<lambda>k. take n (drop (k * n) (drop n xs))) [0..<m])"
  proof -
    have "[0..<Suc m] = 0 # map Suc [0..<m]" by (metis map_Suc_upt upt_conv_Cons zero_less_Suc)
    then show ?thesis by (simp add: comp_def add.commute)
  qed
  also have "\<dots> = take n xs @ drop n xs"
    using Suc.IH [of "drop n xs"] Suc.prems by (simp only: length_drop) simp
  finally show ?case by simp
qed simp

lemma clamp_size_bounds: "1 \<le> clamp_size n \<and> clamp_size n \<le> 100"
  by (simp add: clamp_size_def)

lemma paginate_page:
  assumes "p < nat (ls_Pages (paginate P 1 psize d))"
  shows "ls_Sites (paginate P (int p + 1) psize d) =
    map (rowSite d) (take (nat (clamp_size psize)) (drop (p * nat (clamp_size psize))
      (sort_key (\<lambda>s. to_lower (site_name s)) (filter P (db_sites d)))))"
proof -
  have "min (ls_Pages (paginate P 1 psize d)) (max 1 (int p + 1)) = int p + 1" using assms by auto
  moreover have "nat (int p * clamp_size psize) = p * nat (clamp_size psize)"
    using clamp_size_bounds [of psize] by (simp add: nat_mult_distrib)
  ultimately show ?thesis by (simp add: paginate_def Let_def)
qed

text \<open>The pages of a listing show every matching site of the organization exactly once, in order of its name, with between 1
  and 100 sites to the page; the total is the number of matching sites.\<close>

theorem pages_partition:
  "concat (map (\<lambda>p. ls_Sites (ListSites orgID q g (int p + 1) psize archived d))
      [0..<nat (ls_Pages (ListSites orgID q g 1 psize archived d))]) =
    map (rowSite d) (sort_key (\<lambda>s. to_lower (site_name s)) (filter (listed orgID q g archived) (db_sites d))) \<and>
    ls_Total (ListSites orgID q g page psize archived d) = int (length (filter (listed orgID q g archived) (db_sites d))) \<and>
    length (ls_Sites (ListSites orgID q g page psize archived d)) \<le> 100"
proof -
  define P where "P = listed orgID q g archived"
  let ?rows = "sort_key (\<lambda>s. to_lower (site_name s)) (filter P (db_sites d))"
  let ?n = "nat (clamp_size psize)" and ?m = "nat (ls_Pages (paginate P 1 psize d))"
  have n: "0 < ?n" using clamp_size_bounds [of psize] by simp
  have list: "ListSites orgID q g page psize archived d = paginate P page psize d" for page
    by (simp add: ListSites_def P_def)
  have "length ?rows \<le> ?m * ?n"
  proof -
    let ?t = "int (length ?rows)" and ?c = "clamp_size psize"
    have c: "1 \<le> ?c" using clamp_size_bounds by simp
    have "?t \<le> ((?t + ?c - 1) div ?c) * ?c"
      using c div_mult_mod_eq [of "?t + ?c - 1" ?c] pos_mod_bound [of ?c "?t + ?c - 1"] by linarith
    also have "\<dots> \<le> ls_Pages (paginate P 1 psize d) * ?c"
      using c by (intro mult_right_mono) (simp_all add: paginate_def Let_def)
    finally have "?t \<le> int ?m * int ?n" using c by (simp add: paginate_def Let_def max_def)
    then show ?thesis by (metis of_nat_le_iff of_nat_mult)
  qed
  then have "concat (map (\<lambda>k. take ?n (drop (k * ?n) ?rows)) [0..<?m]) = ?rows" by (rule concat_chunks [OF n])
  moreover have "concat (map (\<lambda>p. ls_Sites (paginate P (int p + 1) psize d)) [0..<?m]) =
      map (rowSite d) (concat (map (\<lambda>k. take ?n (drop (k * ?n) ?rows)) [0..<?m]))"
    unfolding map_concat map_map
    by (intro arg_cong [where f = concat] map_cong refl) (simp add: paginate_page)
  ultimately have "concat (map (\<lambda>p. ls_Sites (paginate P (int p + 1) psize d)) [0..<?m]) = map (rowSite d) ?rows" by simp
  moreover have "length (ls_Sites (paginate P page psize d)) \<le> ?n" by (simp add: paginate_def Let_def)
  then have "length (ls_Sites (paginate P page psize d)) \<le> 100" using clamp_size_bounds [of psize] by linarith
  moreover have "ls_Total (paginate P page psize d) = int (length (filter P (db_sites d)))" by (simp add: paginate_def Let_def)
  ultimately show ?thesis unfolding P_def [symmetric] by (simp only: list simp_thms)
qed

subsection \<open>Tenants\<close>

text \<open>The inventory operations one organization can run.\<close>

inductive site_step :: "net_url \<Rightarrow> int \<Rightarrow> db \<Rightarrow> db \<Rightarrow> bool" for nu :: net_url and orgID :: int where
  ss_group: "site_step nu orgID d (snd (CreateGroup now orgID nm d))"
| ss_create: "site_step nu orgID d (snd (CreateSite nu now orgID nm rawURL groupID d))"
| ss_update: "site_step nu orgID d (snd (UpdateSite nu now orgID i nm rawURL groupID enabled d))"
| ss_archive: "site_step nu orgID d (snd (Archive now orgID i archived d))"
| ss_delete: "site_step nu orgID d (snd (DeleteSite orgID i d))"
| ss_tags: "site_step nu orgID d (snd (SetTags orgID i tags d))"

text \<open>What belongs to the other organizations.\<close>

definition foreign_site :: "int \<Rightarrow> db \<Rightarrow> int \<Rightarrow> bool" where
  "foreign_site orgID d i \<longleftrightarrow> (\<exists>s \<in> set (db_sites d). site_id s = i \<and> site_org s \<noteq> orgID)"

definition foreign_view :: "int \<Rightarrow> db \<Rightarrow> group_row list \<times> site_row list \<times> tag_row list" where
  "foreign_view orgID d = (filter (\<lambda>g. grp_org g \<noteq> orgID) (db_groups d), filter (\<lambda>s. site_org s \<noteq> orgID) (db_sites d),
     filter (\<lambda>t. foreign_site orgID d (tag_site t)) (db_tags d))"

lemma foreign_view_eqI:
  assumes "filter (\<lambda>g. grp_org g \<noteq> orgID) (db_groups d') = filter (\<lambda>g. grp_org g \<noteq> orgID) (db_groups d)"
    and "filter (\<lambda>s. site_org s \<noteq> orgID) (db_sites d') = filter (\<lambda>s. site_org s \<noteq> orgID) (db_sites d)"
    and "filter (\<lambda>t. foreign_site orgID d (tag_site t)) (db_tags d') = filter (\<lambda>t. foreign_site orgID d (tag_site t)) (db_tags d)"
  shows "foreign_view orgID d' = foreign_view orgID d"
proof -
  have "foreign_site orgID x i \<longleftrightarrow> i \<in> site_id ` set (filter (\<lambda>s. site_org s \<noteq> orgID) (db_sites x))" for x i
    by (auto simp: foreign_site_def)
  then have "foreign_site orgID d' = foreign_site orgID d" unfolding fun_eq_iff by (simp only: assms(2)) simp
  with assms show ?thesis by (simp add: foreign_view_def)
qed

lemma filter_upd_where: "(\<And>r. P r \<Longrightarrow> \<not> Q r \<and> \<not> Q (f r)) \<Longrightarrow> filter Q (upd_where P f rs) = filter Q rs"
  by (induction rs) (auto simp: upd_where_def)

lemma filter_del_where: "(\<And>r. r \<in> set rs \<Longrightarrow> P r \<Longrightarrow> \<not> Q r) \<Longrightarrow> filter Q (del_where P rs) = filter Q rs"
  by (induction rs) (auto simp: del_where_def)

lemma GetForOrg_row: "GetForOrg orgID i d = Inr s \<Longrightarrow> \<exists>r \<in> set (db_sites d). site_id r = i \<and> site_org r = orgID \<and> s = rowSite d r"
  by (auto simp: GetForOrg_def split: option.splits dest!: first_row_Some)

lemma own_site_not_foreign: "db_ok d \<Longrightarrow> GetForOrg orgID i d = Inr s \<Longrightarrow> \<not> foreign_site orgID d i"
  using distinct_map_inj [of site_id "db_sites d"] by (auto simp: db_ok_def sites_ok_def foreign_site_def dest!: GetForOrg_row)

lemma run_stmts_invariant:
  assumes "run_stmts fs d = (r, d')" "I d" "\<And>f x x'. f \<in> set fs \<Longrightarrow> I x \<Longrightarrow> f x = Inr x' \<Longrightarrow> I x'"
  shows "I d'"
  using assms
proof (induction fs arbitrary: d)
  case (Cons f fs)
  show ?case
  proof (cases "f d")
    case (Inr x)
    with Cons.prems have "run_stmts fs x = (r, d')" "I x" by auto
    then show ?thesis by (rule Cons.IH) (use Cons.prems(3) in auto)
  qed (use Cons.prems in auto)
qed simp

lemma site_stmts_invariant:
  assumes "run_stmts ([insert_monitor i k a b c t, insert_health h] @ map (insert_header i) names) d = (r, d')" "I d"
    and "\<And>x x'. I x \<Longrightarrow> insert_monitor i k a b c t x = Inr x' \<Longrightarrow> I x'"
    and "\<And>x x'. I x \<Longrightarrow> insert_health h x = Inr x' \<Longrightarrow> I x'"
    and "\<And>n x x'. I x \<Longrightarrow> insert_header i n x = Inr x' \<Longrightarrow> I x'"
  shows "I d'"
proof (rule run_stmts_invariant [where I = I, OF assms(1,2)])
  fix f x x' assume f: "f \<in> set ([insert_monitor i k a b c t, insert_health h] @ map (insert_header i) names)" "I x" "f x = Inr x'"
  then consider "f = insert_monitor i k a b c t" | "f = insert_health h" | n where "f = insert_header i n" by auto
  then show "I x'"
  proof cases
    case 1
    show ?thesis by (rule assms(3) [OF f(2)]) (use f(3) 1 in simp)
  next
    case 2
    show ?thesis by (rule assms(4) [OF f(2)]) (use f(3) 2 in simp)
  next
    case 3
    show ?thesis by (rule assms(5) [OF f(2)]) (use f(3) 3 in simp)
  qed
qed

lemma site_stmts_ok: "run_stmts (site_stmts i now) d = (r, d') \<Longrightarrow> db_ok d \<Longrightarrow> db_ok d'"
  unfolding site_stmts_def
  by (erule site_stmts_invariant [where I = db_ok]) (auto intro: insert_monitor_ok insert_health_ok insert_header_ok)

lemma site_stmts_frame:
  "run_stmts (site_stmts i now) d = (r, d') \<Longrightarrow> db_groups d' = db_groups d \<and> db_sites d' = db_sites d \<and> db_tags d' = db_tags d"
  unfolding site_stmts_def
  by (erule site_stmts_invariant [where I = "\<lambda>x. db_groups x = db_groups d \<and> db_sites x = db_sites d \<and> db_tags x = db_tags d"])
     (auto simp: insert_monitor_def insert_health_def insert_header_def split: if_splits)

lemma add_tags_ok: "add_tags i seen ts d = (r, d') \<Longrightarrow> db_ok d \<Longrightarrow> db_ok d'"
proof (induction i seen ts d rule: add_tags.induct)
  case (2 i seen t ts d)
  then show ?case
    by (auto simp: Let_def split: if_splits sum.splits intro: insert_tag_ok)
qed simp

lemma add_tags_frame:
  "add_tags i seen ts d = (r, d') \<Longrightarrow> db_groups d' = db_groups d \<and> db_sites d' = db_sites d \<and>
     filter (\<lambda>t. tag_site t \<noteq> i) (db_tags d') = filter (\<lambda>t. tag_site t \<noteq> i) (db_tags d)"
proof (induction i seen ts d rule: add_tags.induct)
  case (2 i seen t ts d)
  then show ?case by (auto simp: Let_def insert_tag_def split: if_splits sum.splits)
qed simp

lemma CreateGroup_frame:
  assumes "db_ok d"
  shows "db_ok (snd (CreateGroup now orgID nm d))" "foreign_view orgID (snd (CreateGroup now orgID nm d)) = foreign_view orgID d"
proof -
  have "db_ok d' \<and> foreign_view orgID d' = foreign_view orgID d" if "insert_group orgID n t None d = Inr (i, d')" for n t i d'
    using that insert_group_ok [OF assms that]
    by (auto simp: insert_group_def Let_def split: if_splits intro!: foreign_view_eqI)
  then show "db_ok (snd (CreateGroup now orgID nm d))" "foreign_view orgID (snd (CreateGroup now orgID nm d)) = foreign_view orgID d"
    using assms by (auto simp: CreateGroup_def Let_def split: sum.split)
qed

lemma CreateSite_frame:
  assumes "db_ok d"
  shows "db_ok (snd (CreateSite nu now orgID nm u g d)) \<and> foreign_view orgID (snd (CreateSite nu now orgID nm u g d)) = foreign_view orgID d"
proof -
  have "db_ok d2 \<and> foreign_view orgID d2 = foreign_view orgID d"
    if ins: "insert_site r d = Inr (i, d1)" "site_org r = orgID"
      and run: "run_stmts (site_stmts i t) d1 = (res, d2)"
    for r i d1 t res d2
  proof
    show "db_ok d2" using site_stmts_ok [OF run insert_site_ok [OF assms ins(1)]] .
    show "foreign_view orgID d2 = foreign_view orgID d"
      using site_stmts_frame [OF run] insert_site_row [OF ins(1)] ins(2) by (intro foreign_view_eqI) simp_all
  qed
  then show ?thesis using assms unfolding CreateSite_def Let_def
    by (auto split: sum.split prod.split)
qed

lemma update_own_sites:
  assumes "db_ok d" "update_sites (\<lambda>s. site_id s = i \<and> site_org s = orgID) f d = Inr d'"
    and "\<And>s. site_id (f s) = site_id s \<and> site_cluster (f s) = site_cluster s \<and> site_org (f s) = site_org s"
  shows "db_ok d' \<and> foreign_view orgID d' = foreign_view orgID d"
proof
  show "db_ok d'" using update_sites_ok [OF assms] .
  have "d' = d\<lparr>db_sites := upd_where (\<lambda>s. site_id s = i \<and> site_org s = orgID) f (db_sites d)\<rparr>"
    using assms(2) by (auto simp: update_sites_def split: if_splits)
  then show "foreign_view orgID d' = foreign_view orgID d"
    using assms(3) by (intro foreign_view_eqI) (auto intro!: filter_upd_where)
qed

lemma UpdateSite_frame:
  assumes "db_ok d"
  shows "db_ok (snd (UpdateSite nu now orgID i nm u g en d)) \<and> foreign_view orgID (snd (UpdateSite nu now orgID i nm u g en d)) = foreign_view orgID d"
  using assms update_own_sites [OF assms] unfolding UpdateSite_def
  by (auto split: sum.split prod.split)

lemma Archive_frame:
  assumes "db_ok d"
  shows "db_ok (snd (Archive now orgID i arch d)) \<and> foreign_view orgID (snd (Archive now orgID i arch d)) = foreign_view orgID d"
  using assms update_own_sites [OF assms] unfolding Archive_def
  by (auto split: sum.split)

lemma DeleteSite_frame:
  assumes "db_ok d"
  shows "db_ok (snd (DeleteSite orgID i d)) \<and> foreign_view orgID (snd (DeleteSite orgID i d)) = foreign_view orgID d"
proof (cases "GetForOrg orgID i d")
  case (Inr s)
  let ?P = "\<lambda>s. site_id s = i \<and> site_org s = orgID"
  have "foreign_view orgID (delete_sites ?P d) = foreign_view orgID d"
  proof (rule foreign_view_eqI)
    have "\<not> foreign_site orgID d i" by (rule own_site_not_foreign [OF assms Inr])
    then show "filter (\<lambda>t. foreign_site orgID d (tag_site t)) (db_tags (delete_sites ?P d)) =
        filter (\<lambda>t. foreign_site orgID d (tag_site t)) (db_tags d)"
      by (auto simp: delete_sites_def Let_def intro!: filter_del_where)
  qed (auto simp: delete_sites_def Let_def intro!: filter_del_where)
  then show ?thesis using assms Inr delete_sites_ok [OF assms] by (simp add: DeleteSite_def)
qed (use assms in \<open>simp add: DeleteSite_def\<close>)

lemma SetTags_frame:
  assumes "db_ok d"
  shows "db_ok (snd (SetTags orgID i tags d)) \<and> foreign_view orgID (snd (SetTags orgID i tags d)) = foreign_view orgID d"
proof (cases "GetForOrg orgID i d")
  case (Inr s)
  obtain r d' where run: "add_tags i [] tags (delete_tags i d) = (r, d')" by fastforce
  have own: "\<not> foreign_site orgID d i" by (rule own_site_not_foreign [OF assms Inr])
  have sub: "filter (\<lambda>t. foreign_site orgID d (tag_site t)) ts =
      filter (\<lambda>t. foreign_site orgID d (tag_site t)) (filter (\<lambda>t. tag_site t \<noteq> i) ts)" for ts
    unfolding filter_filter using own by (intro filter_cong) auto
  have "filter (\<lambda>t. tag_site t \<noteq> i) (db_tags d') = filter (\<lambda>t. tag_site t \<noteq> i) (db_tags d)"
    using add_tags_frame [OF run] by (simp add: delete_tags_def del_where_def)
  then have "foreign_view orgID d' = foreign_view orgID d"
    using add_tags_frame [OF run] sub [of "db_tags d'"] sub [of "db_tags d"]
    by (intro foreign_view_eqI) (simp_all add: delete_tags_def)
  then show ?thesis using run Inr add_tags_ok [OF run delete_tags_ok [OF assms]] by (simp add: SetTags_def)
qed (use assms in \<open>simp add: SetTags_def\<close>)

lemmas site_op_frames = CreateGroup_frame CreateSite_frame UpdateSite_frame Archive_frame DeleteSite_frame SetTags_frame

text \<open>Whatever sequence of inventory operations one organization runs, the integrity of the tables holds and the
  groups, sites and tags of every other organization are exactly as they were.\<close>

theorem tenants_isolated:
  assumes "db_ok d" "(site_step nu orgID)\<^sup>*\<^sup>* d d'"
  shows "db_ok d' \<and> foreign_view orgID d' = foreign_view orgID d"
  using assms(2,1)
proof (induction rule: rtranclp_induct)
  case (step x y)
  from step.hyps(2) step.IH [OF step.prems] show ?case
    by (cases rule: site_step.cases) (simp_all add: site_op_frames)
qed simp

lemma insert_rows_stmts:
  assumes "insert_site_rows i now d = Inr d'"
  shows "run_stmts (site_stmts i now) d = (Inr (), d')"
proof -
  have fold: "run_stmts (map f xs) x = (Inr (), x')" if "res_fold f xs x = Inr x'" for f :: "string \<Rightarrow> db \<Rightarrow> (sql_error, db) result" and xs x x'
    using that by (induction xs arbitrary: x) auto
  show ?thesis using assms fold unfolding insert_site_rows_def site_stmts_def by auto
qed

lemma new_health_row:
  assumes "insert_site_rows i t d1 = Inr (d1\<lparr>db_monitors := ms, db_health := hs, db_headers := xs\<rparr>)" "db_health d1 = db_health d"
  shows "hs = db_health d @ [\<lparr>hl_site = i, hl_state = ''unknown'', hl_fails = 0, hl_last_check = None,
      hl_change = t, hl_success = None, hl_failure = None\<rparr>]"
proof -
  let ?h = "\<lparr>hl_site = i, hl_state = ''unknown'', hl_fails = 0, hl_last_check = None, hl_change = t, hl_success = None, hl_failure = None\<rparr>"
  obtain d2 d3 where m: "insert_monitor i ''http'' 10000 200 399 t d1 = Inr d2" "insert_health ?h d2 = Inr d3"
      "res_fold (insert_header i) default_headers d3 = Inr (d1\<lparr>db_monitors := ms, db_health := hs, db_headers := xs\<rparr>)"
    using assms(1) unfolding insert_site_rows_def by auto
  have "db_health d2 = db_health d1" "db_health d3 = db_health d2 @ [?h]"
    using m(1,2) by (auto simp: insert_monitor_def insert_health_def split: if_splits)
  moreover have "db_health (d1\<lparr>db_monitors := ms, db_health := hs, db_headers := xs\<rparr>) = db_health d3"
    by (rule res_fold_invariant [OF m(3), where I = "\<lambda>x. db_health x = db_health d3"])
       (auto simp: insert_header_def split: if_splits)
  ultimately show ?thesis using assms(2) by simp
qed

text \<open>Creating a site with valid input in an existing organization always succeeds and is complete: the tables stay sound, the
  site is returned enabled, unarchived and of unknown health, and the rows it was created with are those the replicated path
  writes for the same site, an HTTP monitor, a health row and the expected headers.\<close>

theorem create_site_complete:
  assumes "db_ok d" "orgID \<in> set (org_ids d)" "0 \<le> groupID" "checked_input nu orgID nm rawURL groupID d = Inr (nm', u)"
  shows "\<exists>site d' d1 i. CreateSite nu now orgID nm rawURL groupID d = (Inr site, d') \<and> db_ok d' \<and>
    insert_site_rows i (format_nano now) d1 = Inr d' \<and> db_sites d' = db_sites d1 \<and> st_ID site = i \<and> i \<notin> set (site_ids d) \<and>
    GetForOrg orgID i d' = Inr site \<and> st_Name site = nm' \<and> st_PrimaryURL site = u \<and> st_GroupID site = groupID \<and>
    st_Enabled site \<and> \<not> st_Archived site \<and> st_Health site = ''unknown''"
proof -
  let ?t = "format_nano now"
  let ?r = "\<lparr>site_id = 0, site_org = orgID, site_name = nm', site_url = u, site_enabled = True, site_group = nullif0 groupID,
    site_archived = None, site_created = ?t, site_updated = ?t, site_cluster = None\<rparr>"
  have grp: "g \<in> set (group_ids d)" if "nullif0 groupID = Some g" for g
    using assms(3,4) that by (auto simp: checked_input_def nullif0_def group_known_def Let_def split: if_splits sum.splits)
  define i where "i = fresh_id (site_ids d)"
  define d1 where "d1 = d\<lparr>db_sites := db_sites d @ [?r\<lparr>site_id := i\<rparr>]\<rparr>"
  have ins: "insert_site ?r d = Inr (i, d1)"
    using assms(2) grp by (auto simp: insert_site_def Let_def i_def d1_def)
  have new: "i \<notin> set (site_ids d)" unfolding i_def by (rule fresh_id_notin)
  note unused = fresh_site_unused [OF assms(1) i_def]
  obtain ms hs xs where rows: "insert_site_rows i ?t d1 = Inr (d1\<lparr>db_monitors := ms, db_health := hs, db_headers := xs\<rparr>)"
    by (rule insert_site_rows_succeeds [of d1 i ?t]) (use unused in \<open>auto simp: d1_def\<close>)
  let ?d' = "d1\<lparr>db_monitors := ms, db_health := hs, db_headers := xs\<rparr>"
  have ok: "db_ok ?d'" by (rule insert_site_rows_ok [OF insert_site_ok [OF assms(1) ins] rows])
  have hrow: "hs = db_health d @ [\<lparr>hl_site = i, hl_state = ''unknown'', hl_fails = 0, hl_last_check = None,
      hl_change = ?t, hl_success = None, hl_failure = None\<rparr>]"
    by (rule new_health_row [OF rows]) (simp_all add: d1_def)
  have row: "first_row (\<lambda>s. site_id s = i \<and> site_org s = orgID) (db_sites ?d') = Some (?r\<lparr>site_id := i\<rparr>)"
    using unused(5) by (simp add: d1_def first_row_append first_row_None [THEN iffD2])
  have "first_row (\<lambda>h. hl_site h = i) hs = Some \<lparr>hl_site = i, hl_state = ''unknown'', hl_fails = 0, hl_last_check = None,
      hl_change = ?t, hl_success = None, hl_failure = None\<rparr>"
    using unused(2) unfolding hrow by (simp add: first_row_append first_row_None [THEN iffD2])
  then have get: "GetForOrg orgID i ?d' = Inr (rowSite ?d' (?r\<lparr>site_id := i\<rparr>))"
    "st_Health (rowSite ?d' (?r\<lparr>site_id := i\<rparr>)) = ''unknown''"
    using row by (simp_all add: GetForOrg_def rowSite_def Let_def)
  have "CreateSite nu now orgID nm rawURL groupID d = (Inr (rowSite ?d' (?r\<lparr>site_id := i\<rparr>)), ?d')"
    using assms(4) ins insert_rows_stmts [OF rows] get(1) by (simp add: CreateSite_def Let_def)
  with ok rows get new show ?thesis
    by (intro exI [of _ "rowSite ?d' (?r\<lparr>site_id := i\<rparr>)"] exI [of _ ?d'] exI [of _ d1] exI [of _ i])
       (simp add: rowSite_def Let_def nullif0_def)
qed

text \<open>C27. Replacing the tags of a site is not atomic: when a tag is too long the request is refused, but the tags the site had are
  gone and replaced by those that precede the refused one.\<close>

theorem rejected_tags_lost:
  assumes "SetTags orgID i tags d = (Inl TagTooLong, d')"
  shows "\<forall>t \<in> set (db_tags d'). tag_site t = i \<longrightarrow> tag_text t \<in> (\<lambda>x. to_lower (trim_space x)) ` set tags"
proof -
  have *: "t \<in> set (db_tags x) \<or> tag_text t \<in> (\<lambda>x. to_lower (trim_space x)) ` set ts"
    if "add_tags i seen ts x = (r, x')" "t \<in> set (db_tags x')" for t seen ts x r x'
    using that
  proof (induction i seen ts x rule: add_tags.induct)
    case (2 i seen t ts d)
    then show ?case by (fastforce simp: Let_def insert_tag_def split: if_splits sum.splits)
  qed simp
  obtain s where "GetForOrg orgID i d = Inr s" using assms by (cases "GetForOrg orgID i d") (auto simp: SetTags_def GetForOrg_def split: option.splits)
  then have "add_tags i [] tags (delete_tags i d) = (Inl TagTooLong, d')" using assms by (simp add: SetTags_def)
  with * show ?thesis by (fastforce simp: delete_tags_def)
qed

subsection \<open>Concrete inventories\<close>

definition sample_net_url :: net_url where
  "sample_net_url = \<lparr>nu_parse = (\<lambda>t. Some \<lparr>gu_scheme = ''https'', gu_user = False, gu_host = t, gu_path = '''', gu_query = '''',
       gu_fragment = '''', gu_rest = ''''\<rparr>),
     nu_string = (\<lambda>u. gu_scheme u @ ''://'' @ gu_host u @ gu_path u), nu_resolve = (\<lambda>base ref. ref)\<rparr>"

definition sample_site_row :: "int \<Rightarrow> int \<Rightarrow> site_row" where
  "sample_site_row i org = \<lparr>site_id = i, site_org = org, site_name = ''a'', site_url = '''', site_enabled = True, site_group = None,
     site_archived = None, site_created = '''', site_updated = '''', site_cluster = None\<rparr>"

definition tagged_db :: db where
  "tagged_db = init_db\<lparr>db_sites := [sample_site_row 1 1], db_tags := [\<lparr>tag_site = 1, tag_text = ''blog''\<rparr>]\<rparr>"

lemma tagged_db_ok: "db_ok tagged_db"
  by (simp add: tagged_db_def sample_site_row_def init_db_def db_ok_def table_ok_defs)

theorem create_site_complete_witness:
  "\<exists>site d'. CreateSite sample_net_url 0 1 '' shop '' ''shop.example'' 0 init_db = (Inr site, d') \<and> db_ok d' \<and>
     st_Name site = ''shop'' \<and> st_PrimaryURL site = ''https://shop.example/''"
proof -
  have "checked_input sample_net_url 1 '' shop '' ''shop.example'' 0 init_db = Inr (''shop'', ''https://shop.example/'')"
    by (simp add: checked_input_def CanonicalURL_def sample_net_url_def url_Hostname_def last_colon_def strip_brackets_def str_simps)
  moreover have "1 \<in> set (org_ids init_db)" by (simp add: init_db_def)
  ultimately show ?thesis using create_site_complete [OF init_db_ok, of 1 0 sample_net_url "'' shop ''" "''shop.example''" _ _ 0] by fastforce
qed

theorem tenants_isolated_witness:
  "foreign_view 2 (snd (SetTags 2 1 [''x''] tagged_db)) = foreign_view 2 tagged_db"
  using tenants_isolated [OF tagged_db_ok r_into_rtranclp, OF ss_tags [of sample_net_url 2 tagged_db 1 "[''x'']"]] by simp

definition long_tag :: string where
  "long_tag = replicate 41 CHR ''x''"

lemma long_tag_simps: "to_lower (trim_space long_tag) = long_tag" "length long_tag = 41" "long_tag \<noteq> []"
  "long_tag \<noteq> ''new''" "long_tag \<noteq> ''blog''"
proof -
  show len: "length long_tag = 41" by (simp add: long_tag_def)
  show "to_lower (trim_space long_tag) = long_tag"
    by (simp add: long_tag_def trim_space_def to_lower_def is_space_def lower_char_def Let_def dropWhile_replicate)
  have "long_tag \<noteq> t" if "length t < 41" for t using len that by auto
  then show "long_tag \<noteq> []" "long_tag \<noteq> ''new''" "long_tag \<noteq> ''blog''" by simp_all
qed

lemma short_tag: "to_lower (trim_space ''new'') = ''new''"
  by (simp add: str_simps)

theorem rejected_tags_lost_witness:
  "fst (SetTags 1 1 [''new'', long_tag] tagged_db) = Inl TagTooLong \<and>
   \<lparr>tag_site = 1, tag_text = ''blog''\<rparr> \<notin> set (db_tags (snd (SetTags 1 1 [''new'', long_tag] tagged_db)))"
proof -
  have *: "SetTags 1 1 [''new'', long_tag] tagged_db = (Inl TagTooLong, snd (SetTags 1 1 [''new'', long_tag] tagged_db))"
    by (simp add: SetTags_def GetForOrg_def tagged_db_def sample_site_row_def init_db_def delete_tags_def del_where_def
        insert_tag_def long_tag_simps short_tag)
  have "''blog'' \<notin> (\<lambda>x. to_lower (trim_space x)) ` set [''new'', long_tag]"
    using long_tag_simps(5) by (simp add: long_tag_simps(1) short_tag)
  moreover have "fst (SetTags 1 1 [''new'', long_tag] tagged_db) = Inl TagTooLong" by (subst *) simp
  ultimately show ?thesis using bspec [OF rejected_tags_lost [OF *]] by force
qed

end
