(* ===== verification/Notifications.thy ===== *)
theory Notifications
  imports Incidents Netguard Url Json
begin

text \<open>
  Webhook integrations, \<^verbatim>\<open>internal/notifications\<close>: registration and history (\<^verbatim>\<open>notifications.go\<close>) and the worker that empties the
  outbox \<^verbatim>\<open>notification_deliveries\<close> (\<^verbatim>\<open>worker.go\<close>). The world a delivery meets is \<open>hook_world\<close>: for each attempt the
  resolver's answer, the outcome of dialling an address and the answer of the server reached, and whether
  the context ends during the pause that follows. \<open>json_text\<close> and \<open>hmac\<close> stand for \<^verbatim>\<open>json.Marshal\<close> and the hexadecimal
  HMAC-SHA256.
\<close>

datatype hook_error = HookNotHTTPS | HookNotPublic | HookSql sql_error

record Webhook =
  wb_ID :: int
  wb_Name :: string
  wb_URL :: string
  wb_Enabled :: bool
  wb_CreatedAt :: string

definition CreateWebhook :: "net_url \<Rightarrow> Guard \<Rightarrow> string \<Rightarrow> instant \<Rightarrow> int \<Rightarrow> string \<Rightarrow> string \<Rightarrow> db
    \<Rightarrow> (hook_error, Webhook \<times> string) result \<times> db" where
  "CreateWebhook nu g secret now org nm rawURL d =
     (case nu_parse nu rawURL of
        None \<Rightarrow> (Inl HookNotHTTPS, d)
      | Some u \<Rightarrow>
          if gu_scheme u \<noteq> ''https'' \<or> gu_host u = '''' then (Inl HookNotHTTPS, d)
          else case ValidateHost g (url_Hostname u) of
            Inl _ \<Rightarrow> (Inl HookNotPublic, d)
          | Inr _ \<Rightarrow>
              if org \<notin> set (org_ids d) then (Inl (HookSql ForeignKeyViolation), d)
              else let i = fresh_id (map wh_id (db_webhooks d))
                   in (Inr (\<lparr>wb_ID = i, wb_Name = nm, wb_URL = rawURL, wb_Enabled = True, wb_CreatedAt = format_nano now\<rparr>, secret),
                       d\<lparr>db_webhooks := db_webhooks d @ [\<lparr>wh_id = i, wh_org = org, wh_name = trim_space nm, wh_url = rawURL,
                          wh_secret = secret, wh_enabled = True, wh_created = format_nano now\<rparr>]\<rparr>))"

definition ListWebhooks :: "int \<Rightarrow> db \<Rightarrow> Webhook list" where
  "ListWebhooks org d =
     map (\<lambda>w. \<lparr>wb_ID = wh_id w, wb_Name = wh_name w, wb_URL = wh_url w, wb_Enabled = wh_enabled w, wb_CreatedAt = wh_created w\<rparr>)
       (sort_key wh_id (filter (\<lambda>w. wh_org w = org) (db_webhooks d)))"

definition redact :: "string \<Rightarrow> string" where
  "redact v =
     (let v = (if 500 < length v then take 500 v else v)
      in if str_contains (to_lower v) ''secret'' then ''delivery failed (redacted)'' else v)"

record Delivery =
  dv_ID :: int
  dv_WebhookID :: int
  dv_EventKind :: string
  dv_Status :: string
  dv_Attempts :: int
  dv_ResponseCode :: int
  dv_Error :: string
  dv_CreatedAt :: string
  dv_DeliveredAt :: string

definition History :: "int \<Rightarrow> db \<Rightarrow> Delivery list" where
  "History org d =
     map (\<lambda>n. \<lparr>dv_ID = nd_id n, dv_WebhookID = nd_webhook n, dv_EventKind = nd_kind n, dv_Status = nd_status n,
            dv_Attempts = nd_attempts n, dv_ResponseCode = nd_code n, dv_Error = nd_error n, dv_CreatedAt = nd_created n,
            dv_DeliveredAt = (case nd_delivered n of None \<Rightarrow> '''' | Some t \<Rightarrow> t)\<rparr>)
       (take 100 (rev (sort_key nd_id (filter (\<lambda>n. \<exists>w \<in> set (db_webhooks d). wh_id w = nd_webhook n \<and> wh_org w = org)
          (db_deliveries d)))))"

subsection \<open>The worker\<close>

definition deliveryRetries :: nat where "deliveryRetries = 3"
definition deliveryBatch :: nat where "deliveryBatch = 20"

record 'c hook_world =
  hw_target :: "string \<Rightarrow> (string, string) result" \<comment> \<open>the address to dial for a URL, or the error of \<^verbatim>\<open>NewRequest\<close>\<close>
  hw_guard :: "nat \<Rightarrow> Guard"
  hw_dial :: "nat \<Rightarrow> addr \<Rightarrow> (string, 'c) result"
  hw_serve :: "nat \<Rightarrow> 'c \<Rightarrow> string \<Rightarrow> string \<Rightarrow> (string, int) result" \<comment> \<open>body and signature to status code\<close>
  hw_cancel :: "nat \<Rightarrow> bool"
  hw_sent :: instant
  hw_done :: "nat \<Rightarrow> instant"

text \<open>The payload as \<^verbatim>\<open>enqueueWebhooks\<close> wrote it and the envelope around it; object keys come out sorted.\<close>

definition payload_json :: "event_payload \<Rightarrow> json" where
  "payload_json p = JObj [(''at'', JStr (ep_at p)), (''incident_id'', JNum (ep_incident p)), (''site_id'', JNum (ep_site p)),
     (''state'', JStr (ep_state p)), (''summary'', JStr (ep_summary p))]"

definition buildEnvelope :: "(json \<Rightarrow> string) \<Rightarrow> instant \<Rightarrow> string \<Rightarrow> event_payload \<Rightarrow> int \<Rightarrow> string" where
  "buildEnvelope json_text now kind payload eventID =
     json_text (JObj [(''data'', payload_json payload), (''event'', JStr kind), (''event_id'', JNum eventID),
       (''sent_at'', JStr (format_nano now))])"

definition set_delivery :: "int \<Rightarrow> (delivery_row \<Rightarrow> delivery_row) \<Rightarrow> db \<Rightarrow> db" where
  "set_delivery i f d = d\<lparr>db_deliveries := upd_where (\<lambda>n. nd_id n = i) f (db_deliveries d)\<rparr>"

text \<open>One request: the guarded dial and the answer, with the addresses contacted. Redirects are not followed.\<close>

definition hook_send :: "'c hook_world \<Rightarrow> nat \<Rightarrow> string \<Rightarrow> string \<Rightarrow> string \<Rightarrow> (string, int) result \<times> addr list" where
  "hook_send w k address body sig =
     (case DialContext (hw_guard w k) (hw_dial w k) address of
        (Inl e, tried) \<Rightarrow> (Inl (dial_error_text e), tried)
      | (Inr c, tried) \<Rightarrow> (hw_serve w k c body sig, tried))"

definition http_error :: "int \<Rightarrow> string" where
  "http_error code = ''webhook returned HTTP '' @ (if code < 0 then ''-'' @ string_of_nat (nat (- code)) else string_of_nat (nat code))"

text \<open>The attempts still to make, the status code of the last answer, and the addresses contacted by them.\<close>

fun attempts :: "'c hook_world \<Rightarrow> int \<Rightarrow> string \<Rightarrow> string \<Rightarrow> string \<Rightarrow> nat list \<Rightarrow> int \<Rightarrow> db \<Rightarrow> db \<times> addr list" where
  "attempts w i url body sig [] code d = (set_delivery i (\<lambda>n. n\<lparr>nd_status := ''failed''\<rparr>) d, [])"
| "attempts w i url body sig (k # ks) code d =
     (case hw_target w url of
        Inl e \<Rightarrow> (set_delivery i (\<lambda>n. n\<lparr>nd_status := ''failed''\<rparr>) d, [])
      | Inr address \<Rightarrow>
          (let (answer, tried) = hook_send w k address body sig;
               code' = (case answer of Inr c \<Rightarrow> c | Inl _ \<Rightarrow> code);
               err = (case answer of Inr c \<Rightarrow> http_error c | Inl e \<Rightarrow> e)
           in if (case answer of Inr c \<Rightarrow> 200 \<le> c \<and> c < 300 | Inl _ \<Rightarrow> False)
              then (set_delivery i (\<lambda>n. n\<lparr>nd_status := ''delivered'', nd_attempts := int k, nd_code := code',
                     nd_delivered := Some (format_nano (hw_done w k))\<rparr>) d, tried)
              else let d1 = set_delivery i (\<lambda>n. n\<lparr>nd_attempts := int k, nd_code := code', nd_error := redact err\<rparr>) d
                   in if k < deliveryRetries \<and> hw_cancel w k then (d1, tried)
                      else let (d2, tried') = attempts w i url body sig ks code' d1 in (d2, tried @ tried')))"

definition deliver :: "(json \<Rightarrow> string) \<Rightarrow> (string \<Rightarrow> string \<Rightarrow> string) \<Rightarrow> 'c hook_world \<Rightarrow> delivery_row \<Rightarrow> webhook_row \<Rightarrow> db \<Rightarrow> db \<times> addr list" where
  "deliver json_text hmac w n h d =
     (let body = buildEnvelope json_text (hw_sent w) (nd_kind n) (nd_payload n) (nd_id n)
      in attempts w (nd_id n) (wh_url h) body (''sha256='' @ hmac (wh_secret h) body) [1..<Suc deliveryRetries] 0 d)"

text \<open>The batch read by \<^verbatim>\<open>runOnce\<close> and the deliveries it starts, each in its own goroutine under a semaphore. They write different
  rows, so that the model runs them in the order of the batch; \<open>ws\<close> gives the world each meets, \<open>None\<close> where the
  context ended before a slot was free.\<close>

definition outbox :: "db \<Rightarrow> (delivery_row \<times> webhook_row) list" where
  "outbox d = take deliveryBatch (concat (map (\<lambda>n. if nd_status n = ''pending''
      then map (Pair n) (filter (\<lambda>h. wh_id h = nd_webhook n \<and> wh_enabled h) (db_webhooks d)) else [])
    (sort_key nd_id (db_deliveries d))))"

definition deliver_row :: "(json \<Rightarrow> string) \<Rightarrow> (string \<Rightarrow> string \<Rightarrow> string) \<Rightarrow> (int \<Rightarrow> 'c hook_world option) \<Rightarrow> delivery_row \<times> webhook_row
    \<Rightarrow> db \<times> addr list \<Rightarrow> db \<times> addr list" where
  "deliver_row json_text hmac ws = (\<lambda>(n, h) (d, tr).
     case ws (nd_id n) of None \<Rightarrow> (d, tr) | Some w \<Rightarrow> (case deliver json_text hmac w n h d of (d', tr') \<Rightarrow> (d', tr @ tr')))"

definition hooks_runOnce :: "(json \<Rightarrow> string) \<Rightarrow> (string \<Rightarrow> string \<Rightarrow> string) \<Rightarrow> (int \<Rightarrow> 'c hook_world option) \<Rightarrow> db \<Rightarrow> db \<times> addr list" where
  "hooks_runOnce json_text hmac ws d = fold (deliver_row json_text hmac ws) (outbox d) (d, [])"

subsection \<open>What a delivery does to the outbox\<close>

definition keeps_identity :: "(delivery_row \<Rightarrow> delivery_row) \<Rightarrow> bool" where
  "keeps_identity f \<longleftrightarrow> (\<forall>n. nd_id (f n) = nd_id n \<and> nd_webhook (f n) = nd_webhook n \<and> nd_payload (f n) = nd_payload n)"

definition settled :: "nat \<Rightarrow> delivery_row \<Rightarrow> bool" where
  "settled limit n \<longleftrightarrow> (nd_status n = ''delivered'' \<longrightarrow> 200 \<le> nd_code n \<and> nd_code n < 300 \<and> nd_attempts n \<le> int limit) \<and>
     nd_status n \<in> {''delivered'', ''failed''}"

lemma set_delivery_comp:
  "keeps_identity f \<Longrightarrow> set_delivery i g (set_delivery i f d) = set_delivery i (g \<circ> f) d"
  by (simp add: set_delivery_def upd_where_def keeps_identity_def comp_def cong: if_cong)

lemma keeps_identity_comp: "keeps_identity f \<Longrightarrow> keeps_identity g \<Longrightarrow> keeps_identity (g \<circ> f)"
  by (simp add: keeps_identity_def)

lemma attempts_effect:
  assumes "\<forall>k \<in> set ks. k \<le> deliveryRetries"
  shows "\<exists>f. fst (attempts w i url body sig ks code d) = set_delivery i f d \<and> keeps_identity f \<and>
    ((\<forall>k. \<not> hw_cancel w k) \<longrightarrow> (\<forall>n. settled deliveryRetries (f n)))"
  using assms
proof (induction ks arbitrary: code d)
  case Nil
  show ?case by (intro exI [of _ "\<lambda>n. n\<lparr>nd_status := ''failed''\<rparr>"]) (simp add: keeps_identity_def settled_def)
next
  case (Cons k ks)
  show ?case
  proof (cases "hw_target w url")
    case (Inl e)
    then show ?thesis
      by (intro exI [of _ "\<lambda>n. n\<lparr>nd_status := ''failed''\<rparr>"]) (simp add: keeps_identity_def settled_def)
  next
    case (Inr address)
    obtain answer tried where send: "hook_send w k address body sig = (answer, tried)" by fastforce
    define code' where "code' = (case answer of Inr c \<Rightarrow> c | Inl _ \<Rightarrow> code)"
    define err where "err = (case answer of Inr c \<Rightarrow> http_error c | Inl e \<Rightarrow> e)"
    show ?thesis
    proof (cases "case answer of Inr c \<Rightarrow> 200 \<le> c \<and> c < 300 | Inl _ \<Rightarrow> False")
      case True
      then have "200 \<le> code' \<and> code' < 300" by (auto simp: code'_def split: sum.splits)
      with True Inr send Cons.prems show ?thesis
        by (intro exI [of _ "\<lambda>n. n\<lparr>nd_status := ''delivered'', nd_attempts := int k, nd_code := code',
              nd_delivered := Some (format_nano (hw_done w k))\<rparr>"])
           (simp add: keeps_identity_def settled_def code'_def)
    next
      case False
      let ?g = "\<lambda>n. n\<lparr>nd_attempts := int k, nd_code := code', nd_error := redact err\<rparr>"
      have g: "keeps_identity ?g" by (simp add: keeps_identity_def)
      obtain f where f: "fst (attempts w i url body sig ks code' (set_delivery i ?g d)) = set_delivery i f (set_delivery i ?g d)"
          "keeps_identity f" "(\<forall>k. \<not> hw_cancel w k) \<longrightarrow> (\<forall>n. settled deliveryRetries (f n))"
        using Cons.IH [of code' "set_delivery i ?g d"] Cons.prems by auto
      have step: "fst (attempts w i url body sig (k # ks) code d) = (if k < deliveryRetries \<and> hw_cancel w k
          then set_delivery i ?g d else set_delivery i (f \<circ> ?g) d)"
        using f(1) set_delivery_comp [OF g, of i f d] False Inr send
        by (auto simp add: code'_def err_def Let_def split: prod.split)
      show ?thesis
      proof (cases "k < deliveryRetries \<and> hw_cancel w k")
        case True
        show ?thesis
        proof (intro exI conjI)
          show "fst (attempts w i url body sig (k # ks) code d) = set_delivery i ?g d" using step True by simp
          show "(\<forall>k. \<not> hw_cancel w k) \<longrightarrow> (\<forall>n. settled deliveryRetries (?g n))" using True by blast
        qed (rule g)
      next
        case False
        show ?thesis
        proof (intro exI conjI)
          show "fst (attempts w i url body sig (k # ks) code d) = set_delivery i (f \<circ> ?g) d" using step False by simp
          show "keeps_identity (f \<circ> ?g)" by (rule keeps_identity_comp [OF g f(2)])
          show "(\<forall>k. \<not> hw_cancel w k) \<longrightarrow> (\<forall>n. settled deliveryRetries ((f \<circ> ?g) n))" using f(3) by simp
        qed
      qed
    qed
  qed
qed

lemma hook_send_allowed:
  assumes "\<not> AllowPrivate (hw_guard w k)"
  shows "\<forall>ip \<in> set (snd (hook_send w k address body sig)). \<not> Blocked ip"
proof -
  obtain r tried where dial: "DialContext (hw_guard w k) (hw_dial w k) address = (r, tried)" by fastforce
  have "\<forall>ip \<in> set tried. \<not> Blocked ip"
    using tried_not_blocked [OF assms dial] .
  with dial show ?thesis by (simp add: hook_send_def split: sum.split)
qed

lemma attempts_allowed:
  assumes "\<And>k. \<not> AllowPrivate (hw_guard w k)"
  shows "\<forall>ip \<in> set (snd (attempts w i url body sig ks code d)). \<not> Blocked ip"
proof (induction ks arbitrary: code d)
  case (Cons k ks)
  have send: "hook_send w k address body sig = (r, tr) \<Longrightarrow> ip \<in> set tr \<Longrightarrow> \<not> Blocked ip" for address r tr ip
    using hook_send_allowed [OF assms, of k address body sig] by simp
  have rest: "attempts w i url body sig ks c x = (r, tr) \<Longrightarrow> ip \<in> set tr \<Longrightarrow> \<not> Blocked ip" for c x r tr ip
    using Cons.IH [of c x] by simp
  show ?case by (auto simp: Let_def split: sum.split prod.split dest: send rest)
qed simp

lemma set_delivery_rows:
  assumes "keeps_identity f"
  shows "map nd_id (db_deliveries (set_delivery i f d)) = map nd_id (db_deliveries d)"
    "n \<in> set (db_deliveries d) \<Longrightarrow> nd_id n \<noteq> i \<Longrightarrow> n \<in> set (db_deliveries (set_delivery i f d))"
    "n \<in> set (db_deliveries d) \<Longrightarrow> nd_id n = i \<Longrightarrow> f n \<in> set (db_deliveries (set_delivery i f d))"
  using assms by (auto simp: set_delivery_def map_upd_where_same set_upd_where keeps_identity_def)

lemma deliver_row_effect:
  assumes "ws (nd_id n) = Some w" "\<forall>k. \<not> hw_cancel w k"
  obtains f where "fst (deliver_row json_text hmac ws (n, h) (d, tr)) = set_delivery (nd_id n) f d" "keeps_identity f"
    "\<forall>x. settled deliveryRetries (f x)"
proof -
  have "\<forall>k \<in> set [1..<Suc deliveryRetries]. k \<le> deliveryRetries" by auto
  define body where "body = buildEnvelope json_text (hw_sent w) (nd_kind n) (nd_payload n) (nd_id n)"
  let ?run = "attempts w (nd_id n) (wh_url h) body (''sha256='' @ hmac (wh_secret h) body) [1..<Suc deliveryRetries] 0 d"
  obtain f where f: "fst ?run = set_delivery (nd_id n) f d" "keeps_identity f" "\<forall>x. settled deliveryRetries (f x)"
    using attempts_effect [OF \<open>\<forall>k \<in> set [1..<Suc deliveryRetries]. k \<le> deliveryRetries\<close>,
        of w "nd_id n" "wh_url h" body "''sha256='' @ hmac (wh_secret h) body" 0 d] assms(2) by blast
  have "fst (deliver_row json_text hmac ws (n, h) (d, tr)) = fst ?run"
    using assms(1) by (simp add: deliver_row_def deliver_def body_def Let_def split: prod.split)
  with f show ?thesis by (intro that [of f]) simp_all
qed

text \<open>Deliveries only change the rows they are for, and leave those settled.\<close>

lemma deliver_rows_settled:
  assumes "\<And>p. p \<in> set ps \<Longrightarrow> \<exists>w. ws (nd_id (fst p)) = Some w \<and> (\<forall>k. \<not> hw_cancel w k)"
    and "distinct (map nd_id (db_deliveries (fst s)))"
  shows "map nd_id (db_deliveries (fst (fold (deliver_row json_text hmac ws) ps s))) = map nd_id (db_deliveries (fst s)) \<and>
    (\<forall>x \<in> set (db_deliveries (fst s)). nd_id x \<notin> nd_id ` fst ` set ps \<longrightarrow>
       x \<in> set (db_deliveries (fst (fold (deliver_row json_text hmac ws) ps s)))) \<and>
    (\<forall>x \<in> set (db_deliveries (fst (fold (deliver_row json_text hmac ws) ps s))).
       nd_id x \<in> nd_id ` fst ` set ps \<longrightarrow> settled deliveryRetries x)"
  using assms
proof (induction ps rule: rev_induct)
  case (snoc p ps)
  obtain n h where p: "p = (n, h)" by fastforce
  obtain d tr where s: "fold (deliver_row json_text hmac ws) ps s = (d, tr)" by fastforce
  have IH: "map nd_id (db_deliveries d) = map nd_id (db_deliveries (fst s))"
    "\<forall>x \<in> set (db_deliveries (fst s)). nd_id x \<notin> nd_id ` fst ` set ps \<longrightarrow> x \<in> set (db_deliveries d)"
    "\<forall>x \<in> set (db_deliveries d). nd_id x \<in> nd_id ` fst ` set ps \<longrightarrow> settled deliveryRetries x"
    using snoc s by simp_all
  obtain w where "ws (nd_id n) = Some w" "\<forall>k. \<not> hw_cancel w k" using snoc.prems(1) [of p] p by auto
  then obtain f where f: "fst (deliver_row json_text hmac ws (n, h) (d, tr)) = set_delivery (nd_id n) f d" "keeps_identity f"
      "\<forall>x. settled deliveryRetries (f x)" by (rule deliver_row_effect)
  have rows: "x \<in> set (db_deliveries (set_delivery (nd_id n) f d)) \<Longrightarrow>
      (\<exists>y. x = f y) \<and> nd_id x = nd_id n \<or> x \<in> set (db_deliveries d) \<and> nd_id x \<noteq> nd_id n" for x
    using f(2) by (auto simp: set_delivery_def set_upd_where keeps_identity_def)
  have keep: "x \<in> set (db_deliveries (fst s)) \<Longrightarrow> nd_id x \<notin> nd_id ` fst ` set (ps @ [p]) \<Longrightarrow>
      x \<in> set (db_deliveries (set_delivery (nd_id n) f d))" for x
    using IH(2) set_delivery_rows(2) [OF f(2)] p by simp
  have out: "fst (fold (deliver_row json_text hmac ws) (ps @ [p]) s) = set_delivery (nd_id n) f d"
    by (simp add: s p f(1))
  have done_rows: "settled deliveryRetries x"
    if x: "x \<in> set (db_deliveries (set_delivery (nd_id n) f d))" "nd_id x \<in> nd_id ` fst ` set (ps @ [p])" for x
    using rows [OF x(1)]
  proof
    assume "(\<exists>y. x = f y) \<and> nd_id x = nd_id n"
    then show ?thesis using f(3) by blast
  next
    assume "x \<in> set (db_deliveries d) \<and> nd_id x \<noteq> nd_id n"
    then show ?thesis using IH(3) x(2) p by simp
  qed
  show ?case unfolding out
    using IH(1) set_delivery_rows(1) [OF f(2), of "nd_id n" d] keep done_rows by simp
qed simp

lemma outbox_pending: "(n, h) \<in> set (outbox d) \<Longrightarrow> n \<in> set (db_deliveries d) \<and> nd_status n = ''pending'' \<and>
    h \<in> set (db_webhooks d) \<and> wh_id h = nd_webhook n \<and> wh_enabled h"
  unfolding outbox_def by (auto dest!: in_set_takeD split: if_splits)

lemma deliver_rows_allowed:
  assumes "\<And>i w k. ws i = Some w \<Longrightarrow> \<not> AllowPrivate (hw_guard w k)" "\<forall>ip \<in> set (snd s). \<not> Blocked ip"
  shows "\<forall>ip \<in> set (snd (fold (deliver_row json_text hmac ws) ps s)). \<not> Blocked ip"
  using assms(2)
proof (induction ps arbitrary: s)
  case (Cons p ps)
  obtain n h d tr where ps: "p = (n, h)" "s = (d, tr)" by (cases p, cases s)
  have "\<forall>ip \<in> set (snd (deliver_row json_text hmac ws p s)). \<not> Blocked ip"
  proof (cases "ws (nd_id n)")
    case (Some w)
    then show ?thesis
      using Cons.prems attempts_allowed [of w] assms(1) [OF Some]
      by (auto simp: deliver_row_def deliver_def ps Let_def split: prod.split) (metis snd_conv)
  qed (use Cons.prems in \<open>simp add: deliver_row_def ps\<close>)
  then show ?case using Cons.IH by simp
qed simp

text \<open>C28. A run of the webhook worker that is not cancelled settles its batch: every pending row it picked up is afterwards delivered,
  after at most three attempts and on a 2xx answer, or failed; every other row of the outbox is untouched; and no
  address the guard blocks was ever contacted, whatever the resolver answered at each attempt.\<close>

theorem outbox_settled:
  assumes "db_ok d" "\<And>i. \<exists>w. ws i = Some w" "\<And>i w k. ws i = Some w \<Longrightarrow> \<not> hw_cancel w k \<and> \<not> AllowPrivate (hw_guard w k)"
    and run: "hooks_runOnce json_text hmac ws d = (d', contacted)"
  shows "(\<forall>p \<in> set (outbox d). \<exists>n \<in> set (db_deliveries d'). nd_id n = nd_id (fst p) \<and> settled 3 n) \<and>
    (\<forall>n \<in> set (db_deliveries d). nd_id n \<notin> nd_id ` fst ` set (outbox d) \<longrightarrow> n \<in> set (db_deliveries d')) \<and>
    (\<forall>ip \<in> set contacted. \<not> Blocked ip)"
proof -
  have ids: "distinct (map nd_id (db_deliveries (fst (d, []::addr list))))"
    using assms(1) by (simp add: db_ok_def deliveries_ok_def)
  have total: "\<exists>w. ws (nd_id (fst p)) = Some w \<and> (\<forall>k. \<not> hw_cancel w k)" for p using assms(2,3) by metis
  have out: "d' = fst (fold (deliver_row json_text hmac ws) (outbox d) (d, []))"
    "contacted = snd (fold (deliver_row json_text hmac ws) (outbox d) (d, []))"
    using run by (simp_all add: hooks_runOnce_def)
  have res: "map nd_id (db_deliveries d') = map nd_id (db_deliveries d)"
    "\<forall>x \<in> set (db_deliveries d). nd_id x \<notin> nd_id ` fst ` set (outbox d) \<longrightarrow> x \<in> set (db_deliveries d')"
    "\<forall>x \<in> set (db_deliveries d'). nd_id x \<in> nd_id ` fst ` set (outbox d) \<longrightarrow> settled deliveryRetries x"
    using deliver_rows_settled [where ps = "outbox d" and s = "(d, [])" and ws = ws and json_text = json_text and hmac = hmac, OF total ids]
    unfolding out(1) fst_conv by blast+
  have "\<exists>n \<in> set (db_deliveries d'). nd_id n = nd_id (fst p) \<and> settled 3 n" if "p \<in> set (outbox d)" for p
  proof -
    have "fst p \<in> set (db_deliveries d)" using outbox_pending [of "fst p" "snd p"] that by simp
    then have "nd_id (fst p) \<in> set (map nd_id (db_deliveries d'))" using res(1) by simp
    then obtain n where n: "n \<in> set (db_deliveries d')" "nd_id n = nd_id (fst p)" by auto
    then have "settled deliveryRetries n" using res(3) that by force
    with n show ?thesis by (auto simp: deliveryRetries_def)
  qed
  moreover have "\<forall>ip \<in> set contacted. \<not> Blocked ip"
    unfolding out(2) by (rule deliver_rows_allowed) (use assms(3) in auto)
  ultimately show ?thesis using res(2) by blast
qed

definition sample_hook_world :: "unit hook_world" where
  "sample_hook_world = \<lparr>hw_target = (\<lambda>u. Inr ''hook:443''), hw_guard = (\<lambda>k. \<lparr>Resolver = \<lambda>h. Inr [v4 93 184 216 34], AllowPrivate = False\<rparr>),
     hw_dial = (\<lambda>k ip. Inr ()), hw_serve = (\<lambda>k c body sig. Inr (if k = 1 then 500 else 204)), hw_cancel = (\<lambda>k. False),
     hw_sent = 0, hw_done = (\<lambda>k. 0)\<rparr>"

definition hooked_db :: db where
  "hooked_db = init_db\<lparr>db_webhooks := [\<lparr>wh_id = 1, wh_org = 1, wh_name = ''ops'', wh_url = ''https://hook'', wh_secret = ''s'',
       wh_enabled = True, wh_created = ''''\<rparr>],
     db_deliveries := [\<lparr>nd_id = 7, nd_webhook = 1, nd_kind = ''incident.open'', nd_status = ''pending'',
       nd_payload = \<lparr>ep_site = 1, ep_incident = 1, ep_state = ''down'', ep_summary = '''', ep_at = ''''\<rparr>,
       nd_attempts = 0, nd_code = 0, nd_error = '''', nd_created = '''', nd_delivered = None\<rparr>]\<rparr>"

theorem outbox_settled_witness:
  "\<exists>n \<in> set (db_deliveries (fst (hooks_runOnce (\<lambda>j. '''') (\<lambda>k b. '''') (\<lambda>i. Some sample_hook_world) hooked_db))). nd_id n = 7 \<and> settled 3 n"
proof -
  have ok: "db_ok hooked_db" by (simp add: hooked_db_def init_db_def db_ok_def table_ok_defs)
  have "\<exists>w. (\<lambda>i. Some sample_hook_world) i = Some w" for i :: int by simp
  moreover have "(\<lambda>i. Some sample_hook_world) i = Some w \<Longrightarrow> \<not> hw_cancel w k \<and> \<not> AllowPrivate (hw_guard w k)" for i :: int and w k
    by (auto simp: sample_hook_world_def)
  moreover have "nd_id (fst p) = 7" if "p \<in> set (outbox hooked_db)" for p
    using that by (simp add: outbox_def hooked_db_def deliveryBatch_def)
  moreover have "outbox hooked_db \<noteq> []" by (simp add: outbox_def hooked_db_def deliveryBatch_def)
  ultimately show ?thesis
    using outbox_settled [OF ok, of "\<lambda>i. Some sample_hook_world" "\<lambda>j. ''''" "\<lambda>k b. ''''", OF _ _ surjective_pairing]
    by (metis last_in_set)
qed

end
