(* ===== verification/Routes.thy ===== *)
theory Routes
  imports Oidc Requestmeta Ratelimit Json
begin

text \<open>
  The route table and the authorization of \<^verbatim>\<open>internal/server/server.go\<close>. A handler is a function of the principal and the state; the
  state of the server extends \<open>auth_state\<close>, what the middleware itself reads and writes, and the environment of a request extends
  \<open>auth_env\<close>: the digest, the parser of stored times, the proxy settings and the readings of the clock the middleware makes.
\<close>

subsection \<open>Requests and responses\<close>

record http_request = request +
  hq_cookies :: "(string \<times> string) list"
  hq_id :: string \<comment> \<open>\<^verbatim>\<open>PathValue("id")\<close>\<close>
  hq_query :: "(string \<times> string) list"
  hq_host :: string
  hq_body :: "json option" \<comment> \<open>the first JSON value of the body, unless it does not parse or is longer than 64 KiB\<close>

definition meta :: "http_request \<Rightarrow> request option" where
  "meta r = Some (request.truncate r)"

record cookie =
  ck_Name :: string
  ck_Value :: string
  ck_MaxAge :: int
  ck_Secure :: bool
  ck_SameSite :: string

datatype 'b payload = PError string | PBody 'b | PEmpty

record 'b response =
  rsp_status :: int
  rsp_body :: "'b payload"
  rsp_cookies :: "cookie list"
  rsp_location :: string

definition writeJSON :: "int \<Rightarrow> 'b \<Rightarrow> 'b response" where
  "writeJSON status v = \<lparr>rsp_status = status, rsp_body = PBody v, rsp_cookies = [], rsp_location = ''''\<rparr>"

definition writeError :: "int \<Rightarrow> string \<Rightarrow> 'b response" where
  "writeError status msg = \<lparr>rsp_status = status, rsp_body = PError (trim_space msg), rsp_cookies = [], rsp_location = ''''\<rparr>"

definition query_get :: "http_request \<Rightarrow> string \<Rightarrow> string" where
  "query_get r k = (case map_of (hq_query r) k of None \<Rightarrow> '''' | Some v \<Rightarrow> v)"

subsection \<open>Principals\<close>

record principal =
  pl_UserID :: int
  pl_Email :: string
  pl_CSRF :: string
  pl_OrgID :: int
  pl_Role :: string

definition no_principal :: principal where
  "no_principal = \<lparr>pl_UserID = 0, pl_Email = '''', pl_CSRF = '''', pl_OrgID = 0, pl_Role = ''''\<rparr>"

record auth_state =
  sr_acct :: acct
  sr_tokenLim :: rateLimiter

record auth_env =
  nv_sha :: "string \<Rightarrow> string"
  nv_parse_time :: "string \<Rightarrow> instant option"
  nv_proxy :: proxy_config
  nv_auth_time :: instant
  nv_limit_time :: instant

definition CSRFHeader :: string where "CSRFHeader = ''X-CSRF-Token''"

text \<open>\<open>Inl (Some resp)\<close>: the response has been written; \<open>Inl None\<close>: no bearer credential.\<close>

definition tokenPrincipal :: "'e auth_env_scheme \<Rightarrow> http_request \<Rightarrow> string list \<Rightarrow> 's auth_state_scheme
    \<Rightarrow> ('b response option, principal) result \<times> 's auth_state_scheme" where
  "tokenPrincipal e r required st =
     (let authz = header_get (rq_headers r) ''Authorization''
      in if \<not> has_prefix (to_lower authz) ''bearer '' then (Inl None, st)
         else let raw = trim_space (drop 7 authz); (ans, a) = Authenticate (nv_sha e) (nv_auth_time e) raw (sr_acct st); st = st\<lparr>sr_acct := a\<rparr>
              in (case ans of
                    Inl _ \<Rightarrow>
                      let (ok, l) = Allow (''token:'' @ ClientIP (nv_proxy e) (meta r)) (nv_limit_time e) (sr_tokenLim st); st = st\<lparr>sr_tokenLim := l\<rparr>
                      in if \<not> ok then (Inl (Some (writeError 429 ''too many invalid token attempts'')), st)
                         else (Inl (Some (writeError 401 ''invalid API token'')), st)
                  | Inr (uid, org, scopes) \<Rightarrow>
                      if list_ex (HasScope scopes) required
                      then (Inr \<lparr>pl_UserID = uid, pl_Email = '''', pl_CSRF = '''', pl_OrgID = org, pl_Role = ''token''\<rparr>, st)
                      else (Inl (Some (writeError 403 ''token scope denied'')), st)))"

definition authorize :: "'e auth_env_scheme \<Rightarrow> string \<Rightarrow> bool \<Rightarrow> string list \<Rightarrow>
    (principal \<Rightarrow> 's auth_state_scheme \<Rightarrow> 'b response \<times> 's auth_state_scheme) \<Rightarrow> http_request \<Rightarrow> 's auth_state_scheme \<Rightarrow> 'b response \<times> 's auth_state_scheme" where
  "authorize e action csrf tokenScopes nxt r st =
     (case map_of (hq_cookies r) ''webfleet_session'' of
        Some c \<Rightarrow>
          let (ans, a) = SessionOf (nv_parse_time e) (nv_sha e) (nv_auth_time e) c (sr_acct st); st = st\<lparr>sr_acct := a\<rparr>
          in (case ans of
                Inl _ \<Rightarrow> (writeError 401 ''authentication required'', st)
              | Inr sess \<Rightarrow>
                  if csrf \<and> header_get (rq_headers r) CSRFHeader \<noteq> ss_CSRF sess then (writeError 403 ''invalid CSRF token'', st)
                  else case Resolve (ss_UserID sess) (sr_acct st) of
                    Inl _ \<Rightarrow> (writeError 403 ''no organization membership'', st)
                  | Inr m \<Rightarrow>
                      if action \<noteq> ''session'' \<and> \<not> Can (mem_Role m) action then (writeError 403 ''permission denied'', st)
                      else nxt \<lparr>pl_UserID = ss_UserID sess, pl_Email = ss_Email sess, pl_CSRF = ss_CSRF sess, pl_OrgID = mem_OrgID m, pl_Role = mem_Role m\<rparr> st)
      | None \<Rightarrow>
          if tokenScopes = [] then (writeError 401 ''authentication required'', st)
          else (case tokenPrincipal e r tokenScopes st of
                  (Inl (Some resp), st) \<Rightarrow> (resp, st)
                | (Inl None, st) \<Rightarrow> (writeError 401 ''authentication required'', st)
                | (Inr p, st) \<Rightarrow> nxt p st))"

subsection \<open>The table\<close>

record routeDef =
  rd_method :: string
  rd_path :: string
  rd_action :: string
  rd_csrf :: bool
  rd_build :: string \<comment> \<open>the name of the handler\<close>
  rd_tokenScopes :: "string list"

definition route :: "string \<Rightarrow> string \<Rightarrow> string \<Rightarrow> bool \<Rightarrow> string \<Rightarrow> string list \<Rightarrow> routeDef" where
  "route m p a c b s = \<lparr>rd_method = m, rd_path = p, rd_action = a, rd_csrf = c, rd_build = b, rd_tokenScopes = s\<rparr>"

definition apiRouteDefs :: "routeDef list" where
  "apiRouteDefs = [
     route ''GET'' ''/healthz'' '''' False ''healthz'' [],
     route ''GET'' ''/wf.js'' '''' False ''handleTracker'' [],
     route ''POST'' ''/api/analytics/event'' '''' False ''handleAnalyticsEvent'' [],
     route ''GET'' ''/api/setup/status'' '''' False ''handleSetupStatus'' [],
     route ''GET'' ''/api/setup/database'' '''' False ''handleDatabaseSetupStatus'' [],
     route ''POST'' ''/api/setup/database'' '''' False ''handleDatabaseSetup'' [],
     route ''POST'' ''/api/setup'' '''' False ''handleSetup'' [],
     route ''POST'' ''/api/login'' '''' False ''handleLogin'' [],
     route ''GET'' ''/api/oidc/login'' '''' False ''handleOIDCLogin'' [],
     route ''GET'' ''/api/oidc/callback'' '''' False ''handleOIDCCallback'' [],
     route ''GET'' ''/api/oidc/config'' ''organization.read'' False ''handleOIDCConfig'' [],
     route ''PUT'' ''/api/oidc/config'' ''organization.update'' True ''handleOIDCConfigSave'' [],
     route ''POST'' ''/api/logout'' ''session'' True ''handleLogout'' [],
     route ''GET'' ''/api/session'' ''session'' False ''handleSession'' [],
     route ''GET'' ''/api/launcher/instances'' '''' False ''handleLauncherInstances'' [],
     route ''PUT'' ''/api/launcher/config'' ''launcher.configure.all'' True ''handleLauncherConfig'' [],
     route ''GET'' ''/api/cluster/v1/identity'' ''organization.read'' False ''handleClusterIdentity'' [],
     route ''GET'' ''/api/cluster/v1/members'' ''organization.read'' False ''handleClusterMembers'' [],
     route ''POST'' ''/api/cluster/v1/invitations'' ''membership.update'' True ''handleClusterInvite'' [],
     route ''GET'' ''/api/cluster/v1/joins'' ''organization.read'' False ''handleClusterPendingJoins'' [],
     route ''POST'' ''/api/cluster/v1/joins/{id}/{action}'' ''membership.update'' True ''handleClusterJoinAction'' [],
     route ''GET'' ''/api/cluster/v1/outbound'' ''organization.read'' False ''handleClusterOutbound'' [],
     route ''POST'' ''/api/cluster/v1/outbound'' ''membership.update'' True ''handleClusterBeginOutbound'' [],
     route ''POST'' ''/api/cluster/v1/outbound/{id}/collect'' ''membership.update'' True ''handleClusterCollectOutbound'' [],
     route ''POST'' ''/api/cluster/v1/members/{id}/{action}'' ''membership.update'' True ''handleClusterMemberAction'' [],
     route ''GET'' ''/api/cluster/v1/status'' ''organization.read'' False ''handleClusterStatus'' [],
     route ''GET'' ''/api/cluster/v1/audit'' ''organization.read'' False ''handleClusterAudit'' [],
     route ''GET'' ''/api/cluster/v1/compare'' ''organization.read'' False ''handleClusterCompare'' [],
     route ''GET'' ''/api/cluster/v1/propagation/kinds'' ''organization.read'' False ''handlePropagationKinds'' [],
     route ''POST'' ''/api/cluster/v1/propagation/export'' ''membership.update'' True ''handlePropagationExport'' [],
     route ''POST'' ''/api/cluster/v1/propagation/preview'' ''membership.update'' True ''handlePropagationPreview'' [],
     route ''POST'' ''/api/cluster/v1/propagation/apply'' ''membership.update'' True ''handlePropagationApply'' [],
     route ''POST'' ''/api/cluster/v1/propagation/propagate'' ''membership.update'' True ''handlePropagationPropagate'' [],
     route ''GET'' ''/api/cluster/v1/propagation/history'' ''organization.read'' False ''handlePropagationHistory'' [],
     route ''GET'' ''/api/cluster/v1/propagation/profiles'' ''organization.read'' False ''handlePropagationProfiles'' [],
     route ''PUT'' ''/api/cluster/v1/propagation/profiles/{id}'' ''membership.update'' True ''handlePropagationProfilePut'' [],
     route ''DELETE'' ''/api/cluster/v1/propagation/profiles/{id}'' ''membership.update'' True ''handlePropagationProfileDelete'' [],
     route ''POST'' ''/api/cluster/v1/propagation/profiles/run-due'' ''membership.update'' True ''handlePropagationRunDue'' [],
     route ''GET'' ''/api/cluster/v1/replication/status'' ''membership.update'' False ''handleReplicationStatus'' [],
     route ''POST'' ''/api/cluster/v1/replication/join'' ''membership.update'' True ''handleReplicationJoin'' [],
     route ''POST'' ''/api/cluster/v1/replication/snapshot'' ''membership.update'' True ''handleReplicationSnapshot'' [],
     route ''POST'' ''/api/me/password'' ''session'' True ''handleChangePassword'' [],
     route ''POST'' ''/api/tokens'' ''tokens.manage'' True ''handleCreateToken'' [],
     route ''DELETE'' ''/api/tokens/{id}'' ''tokens.manage'' True ''handleRevokeToken'' [],
     route ''GET'' ''/api/notifications/webhooks'' ''webhooks.read'' False ''handleWebhooks'' [],
     route ''POST'' ''/api/notifications/webhooks'' ''webhooks.manage'' True ''handleWebhookCreate'' [],
     route ''GET'' ''/api/notifications/deliveries'' ''webhooks.read'' False ''handleNotificationDeliveries'' [],
     route ''GET'' ''/api/organization/members'' ''organization.read'' False ''handleMembers'' [],
     route ''POST'' ''/api/organization/members'' ''membership.update'' True ''handleMemberUpdate'' [],
     route ''GET'' ''/api/groups'' ''site.read'' False ''handleGroups'' [''sites:read''],
     route ''POST'' ''/api/groups'' ''site.create'' True ''handleCreateGroup'' [''sites:write''],
     route ''GET'' ''/api/sites'' ''site.read'' False ''handleSites'' [''sites:read''],
     route ''POST'' ''/api/sites'' ''site.create'' True ''handleCreateSite'' [''sites:write''],
     route ''GET'' ''/api/sites/{id}/tags'' ''site.read'' False ''handleSiteTags'' [''sites:read''],
     route ''PUT'' ''/api/sites/{id}/tags'' ''site.update'' True ''handleSiteTagsUpdate'' [''sites:write''],
     route ''GET'' ''/api/sites/{id}'' ''site.read'' False ''handleSite'' [''sites:read''],
     route ''PUT'' ''/api/sites/{id}'' ''site.update'' True ''handleUpdateSite'' [''sites:write''],
     route ''POST'' ''/api/sites/{id}/archive'' ''site.archive'' True ''handleArchiveSite'' [''sites:write''],
     route ''DELETE'' ''/api/sites/{id}'' ''site.delete'' True ''handleDeleteSite'' [''sites:write''],
     route ''GET'' ''/api/sites/{id}/analytics'' ''analytics.read'' False ''handleAnalyticsProperty'' [''analytics:read''],
     route ''POST'' ''/api/sites/{id}/analytics'' ''analytics.manage'' True ''handleEnableAnalytics'' [''sites:write''],
     route ''GET'' ''/api/sites/{id}/analytics/summary'' ''analytics.read'' False ''handleAnalyticsSummary'' [''analytics:read''],
     route ''GET'' ''/api/sites/{id}/analytics/pages'' ''analytics.read'' False ''handleAnalyticsPages'' [''analytics:read''],
     route ''GET'' ''/api/sites/{id}/analytics/countries'' ''analytics.read'' False ''handleAnalyticsCountries'' [''analytics:read''],
     route ''POST'' ''/api/sites/{id}/analytics/disable'' ''analytics.manage'' True ''handleDisableAnalytics'' [''sites:write''],
     route ''POST'' ''/api/analytics/geo/update'' ''analytics.manage'' True ''handleGeoUpdate'' [''sites:write''],
     route ''GET'' ''/api/sites/{id}/analytics/goals'' ''analytics.read'' False ''handleAnalyticsGoals'' [''analytics:read''],
     route ''POST'' ''/api/sites/{id}/analytics/goals'' ''analytics.manage'' True ''handleCreateAnalyticsGoal'' [''sites:write''],
     route ''GET'' ''/api/maintenance'' ''maintenance.read'' False ''handleMaintenance'' [],
     route ''PUT'' ''/api/maintenance'' ''maintenance.manage'' True ''handleMaintenanceUpdate'' [],
     route ''POST'' ''/api/maintenance/run'' ''maintenance.manage'' True ''handleMaintenanceRun'' [],
     route ''GET'' ''/api/fleet'' ''fleet.read'' False ''handleFleet'' [''fleet:read''],
     route ''GET'' ''/api/fleet/analytics'' ''analytics.read'' False ''handleFleetAnalytics'' [''analytics:read''],
     route ''GET'' ''/api/sites/{id}/audit'' ''audit.read'' False ''handleAudit'' [''sites:read''],
     route ''POST'' ''/api/sites/{id}/audit'' ''audit.run'' True ''handleRunAudit'' [''audit:run''],
     route ''PUT'' ''/api/sites/{id}/audit/history'' ''audit.configure'' True ''handleAuditHistorySetting'' [''sites:write''],
     route ''POST'' ''/api/audits/resolve'' ''audit.read'' True ''handleResolveAudits'' [''audit:run''],
     route ''POST'' ''/api/audits/batch'' ''audit.run'' True ''handleBatchAudits'' [''audit:run''],
     route ''POST'' ''/api/sites/{id}/check'' ''monitor.run'' True ''handleCheckSite'' [''sites:write''],
     route ''GET'' ''/api/sites/{id}/deployments'' ''deployments.read'' False ''handleDeployments'' [''sites:read''],
     route ''POST'' ''/api/sites/{id}/deployments'' ''deployments.record'' True ''handleDeploymentRecord'' [''sites:write''],
     route ''GET'' ''/api/sites/{id}/deployments/correlation'' ''deployments.read'' False ''handleDeploymentCorrelation'' [''sites:read''],
     route ''GET'' ''/api/sites/{id}/checks'' ''monitor.read'' False ''handleSiteChecks'' [''sites:read''],
     route ''GET'' ''/api/sites/{id}/performance'' ''monitor.read'' False ''handleSitePerformance'' [''sites:read''],
     route ''GET'' ''/api/sites/{id}/incidents'' ''incidents.read'' False ''handleSiteIncidents'' [''sites:read''],
     route ''POST'' ''/api/incidents/{id}/ack'' ''incidents.acknowledge'' True ''handleAckIncident'' [''sites:write''],
     route ''GET'' ''/api/sites/{id}/tls'' ''tls.read'' False ''handleSiteTLS'' [''sites:read''],
     route ''POST'' ''/api/sites/{id}/tls/inspect'' ''tls.run'' True ''handleInspectTLS'' [''sites:write''],
     route ''GET'' ''/api/fleet/tls'' ''tls.read'' False ''handleFleetTLS'' [''fleet:read''],
     route ''GET'' ''/api/sites/{id}/dns'' ''dns.read'' False ''handleSiteDNS'' [''sites:read''],
     route ''POST'' ''/api/sites/{id}/dns/observe'' ''dns.run'' True ''handleObserveDNS'' [''sites:write''],
     route ''GET'' ''/api/sites/{id}/http-observations'' ''monitor.read'' False ''handleHTTPObservations'' [''sites:read''],
     route ''GET'' ''/api/sites/{id}/crawl'' ''crawl.read'' False ''handleSiteCrawl'' [''sites:read''],
     route ''POST'' ''/api/sites/{id}/crawl'' ''crawl.run'' True ''handleCrawlSite'' [''sites:write''],
     route ''GET'' ''/api/fleet/link-regressions'' ''crawl.read'' False ''handleFleetLinkRegressions'' [''fleet:read''],
     route ''GET'' ''/api/sites/{id}/header-expectations'' ''monitor.read'' False ''handleHeaderExpectations'' [''sites:read''],
     route ''PUT'' ''/api/sites/{id}/header-expectations'' ''monitor.update'' True ''handleHeaderExpectationUpdate'' [''sites:write'']]"

record OperationRoute =
  or_Method :: string
  or_Path :: string
  or_Action :: string
  or_CSRF :: bool
  or_TokenScopes :: "string list"
  or_Service :: bool

definition service_route :: "string \<times> string \<Rightarrow> OperationRoute" where
  "service_route mp = \<lparr>or_Method = fst mp, or_Path = snd mp, or_Action = '''', or_CSRF = False, or_TokenScopes = [], or_Service = True\<rparr>"

definition OperationRouteInventory :: "OperationRoute list" where
  "OperationRouteInventory =
     map (\<lambda>d. \<lparr>or_Method = rd_method d, or_Path = rd_path d, or_Action = rd_action d, or_CSRF = rd_csrf d, or_TokenScopes = rd_tokenScopes d,
            or_Service = False\<rparr>) apiRouteDefs @
     map service_route [(''POST'', ''/api/cluster/v1/join''), (''GET'', ''/api/cluster/v1/join/{id}''), (''GET'', ''/api/cluster/v1/rpc/summary''),
       (''GET'', ''/api/cluster/v1/rpc/compare''), (''POST'', ''/api/cluster/v1/rpc/propagation/preview''),
       (''POST'', ''/api/cluster/v1/rpc/propagation/apply''), (''POST'', ''/api/cluster/v1/rpc/rotate-inbound''),
       (''POST'', ''/api/cluster/v1/replication/propose'')]"

text \<open>What \<^verbatim>\<open>routes\<close> registers for one definition: the bare handler, or the handler behind \<^verbatim>\<open>authorize\<close>.\<close>

definition register :: "'e auth_env_scheme \<Rightarrow> (string \<Rightarrow> http_request \<Rightarrow> principal \<Rightarrow> 's auth_state_scheme \<Rightarrow> 'b response \<times> 's auth_state_scheme)
    \<Rightarrow> routeDef \<Rightarrow> http_request \<Rightarrow> 's auth_state_scheme \<Rightarrow> 'b response \<times> 's auth_state_scheme" where
  "register e build def r st =
     (if rd_action def = '''' then build (rd_build def) r no_principal st
      else authorize e (rd_action def) (rd_csrf def) (rd_tokenScopes def) (build (rd_build def) r) r st)"

subsection \<open>The table is well formed\<close>

definition known_actions :: "string list" where
  "known_actions = [''session'', ''organization.read'', ''organization.update'', ''membership.update'', ''launcher.configure.all'', ''tokens.manage'',
     ''webhooks.read'', ''webhooks.manage'', ''site.read'', ''site.create'', ''site.update'', ''site.archive'', ''site.delete'', ''analytics.read'',
     ''analytics.manage'', ''maintenance.read'', ''maintenance.manage'', ''fleet.read'', ''audit.read'', ''audit.run'', ''audit.configure'',
     ''monitor.run'', ''monitor.read'', ''monitor.update'', ''deployments.read'', ''deployments.record'', ''incidents.read'', ''incidents.acknowledge'',
     ''tls.read'', ''tls.run'', ''dns.read'', ''dns.run'', ''crawl.read'', ''crawl.run'']"

text \<open>The type of a route: a method of the API; a session-bound CSRF token exactly where an authenticated request can change state; token scopes
  only on authenticated routes, from the scopes a token can have, and no scope for reading on a route that writes.\<close>

definition route_ok :: "routeDef \<Rightarrow> bool" where
  "route_ok d \<longleftrightarrow> rd_method d \<in> set [''GET'', ''POST'', ''PUT'', ''DELETE''] \<and> (rd_action d = '''' \<or> rd_action d \<in> set known_actions) \<and>
     rd_csrf d = (rd_action d \<noteq> '''' \<and> rd_method d \<noteq> ''GET'') \<and> (rd_action d = '''' \<longrightarrow> rd_tokenScopes d = []) \<and>
     list_all (\<lambda>s. s \<in> set token_scopes \<and> (rd_method d = ''GET'') = has_suffix s '':read'') (rd_tokenScopes d)"


subsection \<open>What the middleware lets through\<close>

text \<open>A session grants a principal: the cookie names a session of a user that has not expired, the CSRF header carries its token where
  the route asks for it, and the role of the user's membership in the organization of least id permits the action.\<close>

definition session_grant :: "'e auth_env_scheme \<Rightarrow> string \<Rightarrow> bool \<Rightarrow> http_request \<Rightarrow> acct \<Rightarrow> principal \<Rightarrow> bool" where
  "session_grant e action csrf r a p \<longleftrightarrow>
     (\<exists>c s u exp m. map_of (hq_cookies r) ''webfleet_session'' = Some c \<and> c \<noteq> '''' \<and>
        s \<in> set (ac_sessions a) \<and> se_hash s = nv_sha e c \<and> u \<in> set (ac_users a) \<and> us_id u = se_user s \<and>
        nv_parse_time e (se_expires s) = Some exp \<and> nv_auth_time e \<le> exp \<and>
        (csrf \<longrightarrow> header_get (rq_headers r) CSRFHeader = se_csrf s) \<and>
        m \<in> set (ac_members a) \<and> mb_user m = us_id u \<and> (\<forall>m' \<in> set (ac_members a). mb_user m' = us_id u \<longrightarrow> mb_org m \<le> mb_org m') \<and>
        (action = ''session'' \<or> Can (mb_role m) action) \<and>
        p = \<lparr>pl_UserID = us_id u, pl_Email = us_email u, pl_CSRF = se_csrf s, pl_OrgID = mb_org m, pl_Role = mb_role m\<rparr>)"

text \<open>A bearer token grants a principal on a route with token scopes, to a request without the session cookie: the token is stored and not
  revoked, one of its scopes is one of the route's, and the principal acts in the token's organization with no role of a user.\<close>

definition token_grant :: "'e auth_env_scheme \<Rightarrow> string list \<Rightarrow> http_request \<Rightarrow> acct \<Rightarrow> principal \<Rightarrow> bool" where
  "token_grant e scopes r a p \<longleftrightarrow>
     map_of (hq_cookies r) ''webfleet_session'' = None \<and> has_prefix (to_lower (header_get (rq_headers r) ''Authorization'')) ''bearer '' \<and>
     (\<exists>t \<in> set (ac_tokens a). tk_hash t = nv_sha e (trim_space (drop 7 (header_get (rq_headers r) ''Authorization''))) \<and> tk_revoked t = None \<and>
        set (scope_list (tk_scopes t)) \<inter> set scopes \<noteq> {} \<and>
        p = \<lparr>pl_UserID = tk_user t, pl_Email = '''', pl_CSRF = '''', pl_OrgID = tk_org t, pl_Role = ''token''\<rparr>)"

text \<open>What the middleware may change: the row of an expired session, the last use of a token, the limiter of failed tokens.\<close>

definition auth_frame :: "'s auth_state_scheme \<Rightarrow> 's auth_state_scheme \<Rightarrow> bool" where
  "auth_frame st st' \<longleftrightarrow> st' = st\<lparr>sr_tokenLim := sr_tokenLim st',
     sr_acct := (sr_acct st)\<lparr>ac_sessions := ac_sessions (sr_acct st'), ac_tokens := ac_tokens (sr_acct st')\<rparr>\<rparr> \<and>
     set (ac_sessions (sr_acct st')) \<subseteq> set (ac_sessions (sr_acct st)) \<and>
     map (\<lambda>t. t\<lparr>tk_used := None\<rparr>) (ac_tokens (sr_acct st')) = map (\<lambda>t. t\<lparr>tk_used := None\<rparr>) (ac_tokens (sr_acct st))"

lemma auth_frame_refl: "auth_frame st st"
  by (simp add: auth_frame_def)

lemma auth_frame_limiter: "auth_frame st st' \<Longrightarrow> auth_frame st (st'\<lparr>sr_tokenLim := l\<rparr>)"
  by (cases st; cases st') (simp add: auth_frame_def)

lemma auth_frame_session: "auth_frame st (st\<lparr>sr_acct := snd (SessionOf pt sha now c (sr_acct st))\<rparr>)"
  by (auto simp: auth_frame_def SessionOf_def delete_session_def del_where_def split: option.split)

lemma auth_frame_token: "auth_frame st (st\<lparr>sr_acct := snd (Authenticate sha now tok (sr_acct st))\<rparr>)"
  by (auto simp: auth_frame_def Authenticate_def upd_where_def split: option.split)

lemma HasScope_set: "HasScope ss want \<longleftrightarrow> want \<in> set ss"
  by (induction ss) auto


lemma SessionOf_row:
  assumes "fst (SessionOf pt sha now c a) = Inr sess"
  shows "\<exists>s u exp. c \<noteq> '''' \<and> s \<in> set (ac_sessions a) \<and> se_hash s = sha c \<and> u \<in> set (ac_users a) \<and> us_id u = se_user s \<and>
    pt (se_expires s) = Some exp \<and> now \<le> exp \<and>
    sess = \<lparr>ss_UserID = se_user s, ss_Email = us_email u, ss_CSRF = se_csrf s, ss_Expires = exp\<rparr>"
proof -
  from assms obtain s u exp where *: "c \<noteq> ''''" "session_lookup sha c a = Some (s, u)" "pt (se_expires s) = Some exp" "now \<le> exp"
      "sess = \<lparr>ss_UserID = se_user s, ss_Email = us_email u, ss_CSRF = se_csrf s, ss_Expires = exp\<rparr>"
    by (auto simp: SessionOf_def split: if_splits option.splits)
  from *(2) have "first_row (\<lambda>s. se_hash s = sha c) (ac_sessions a) = Some s" "first_row (\<lambda>u. us_id u = se_user s) (ac_users a) = Some u"
    by (auto simp: session_lookup_def split: option.splits)
  from this [THEN first_row_Some] * show ?thesis by blast
qed

lemma SessionOf_found:
  assumes ok: "acct_ok d a" and "c \<noteq> ''''" and s: "s \<in> set (ac_sessions a)" "se_hash s = sha c" and u: "u \<in> set (ac_users a)" "us_id u = se_user s"
    and "pt (se_expires s) = Some exp" "now \<le> exp"
  shows "fst (SessionOf pt sha now c a) = Inr \<lparr>ss_UserID = se_user s, ss_Email = us_email u, ss_CSRF = se_csrf s, ss_Expires = exp\<rparr>"
proof -
  have "first_row (\<lambda>s. se_hash s = sha c) (ac_sessions a) = Some s"
    using ok s by (intro first_row_unique [of se_hash]) (auto simp: acct_ok_def)
  moreover have "first_row (\<lambda>u. us_id u = se_user s) (ac_users a) = Some u"
    using ok u by (intro first_row_unique [of us_id]) (auto simp: acct_ok_def)
  ultimately have "session_lookup sha c a = Some (s, u)" by (simp add: session_lookup_def)
  with assms show ?thesis by (simp add: SessionOf_def)
qed

lemma Resolve_row:
  assumes "Resolve i a = Inr m"
  shows "\<exists>x \<in> set (ac_members a). mb_user x = i \<and> (\<forall>m' \<in> set (ac_members a). mb_user m' = i \<longrightarrow> mb_org x \<le> mb_org m') \<and>
    m = \<lparr>mem_OrgID = mb_org x, mem_Role = mb_role x\<rparr>"
proof -
  let ?ms = "sort_key mb_org (filter (\<lambda>m. mb_user m = i) (ac_members a))"
  from assms obtain x xs where x: "?ms = x # xs" "m = \<lparr>mem_OrgID = mb_org x, mem_Role = mb_role x\<rparr>"
    by (auto simp: Resolve_def split: list.splits)
  have sorted: "sorted (map mb_org ?ms)" and ms: "set ?ms = {m \<in> set (ac_members a). mb_user m = i}" by simp_all
  from sorted x(1) have "\<forall>y \<in> set (x # xs). mb_org x \<le> mb_org y" by simp
  with ms x show ?thesis by auto
qed

lemma Resolve_found:
  assumes ok: "acct_ok d a" and x: "x \<in> set (ac_members a)" "mb_user x = i" "\<forall>m' \<in> set (ac_members a). mb_user m' = i \<longrightarrow> mb_org x \<le> mb_org m'"
  shows "Resolve i a = Inr \<lparr>mem_OrgID = mb_org x, mem_Role = mb_role x\<rparr>"
proof (cases "Resolve i a")
  case (Inl err)
  then have "sort_key mb_org (filter (\<lambda>m. mb_user m = i) (ac_members a)) = []" by (auto simp: Resolve_def split: list.splits)
  then have "filter (\<lambda>m. mb_user m = i) (ac_members a) = []" by (metis set_empty set_sort)
  with x show ?thesis by (auto simp: filter_empty_conv)
next
  case (Inr m)
  from Resolve_row [OF Inr] obtain y where y: "y \<in> set (ac_members a)" "mb_user y = i"
      "\<forall>m' \<in> set (ac_members a). mb_user m' = i \<longrightarrow> mb_org y \<le> mb_org m'" "m = \<lparr>mem_OrgID = mb_org y, mem_Role = mb_role y\<rparr>"
    by (elim bexE conjE) (rule that)
  have "mb_org y \<le> mb_org x" "mb_org x \<le> mb_org y" using x y by blast+
  then have "mb_org y = mb_org x" by simp
  with ok x y have "y = x"
    using distinct_map_inj [of "\<lambda>m. (mb_org m, mb_user m)" "ac_members a" y x] by (simp add: acct_ok_def)
  with Inr y show ?thesis by simp
qed


lemma session_grant_iff:
  assumes ok: "acct_ok d a" and c: "map_of (hq_cookies r) ''webfleet_session'' = Some c"
  shows "session_grant e action csrf r a p \<longleftrightarrow>
    (\<exists>sess m. fst (SessionOf (nv_parse_time e) (nv_sha e) (nv_auth_time e) c a) = Inr sess \<and>
       \<not> (csrf \<and> header_get (rq_headers r) CSRFHeader \<noteq> ss_CSRF sess) \<and> Resolve (ss_UserID sess) a = Inr m \<and>
       \<not> (action \<noteq> ''session'' \<and> \<not> Can (mem_Role m) action) \<and>
       p = \<lparr>pl_UserID = ss_UserID sess, pl_Email = ss_Email sess, pl_CSRF = ss_CSRF sess, pl_OrgID = mem_OrgID m, pl_Role = mem_Role m\<rparr>)"
    (is "?L \<longleftrightarrow> ?R")
proof
  assume ?R
  then obtain sess m where sess: "fst (SessionOf (nv_parse_time e) (nv_sha e) (nv_auth_time e) c a) = Inr sess"
      and *: "\<not> (csrf \<and> header_get (rq_headers r) CSRFHeader \<noteq> ss_CSRF sess)" "Resolve (ss_UserID sess) a = Inr m"
        "\<not> (action \<noteq> ''session'' \<and> \<not> Can (mem_Role m) action)"
        "p = \<lparr>pl_UserID = ss_UserID sess, pl_Email = ss_Email sess, pl_CSRF = ss_CSRF sess, pl_OrgID = mem_OrgID m, pl_Role = mem_Role m\<rparr>"
    by (elim exE conjE) (rule that)
  from SessionOf_row [OF sess] obtain s u exp where row: "c \<noteq> ''''" "s \<in> set (ac_sessions a)" "se_hash s = nv_sha e c" "u \<in> set (ac_users a)"
      "us_id u = se_user s" "nv_parse_time e (se_expires s) = Some exp" "nv_auth_time e \<le> exp"
      "sess = \<lparr>ss_UserID = se_user s, ss_Email = us_email u, ss_CSRF = se_csrf s, ss_Expires = exp\<rparr>"
    by (elim exE conjE) (rule that)
  from Resolve_row [OF *(2)] obtain x where x: "x \<in> set (ac_members a)" "mb_user x = ss_UserID sess"
      "\<forall>m' \<in> set (ac_members a). mb_user m' = ss_UserID sess \<longrightarrow> mb_org x \<le> mb_org m'" "m = \<lparr>mem_OrgID = mb_org x, mem_Role = mb_role x\<rparr>"
    by (elim bexE conjE) (rule that)
  show ?L unfolding session_grant_def
    using c row x * by (intro exI [of _ c] exI [of _ s] exI [of _ u] exI [of _ exp] exI [of _ x]) simp
next
  assume ?L
  then obtain c' s u exp x where c': "map_of (hq_cookies r) ''webfleet_session'' = Some c'"
      and row': "c' \<noteq> ''''" "s \<in> set (ac_sessions a)" "se_hash s = nv_sha e c'" "u \<in> set (ac_users a)"
      "us_id u = se_user s" "nv_parse_time e (se_expires s) = Some exp" "nv_auth_time e \<le> exp"
      "csrf \<longrightarrow> header_get (rq_headers r) CSRFHeader = se_csrf s"
      and x: "x \<in> set (ac_members a)" "mb_user x = us_id u" "\<forall>m' \<in> set (ac_members a). mb_user m' = us_id u \<longrightarrow> mb_org x \<le> mb_org m'"
      and act: "action = ''session'' \<or> Can (mb_role x) action"
      and p: "p = \<lparr>pl_UserID = us_id u, pl_Email = us_email u, pl_CSRF = se_csrf s, pl_OrgID = mb_org x, pl_Role = mb_role x\<rparr>"
    unfolding session_grant_def by (elim exE conjE) (rule that)
  from c c' have "c' = c" by simp
  note row = row' [unfolded this]
  have "fst (SessionOf (nv_parse_time e) (nv_sha e) (nv_auth_time e) c a) =
      Inr \<lparr>ss_UserID = se_user s, ss_Email = us_email u, ss_CSRF = se_csrf s, ss_Expires = exp\<rparr>"
    by (rule SessionOf_found [where sha = "nv_sha e" and pt = "nv_parse_time e", OF ok row(1-7)])
  moreover have "Resolve (se_user s) a = Inr \<lparr>mem_OrgID = mb_org x, mem_Role = mb_role x\<rparr>"
    using Resolve_found [OF ok x(1) _ x(3)] x(2) row(5) by simp
  ultimately show ?R using row act p by simp
qed


lemma token_grant_iff:
  assumes ok: "acct_ok d a" and "map_of (hq_cookies r) ''webfleet_session'' = None"
    and "has_prefix (to_lower (header_get (rq_headers r) ''Authorization'')) ''bearer ''"
  shows "token_grant e scopes r a p \<longleftrightarrow>
    (\<exists>i org sc. fst (Authenticate (nv_sha e) (nv_auth_time e) (trim_space (drop 7 (header_get (rq_headers r) ''Authorization''))) a) = Inr (i, org, sc) \<and>
       list_ex (HasScope sc) scopes \<and> p = \<lparr>pl_UserID = i, pl_Email = '''', pl_CSRF = '''', pl_OrgID = org, pl_Role = ''token''\<rparr>)"
    (is "?L \<longleftrightarrow> ?R")
proof
  let ?tok = "trim_space (drop 7 (header_get (rq_headers r) ''Authorization''))"
  {
    assume ?L
    then obtain t where t: "t \<in> set (ac_tokens a)" "tk_hash t = nv_sha e ?tok" "tk_revoked t = None" "set (scope_list (tk_scopes t)) \<inter> set scopes \<noteq> {}"
        "p = \<lparr>pl_UserID = tk_user t, pl_Email = '''', pl_CSRF = '''', pl_OrgID = tk_org t, pl_Role = ''token''\<rparr>"
      unfolding token_grant_def by (elim conjE bexE) (rule that)
    from t(4) have "list_ex (HasScope (scope_list (tk_scopes t))) scopes" by (auto simp: list_ex_iff HasScope_set)
    with t Authenticate_row [where hash = "nv_sha e" and tok = ?tok, OF ok t(1,2)] show ?R by simp
  }
  {
    assume ?R
    then obtain i org sc where *: "fst (Authenticate (nv_sha e) (nv_auth_time e) ?tok a) = Inr (i, org, sc)" "list_ex (HasScope sc) scopes"
        "p = \<lparr>pl_UserID = i, pl_Email = '''', pl_CSRF = '''', pl_OrgID = org, pl_Role = ''token''\<rparr>"
      by (elim exE conjE) (rule that)
    from *(1) obtain t where t: "first_row (\<lambda>t. tk_hash t = nv_sha e ?tok \<and> tk_revoked t = None) (ac_tokens a) = Some t"
        "i = tk_user t" "org = tk_org t" "sc = scope_list (tk_scopes t)"
      by (auto simp: Authenticate_def split: option.splits)
    from *(2) t(4) have "set (scope_list (tk_scopes t)) \<inter> set scopes \<noteq> {}" by (auto simp: list_ex_iff HasScope_set)
    with first_row_Some [OF t(1)] * t(2-) assms show ?L by (auto simp: token_grant_def)
  }
qed

lemma authorize_session:
  assumes ok: "acct_ok d (sr_acct st)" and c: "map_of (hq_cookies r) ''webfleet_session'' = Some c"
  shows "\<exists>st'. auth_frame st st' \<and>
    ((\<exists>p. session_grant e action csrf r (sr_acct st) p \<and> (\<forall>nxt. authorize e action csrf scopes nxt r st = nxt p st')) \<or>
     (\<exists>resp. (\<forall>p. \<not> session_grant e action csrf r (sr_acct st) p) \<and> rsp_status resp \<in> {401, 403, 429} \<and>
        (\<forall>nxt. authorize e action csrf scopes nxt r st = (resp, st'))))"
proof -
  let ?S = "SessionOf (nv_parse_time e) (nv_sha e) (nv_auth_time e) c (sr_acct st)"
  let ?st = "st\<lparr>sr_acct := snd ?S\<rparr>"
  have frame: "auth_frame st ?st" by (rule auth_frame_session)
  have same: "ac_members (snd ?S) = ac_members (sr_acct st)" by (auto simp: SessionOf_def delete_session_def split: option.split)
  then have res: "Resolve i (snd ?S) = Resolve i (sr_acct st)" for i by (simp add: Resolve_def)
  note grant = session_grant_iff [OF ok c]
  show ?thesis
  proof (cases "\<exists>p. session_grant e action csrf r (sr_acct st) p")
    case True
    then obtain p where p: "session_grant e action csrf r (sr_acct st) p" by (rule exE)
    from iffD1 [OF grant p] obtain sess m where *: "fst ?S = Inr sess"
        "\<not> (csrf \<and> header_get (rq_headers r) CSRFHeader \<noteq> ss_CSRF sess)" "Resolve (ss_UserID sess) (sr_acct st) = Inr m"
        "\<not> (action \<noteq> ''session'' \<and> \<not> Can (mem_Role m) action)"
        "p = \<lparr>pl_UserID = ss_UserID sess, pl_Email = ss_Email sess, pl_CSRF = ss_CSRF sess, pl_OrgID = mem_OrgID m, pl_Role = mem_Role m\<rparr>"
      by (elim exE conjE) (rule that)
    have "authorize e action csrf scopes nxt r st = nxt p ?st" for nxt
      using * c res by (auto simp: authorize_def split_beta Let_def)
    with frame p show ?thesis by blast
  next
    case False
    have "\<exists>resp. rsp_status resp \<in> {401, 403, 429} \<and> (\<forall>nxt. authorize e action csrf scopes nxt r st = (resp, ?st))"
    proof (cases "fst ?S")
      case (Inl err)
      then show ?thesis using c by (auto simp: authorize_def split_beta Let_def writeError_def)
    next
      case (Inr sess)
      show ?thesis
      proof (cases "csrf \<and> header_get (rq_headers r) CSRFHeader \<noteq> ss_CSRF sess")
        case True
        then show ?thesis using c Inr by (auto simp: authorize_def split_beta Let_def writeError_def)
      next
        case nocsrf: False
        show ?thesis
        proof (cases "Resolve (ss_UserID sess) (sr_acct st)")
          case (Inl err)
          then show ?thesis using c Inr nocsrf res by (auto simp: authorize_def split_beta Let_def writeError_def)
        next
          case m: (Inr m)
          have "action \<noteq> ''session'' \<and> \<not> Can (mem_Role m) action"
          proof (rule ccontr)
            assume can: "\<not> (action \<noteq> ''session'' \<and> \<not> Can (mem_Role m) action)"
            have "session_grant e action csrf r (sr_acct st)
                \<lparr>pl_UserID = ss_UserID sess, pl_Email = ss_Email sess, pl_CSRF = ss_CSRF sess, pl_OrgID = mem_OrgID m, pl_Role = mem_Role m\<rparr>"
              unfolding grant using Inr nocsrf m can by (intro exI [of _ sess] exI [of _ m]) simp
            with False show False by blast
          qed
          then show ?thesis using c Inr nocsrf res m by (auto simp: authorize_def split_beta Let_def writeError_def)
        qed
      qed
    qed
    with False frame show ?thesis by blast
  qed
qed


lemma authorize_token:
  assumes ok: "acct_ok d (sr_acct st)" and c: "map_of (hq_cookies r) ''webfleet_session'' = None"
  shows "\<exists>st'. auth_frame st st' \<and>
    ((\<exists>p. token_grant e scopes r (sr_acct st) p \<and> (\<forall>nxt. authorize e action csrf scopes nxt r st = nxt p st')) \<or>
     (\<exists>resp. (\<forall>p. \<not> token_grant e scopes r (sr_acct st) p) \<and> rsp_status resp \<in> {401, 403, 429} \<and>
        (\<forall>nxt. authorize e action csrf scopes nxt r st = (resp, st'))))"
proof (cases "scopes = [] \<or> \<not> has_prefix (to_lower (header_get (rq_headers r) ''Authorization'')) ''bearer ''")
  case True
  have "authorize e action csrf scopes nxt r st = (writeError 401 ''authentication required'', st)" for nxt
    using True c by (auto simp: authorize_def tokenPrincipal_def Let_def)
  moreover have "\<not> token_grant e scopes r (sr_acct st) p" for p using True by (auto simp: token_grant_def)
  moreover have "rsp_status (writeError 401 ''authentication required'') \<in> {401, 403, 429}" by (simp add: writeError_def)
  ultimately show ?thesis using auth_frame_refl [of st] by blast
next
  case False
  let ?A = "Authenticate (nv_sha e) (nv_auth_time e) (trim_space (drop 7 (header_get (rq_headers r) ''Authorization''))) (sr_acct st)"
  let ?st = "st\<lparr>sr_acct := snd ?A\<rparr>"
  have frame: "auth_frame st ?st" by (rule auth_frame_token)
  note grant = token_grant_iff [OF ok c conjunct2 [OF False [unfolded de_Morgan_disj not_not]]]
  show ?thesis
  proof (cases "fst ?A")
    case (Inl err)
    have none: "\<not> token_grant e scopes r (sr_acct st) p" for p by (simp add: grant Inl)
    let ?L = "Allow (''token:'' @ ClientIP (nv_proxy e) (meta r)) (nv_limit_time e) (sr_tokenLim st)"
    let ?resp = "if fst ?L then writeError 401 ''invalid API token'' else writeError 429 ''too many invalid token attempts''"
    have "authorize e action csrf scopes nxt r st = (?resp, ?st\<lparr>sr_tokenLim := snd ?L\<rparr>)" for nxt
      using False c Inl by (simp add: authorize_def tokenPrincipal_def split_beta Let_def)
    moreover have "rsp_status ?resp \<in> {401, 403, 429}" by (simp add: writeError_def)
    ultimately show ?thesis using auth_frame_limiter [OF frame, of "snd ?L"] none by blast
  next
    case (Inr ans)
    obtain i org sc where ans: "ans = (i, org, sc)" by (cases ans)
    let ?p = "\<lparr>pl_UserID = i, pl_Email = '''', pl_CSRF = '''', pl_OrgID = org, pl_Role = ''token''\<rparr>"
    show ?thesis
    proof (cases "list_ex (HasScope sc) scopes")
      case True
      have "authorize e action csrf scopes nxt r st = nxt ?p ?st" for nxt
        using False c Inr ans True by (simp add: authorize_def tokenPrincipal_def split_beta Let_def)
      moreover have "token_grant e scopes r (sr_acct st) ?p" by (simp add: grant Inr ans True)
      ultimately show ?thesis using frame by blast
    next
      case denied: False
      have "authorize e action csrf scopes nxt r st = (writeError 403 ''token scope denied'', ?st)" for nxt
        using False c Inr ans denied by (simp add: authorize_def tokenPrincipal_def split_beta Let_def)
      moreover have "\<not> token_grant e scopes r (sr_acct st) p" for p by (simp add: grant Inr ans denied)
      moreover have "rsp_status (writeError 403 ''token scope denied'') \<in> {401, 403, 429}" by (simp add: writeError_def)
      ultimately show ?thesis using frame by blast
    qed
  qed
qed

text \<open>C36. The middleware is a complete gate. A handler behind it runs exactly when the request carries a session that grants the action,
  with the CSRF token where the route asks for it, or, without a session cookie, an API token with one of the
  route's scopes; it then runs with the identity and the organization of that session or token. Every other
  request is answered with 401, 403 or 429 whatever the handler, and deciding changes no user, membership, role,
  setting or audit trail: at most an expired session is deleted, the last use of a token recorded and the limiter advanced.\<close>

theorem authorize_gate:
  assumes "acct_ok d (sr_acct st)"
  shows "\<exists>st'. auth_frame st st' \<and>
    ((\<exists>p. (session_grant e action csrf r (sr_acct st) p \<or> token_grant e scopes r (sr_acct st) p) \<and>
        (\<forall>nxt. authorize e action csrf scopes nxt r st = nxt p st')) \<or>
     (\<exists>resp. (\<forall>p. \<not> session_grant e action csrf r (sr_acct st) p \<and> \<not> token_grant e scopes r (sr_acct st) p) \<and>
        rsp_status resp \<in> {401, 403, 429} \<and> (\<forall>nxt. authorize e action csrf scopes nxt r st = (resp, st'))))"
proof (cases "map_of (hq_cookies r) ''webfleet_session''")
  case None
  then have "\<not> session_grant e action csrf r (sr_acct st) p" for p by (simp add: session_grant_def)
  then show ?thesis using authorize_token [OF assms None, of e scopes action csrf] by blast
next
  case (Some c)
  then have "\<not> token_grant e scopes r (sr_acct st) p" for p by (simp add: token_grant_def)
  then show ?thesis using authorize_session [OF assms Some, of e action csrf scopes] by blast
qed


definition viewer_writes :: "string list" where
  "viewer_writes = [''/api/logout'', ''/api/me/password'', ''/api/audits/resolve'']"

lemma viewer_table:
  "list_all (\<lambda>d. rd_action d \<noteq> ''session'' \<longrightarrow> Can ''viewer'' (rd_action d) \<longrightarrow> rd_method d = ''GET'' \<or> rd_path d \<in> set viewer_writes) apiRouteDefs"
  "list_all (\<lambda>d. rd_action d = ''session'' \<longrightarrow> rd_method d = ''GET'' \<or> rd_path d \<in> set viewer_writes) apiRouteDefs"
  by code_simp+

text \<open>C37. A viewer changes nothing through the API. For a request with the session of a user who is nowhere more than a viewer, every
  authenticated route of the table that is not a GET answers 401, 403 or 429 whatever its handler would do, save the three a
  viewer needs for the own account (logging out and changing the password) and for resolving an audit filter, which only reads.\<close>

theorem viewer_reads_only:
  assumes ok: "acct_ok d (sr_acct st)" and def: "def \<in> set apiRouteDefs" "rd_action def \<noteq> ''''" "rd_method def \<noteq> ''GET''" "rd_path def \<notin> set viewer_writes"
    and c: "map_of (hq_cookies r) ''webfleet_session'' = Some c"
    and viewer: "\<forall>s \<in> set (ac_sessions (sr_acct st)). se_hash s = nv_sha e c \<longrightarrow>
      (\<forall>m \<in> set (ac_members (sr_acct st)). mb_user m = se_user s \<longrightarrow> mb_role m = ''viewer'')"
  shows "\<exists>resp st'. rsp_status resp \<in> {401, 403, 429} \<and> auth_frame st st' \<and> (\<forall>build. register e build def r st = (resp, st'))"
proof -
  have "\<not> session_grant e (rd_action def) (rd_csrf def) r (sr_acct st) p" for p
  proof
    assume "session_grant e (rd_action def) (rd_csrf def) r (sr_acct st) p"
    then obtain s m where "s \<in> set (ac_sessions (sr_acct st))" "se_hash s = nv_sha e c" "m \<in> set (ac_members (sr_acct st))" "mb_user m = se_user s"
        and can: "rd_action def = ''session'' \<or> Can (mb_role m) (rd_action def)"
      using c by (auto simp: session_grant_def)
    with viewer have "mb_role m = ''viewer''" by blast
    with can def viewer_table show False by (auto simp: list_all_iff)
  qed
  then show ?thesis
    using authorize_session [OF ok c, of e "rd_action def" "rd_csrf def" "rd_tokenScopes def"] def(2) by (auto simp: register_def)
qed


definition sample_env :: auth_env where
  "sample_env = \<lparr>nv_sha = id, nv_parse_time = (\<lambda>s. Some 0), nv_proxy = \<lparr>Trusted = []\<rparr>, nv_auth_time = 0, nv_limit_time = 0\<rparr>"

definition sample_request :: http_request where
  "sample_request = \<lparr>rq_remote = ''192.0.2.1:80'', rq_tls = True, rq_headers = [(''X-Csrf-Token'', ''c1'')],
     hq_cookies = [(''webfleet_session'', ''r1'')], hq_id = '''', hq_query = [], hq_host = ''x'', hq_body = None\<rparr>"

definition sample_server :: "string \<Rightarrow> auth_state" where
  "sample_server role = \<lparr>sr_acct = sample_acct\<lparr>ac_members := [\<lparr>mb_org = 1, mb_user = 1, mb_role = role, mb_created = ''''\<rparr>]\<rparr>,
     sr_tokenLim = newRateLimiter (60 * second) 5 100\<rparr>"

lemma sample_server_ok: "role \<in> {''owner'', ''admin'', ''operator'', ''viewer''} \<Longrightarrow> acct_ok init_db (sr_acct (sample_server role))"
  by (auto simp: acct_ok_def sample_server_def sample_acct_def init_acct_def sample_user_def init_db_def)

lemma sample_csrf: "header_get (rq_headers sample_request) CSRFHeader = ''c1''"
  by code_simp

lemmas sample_rows = sample_env_def sample_request_def sample_server_def sample_acct_def init_acct_def sample_user_def

theorem authorize_gate_witness:
  "\<exists>p st'. pl_OrgID p = 1 \<and> pl_Role p = ''operator'' \<and>
     (\<forall>nxt. authorize sample_env ''site.create'' True [] nxt sample_request (sample_server ''operator'') = nxt p st')"
proof -
  let ?grant = "session_grant sample_env ''site.create'' True sample_request (sr_acct (sample_server ''operator''))"
  let ?p = "\<lparr>pl_UserID = 1, pl_Email = ''a@b.c'', pl_CSRF = ''c1'', pl_OrgID = 1, pl_Role = ''operator''\<rparr>"
  have can: "Can ''operator'' ''site.create''" by code_simp
  have "?grant ?p"
    unfolding session_grant_def sample_csrf
    by (intro exI [of _ "''r1''"] exI [of _ "hd (ac_sessions sample_acct)"] exI [of _ sample_user] exI [of _ 0]
          exI [of _ "hd (ac_members (sr_acct (sample_server ''operator'')))"]) (simp add: sample_rows can)
  moreover have "pl_OrgID p = 1 \<and> pl_Role p = ''operator''" if g: "?grant p" for p
  proof -
    from g obtain m where "m \<in> set (ac_members (sr_acct (sample_server ''operator'')))" "pl_OrgID p = mb_org m" "pl_Role p = mb_role m"
      unfolding session_grant_def by (elim exE conjE) (rule that, assumption, simp_all)
    then show ?thesis by (simp add: sample_server_def)
  qed
  moreover have "\<not> token_grant sample_env [] sample_request (sr_acct (sample_server ''operator'')) p" for p
    by (simp add: token_grant_def)
  moreover have ok: "acct_ok init_db (sr_acct (sample_server ''operator''))" by (rule sample_server_ok) simp
  moreover note authorize_gate [OF ok, of sample_env "''site.create''" True sample_request "[]"]
  ultimately show ?thesis by - (elim exE conjE disjE; blast)
qed

theorem viewer_reads_only_witness:
  "\<exists>resp st'. rsp_status resp \<in> {401, 403, 429} \<and> auth_frame (sample_server ''viewer'') st' \<and>
     (\<forall>build. register sample_env build (route ''POST'' ''/api/sites'' ''site.create'' True ''handleCreateSite'' [''sites:write''])
        sample_request (sample_server ''viewer'') = (resp, st'))"
proof (rule viewer_reads_only)
  show "acct_ok init_db (sr_acct (sample_server ''viewer''))" by (rule sample_server_ok) simp
  show "route ''POST'' ''/api/sites'' ''site.create'' True ''handleCreateSite'' [''sites:write''] \<in> set apiRouteDefs" by (simp add: apiRouteDefs_def)
  show "map_of (hq_cookies sample_request) ''webfleet_session'' = Some ''r1''" by (simp add: sample_request_def)
qed (simp_all add: route_def viewer_writes_def sample_server_def sample_acct_def init_acct_def)

end
