(* ===== verification/Analytics.thy ===== *)
theory Analytics
  imports Monitor Ratelimit Url "HOL-Library.Product_Lexorder"
begin

text \<open>
  The first-party analytics of \<^verbatim>\<open>internal/analytics/analytics.go\<close>: properties, event ingestion with its two
  limiters and the daily counters, and the reports. The tables are kept beside those of the fleet. The keyed digest
  \<open>mac\<close> (the first 12 bytes of HMAC-SHA256, in hexadecimal), \<^verbatim>\<open>json.Valid\<close>, random keys and the country lookup are
  arguments, and so are the three readings of the clock one ingestion makes.
\<close>

subsection \<open>Tables\<close>

record property_row =
  ap_id :: int
  ap_site :: int
  ap_key :: string
  ap_enabled :: bool
  ap_origin :: string
  ap_created :: string

record event_row =
  ev_id :: int
  ev_prop :: int
  ev_kind :: string
  ev_path :: string
  ev_referrer :: string
  ev_visitor :: string
  ev_class :: string
  ev_payload :: string
  ev_country :: string
  ev_at :: string

record daily_row =
  dy_prop :: int
  dy_day :: string
  dy_views :: int
  dy_visitors :: int

record goal_row =
  gl_id :: int
  gl_prop :: int
  gl_name :: string
  gl_kind :: string
  gl_path :: string
  gl_created :: string

record an_tables =
  an_props :: "property_row list"
  an_events :: "event_row list"
  an_daily :: "daily_row list"
  an_visitors :: "(int \<times> string \<times> string) list" \<comment> \<open>\<^verbatim>\<open>analytics_daily_visitors\<close>\<close>
  an_goals :: "goal_row list"
  an_salt :: "string option" \<comment> \<open>the row \<^verbatim>\<open>analytics_visitor_salt\<close> of \<^verbatim>\<open>app_settings\<close>\<close>

definition no_analytics :: an_tables where
  "no_analytics = \<lparr>an_props = [], an_events = [], an_daily = [], an_visitors = [], an_goals = [], an_salt = None\<rparr>"

subsection \<open>The limiter\<close>

record limiter =
  lm_window :: duration
  lm_limit :: int
  lm_maxKeys :: int
  lm_buckets :: bucket_table

definition newLimiter :: "duration \<Rightarrow> int \<Rightarrow> int \<Rightarrow> limiter" where
  "newLimiter w l m = \<lparr>lm_window = w, lm_limit = l, lm_maxKeys = m, lm_buckets = []\<rparr>"

definition limiter_Allow :: "string \<Rightarrow> instant \<Rightarrow> limiter \<Rightarrow> bool \<times> limiter" where
  "limiter_Allow key now l = (let (ok, bs) = allow_body (lm_window l) (lm_limit l) (lm_maxKeys l) key now (lm_buckets l)
     in (ok, l\<lparr>lm_buckets := bs\<rparr>))"

lemma limiter_Allow_proj:
  "fst (limiter_Allow k t l) = fst (allow_body (lm_window l) (lm_limit l) (lm_maxKeys l) k t (lm_buckets l))"
  "lm_buckets (snd (limiter_Allow k t l)) = snd (allow_body (lm_window l) (lm_limit l) (lm_maxKeys l) k t (lm_buckets l))"
  "lm_limit (snd (limiter_Allow k t l)) = lm_limit l" "lm_window (snd (limiter_Allow k t l)) = lm_window l"
  "lm_maxKeys (snd (limiter_Allow k t l)) = lm_maxKeys l"
  by (simp_all add: limiter_Allow_def case_prod_beta)

interpretation ingress_limiter: window_limiter limiter_Allow "\<lambda>l. table_bucket (lm_buckets l)" "\<lambda>l. int (length (lm_buckets l))"
  lm_limit lm_window lm_maxKeys "\<lambda>l. table_ok (lm_limit l) (lm_maxKeys l) (lm_buckets l)"
  by (unfold_locales; (unfold limiter_Allow_proj)?) (rule refl | rule allow_body_laws; assumption)+

subsection \<open>The service\<close>

record analytics_service =
  as_salt :: string
  as_allowNoOrigin :: bool
  as_valid :: limiter
  as_bad :: limiter
  as_gdb :: "(string \<Rightarrow> string) option"

definition NewWithOptions :: "string \<Rightarrow> bool \<Rightarrow> an_tables \<Rightarrow> analytics_service \<times> an_tables" where
  "NewWithOptions key noOrigin t =
     (let salt = (case an_salt t of None \<Rightarrow> '''' | Some s \<Rightarrow> s);
          (salt, t) = (if salt = '''' then (key, t\<lparr>an_salt := Some key\<rparr>) else (salt, t))
      in (\<lparr>as_salt = salt, as_allowNoOrigin = noOrigin, as_valid = newLimiter minute 300 20000,
           as_bad = newLimiter minute 60 20000, as_gdb = None\<rparr>, t))"

definition SetGeo :: "(string \<Rightarrow> string) option \<Rightarrow> analytics_service \<Rightarrow> analytics_service" where
  "SetGeo g s = s\<lparr>as_gdb := g\<rparr>"

record Property =
  pr_ID :: int
  pr_SiteID :: int
  pr_PublicKey :: string
  pr_Enabled :: bool
  pr_AllowedOrigin :: string
  pr_CreatedAt :: string

text \<open>The insertion of \<^verbatim>\<open>Enable\<close> conflicts on the site (the row is updated) or, when the random key is taken by another
  property, fails.\<close>

definition Enable :: "net_url \<Rightarrow> string \<Rightarrow> instant \<Rightarrow> int \<Rightarrow> db \<Rightarrow> an_tables \<Rightarrow> (check_error, Property) result \<times> an_tables" where
  "Enable nu key now sid d t =
     (case first_row (\<lambda>s. site_id s = sid) (db_sites d) of
        None \<Rightarrow> (Inl (Failed ''site not found''), t)
      | Some s \<Rightarrow>
          (case nu_parse nu (site_url s) of
             None \<Rightarrow> (Inl (Failed ''parse''), t)
           | Some u \<Rightarrow>
               let origin = gu_scheme u @ ''://'' @ gu_host u
               in if \<exists>p \<in> set (an_props t). ap_key p = key \<and> ap_site p \<noteq> sid then (Inl (Sql UniqueViolation), t)
                  else case first_row (\<lambda>p. ap_site p = sid) (an_props t) of
                    Some p \<Rightarrow>
                      (Inr \<lparr>pr_ID = ap_id p, pr_SiteID = sid, pr_PublicKey = ap_key p, pr_Enabled = True, pr_AllowedOrigin = origin,
                            pr_CreatedAt = ap_created p\<rparr>,
                       t\<lparr>an_props := upd_where (\<lambda>p. ap_site p = sid) (\<lambda>p. p\<lparr>ap_enabled := True, ap_origin := origin\<rparr>) (an_props t)\<rparr>)
                  | None \<Rightarrow>
                      let i = fresh_id (map ap_id (an_props t))
                      in (Inr \<lparr>pr_ID = i, pr_SiteID = sid, pr_PublicKey = key, pr_Enabled = True, pr_AllowedOrigin = origin,
                               pr_CreatedAt = format_nano now\<rparr>,
                          t\<lparr>an_props := an_props t @ [\<lparr>ap_id = i, ap_site = sid, ap_key = key, ap_enabled = True, ap_origin = origin,
                             ap_created = format_nano now\<rparr>]\<rparr>)))"

definition PropertyOf :: "int \<Rightarrow> an_tables \<Rightarrow> Property option" where
  "PropertyOf sid t = map_option (\<lambda>p. \<lparr>pr_ID = ap_id p, pr_SiteID = ap_site p, pr_PublicKey = ap_key p, pr_Enabled = ap_enabled p,
     pr_AllowedOrigin = ap_origin p, pr_CreatedAt = ap_created p\<rparr>) (first_row (\<lambda>p. ap_site p = sid) (an_props t))"

definition Disable :: "int \<Rightarrow> an_tables \<Rightarrow> (check_error, unit) result \<times> an_tables" where
  "Disable sid t =
     (case PropertyOf sid t of
        None \<Rightarrow> (Inl (Failed ''analytics not enabled for this site''), t)
      | Some p \<Rightarrow> (Inr (), t\<lparr>an_props := upd_where (\<lambda>q. ap_id q = pr_ID p) (\<lambda>q. q\<lparr>ap_enabled := False\<rparr>) (an_props t)\<rparr>))"

definition TrackerSnippet :: "string \<Rightarrow> string \<Rightarrow> string" where
  "TrackerSnippet origin key = ''<script defer src=\"'' @ trim_right_char (CHR ''/'') origin @ ''/wf.js\" data-webfleet=\"'' @ key @ ''\"></script>''"

subsection \<open>Ingestion\<close>

record Event =
  e_Key :: string
  e_Kind :: string
  e_Path :: string
  e_Referrer :: string
  e_Payload :: string

definition hasControlChars :: "string \<Rightarrow> bool" where
  "hasControlChars s = list_ex (\<lambda>c. (of_char c :: nat) < 0x20 \<or> (of_char c :: nat) = 0x7f) s"

definition weeklyEpoch :: instant where "weeklyEpoch = 1704067200 * second" \<comment> \<open>2024-01-01\<close>

text \<open>\<^verbatim>\<open>Sprintf("W%07d", \<dots>)\<close> counts the sign as one of the seven places.\<close>

definition weeklyBucket :: "instant \<Rightarrow> string" where
  "weeklyBucket t = (let n = go_div (t - weeklyEpoch) (7 * 24 * hour) in ''W'' @ append_int n (if n < 0 then 6 else 7))"

definition day_text :: "instant \<Rightarrow> string" where
  "day_text t = (let (y, m, d) = date_of (day_of (secs t)) in append_int y 4 @ ''-'' @ append_int m 2 @ ''-'' @ append_int d 2)"

text \<open>\<^verbatim>\<open>netip.ParseAddrPort(s).Addr()\<close>\<close>

definition ParseAddrPort :: "string \<Rightarrow> addr option" where
  "ParseAddrPort s =
     (case last_colon s of
        None \<Rightarrow> None
      | Some (ip, rest) \<Rightarrow>
          let port = tl rest; bracketed = has_prefix ip ''['';
              inner = (if bracketed then butlast (tl ip) else ip)
          in if ip = '''' \<or> port = '''' \<or> (bracketed \<and> (length ip < 2 \<or> last ip \<noteq> CHR '']'')) \<or>
                \<not> list_all is_digit port \<or> 65535 < dec_value port then None
             else case ParseAddr inner of
               None \<Rightarrow> None
             | Some a \<Rightarrow> (case a of V4 _ \<Rightarrow> if bracketed then None else Some a | V6 _ _ \<Rightarrow> if bracketed then Some a else None))"

definition normalizedIP :: "string \<Rightarrow> string" where
  "normalizedIP ip =
     (case ParseAddr ip of
        Some a \<Rightarrow> addr_string a
      | None \<Rightarrow> (case ParseAddrPort ip of Some a \<Rightarrow> addr_string a | None \<Rightarrow> trim_space ip))"

definition RemoteIP :: "string \<Rightarrow> string" where
  "RemoteIP remote = (case SplitHostPort remote of
     Some (h, _) \<Rightarrow> h
   | None \<Rightarrow> rev (dropWhile (\<lambda>c. c \<in> set ''[]'') (rev (dropWhile (\<lambda>c. c \<in> set ''[]'') remote))))"

definition clientClass :: "string \<Rightarrow> string" where
  "clientClass ua =
     (let l = to_lower ua
      in if str_contains l ''bot'' \<or> str_contains l ''crawler'' \<or> str_contains l ''spider'' then ''bot''
         else if str_contains l ''mobile'' then ''mobile'' else ''desktop'')"

text \<open>What one ingestion takes from outside: the keyed digest, the JSON check and the three readings of the clock.\<close>

record ingest_world =
  iw_mac :: "string \<Rightarrow> string \<Rightarrow> string"
  iw_json :: "string \<Rightarrow> bool"
  iw_limited :: instant
  iw_now :: instant
  iw_stored :: instant

definition bump_views :: "int \<Rightarrow> string \<Rightarrow> daily_row list \<Rightarrow> daily_row list" where
  "bump_views pid day ds =
     (if \<exists>r \<in> set ds. dy_prop r = pid \<and> dy_day r = day
      then upd_where (\<lambda>r. dy_prop r = pid \<and> dy_day r = day) (\<lambda>r. r\<lparr>dy_views := dy_views r + 1\<rparr>) ds
      else ds @ [\<lparr>dy_prop = pid, dy_day = day, dy_views = 1, dy_visitors = 0\<rparr>])"

definition count_pageview :: "int \<Rightarrow> string \<Rightarrow> string \<Rightarrow> an_tables \<Rightarrow> an_tables" where
  "count_pageview pid day visitor t =
     (let t = t\<lparr>an_daily := bump_views pid day (an_daily t)\<rparr>
      in if (pid, day, visitor) \<in> set (an_visitors t) then t
         else t\<lparr>an_visitors := an_visitors t @ [(pid, day, visitor)],
                an_daily := upd_where (\<lambda>r. dy_prop r = pid \<and> dy_day r = day) (\<lambda>r. r\<lparr>dy_visitors := dy_visitors r + 1\<rparr>) (an_daily t)\<rparr>)"

definition store_event :: "ingest_world \<Rightarrow> int \<Rightarrow> Event \<Rightarrow> string \<Rightarrow> string \<Rightarrow> string \<Rightarrow> an_tables \<Rightarrow> an_tables" where
  "store_event w pid ev visitor class country t =
     (let i = fresh_id (map ev_id (an_events t));
          t = t\<lparr>an_events := an_events t @ [\<lparr>ev_id = i, ev_prop = pid, ev_kind = e_Kind ev, ev_path = e_Path ev,
                ev_referrer = e_Referrer ev, ev_visitor = visitor, ev_class = class, ev_payload = e_Payload ev, ev_country = country,
                ev_at = format_nano (iw_stored w)\<rparr>]\<rparr>
      in if e_Kind ev = ''pageview'' then count_pageview pid (day_text (iw_now w)) visitor t else t)"

definition visitor_of :: "ingest_world \<Rightarrow> analytics_service \<Rightarrow> string \<Rightarrow> string" where
  "visitor_of w s ip = iw_mac w (as_salt s) (weeklyBucket (iw_now w) @ ''|'' @ normalizedIP ip)"

definition country_of :: "analytics_service \<Rightarrow> string \<Rightarrow> string" where
  "country_of s ip = (case as_gdb s of None \<Rightarrow> '''' | Some f \<Rightarrow> f ip)"

definition defaulted :: "Event \<Rightarrow> Event" where
  "defaulted ev = ev\<lparr>e_Kind := (if e_Kind ev = '''' then ''pageview'' else e_Kind ev), e_Path := (if e_Path ev = '''' then ''/'' else e_Path ev)\<rparr>"

text \<open>The checks of \<^verbatim>\<open>Ingest\<close> between the lookup of the property and the limiter, in their order.\<close>

definition refused_event :: "ingest_world \<Rightarrow> analytics_service \<Rightarrow> property_row \<Rightarrow> string \<Rightarrow> Event \<Rightarrow> string option" where
  "refused_event w s p origin ev =
     (if \<not> ap_enabled p then Some ''analytics disabled''
      else if origin = '''' \<and> \<not> as_allowNoOrigin s then Some ''analytics origin required''
      else if origin \<noteq> '''' \<and> origin \<noteq> ap_origin p then Some ''origin not allowed''
      else if 64 < length (e_Kind (defaulted ev)) \<or> hasControlChars (e_Kind (defaulted ev)) then Some ''invalid analytics event kind''
      else if 2048 < length (e_Path (defaulted ev)) \<or> 2048 < length (e_Referrer ev) \<or> 8192 < length (e_Payload ev)
        then Some ''analytics event too large''
      else if e_Payload ev \<noteq> '''' \<and> \<not> iw_json w (e_Payload ev) then Some ''analytics payload must be valid JSON''
      else None)"

definition Ingest :: "ingest_world \<Rightarrow> Event \<Rightarrow> string \<Rightarrow> string \<Rightarrow> string \<Rightarrow> analytics_service \<Rightarrow> an_tables
    \<Rightarrow> (string, unit) result \<times> analytics_service \<times> an_tables" where
  "Ingest w ev origin ip ua s t =
     (case first_row (\<lambda>p. ap_key p = e_Key ev) (an_props t) of
        None \<Rightarrow>
          let (ok, l) = limiter_Allow (''ip:'' @ ip) (iw_limited w) (as_bad s)
          in (Inl (if ok then ''unknown analytics property'' else ''analytics rate limited''), s\<lparr>as_bad := l\<rparr>, t)
      | Some p \<Rightarrow>
          (case refused_event w s p origin ev of
             Some e \<Rightarrow> (Inl e, s, t)
           | None \<Rightarrow>
               let (ok, l) = limiter_Allow (''ip:'' @ ip @ '':pid:'' @ append_int (ap_id p) 0) (iw_limited w) (as_valid s);
                   s' = s\<lparr>as_valid := l\<rparr>; class = clientClass ua
               in if \<not> ok then (Inl ''analytics rate limited'', s', t)
                  else if class = ''bot'' then (Inr (), s', t)
                  else (Inr (), s', store_event w (ap_id p) (defaulted ev) (visitor_of w s ip) class (country_of s ip) t)))"

subsection \<open>Reports\<close>

definition pageviews_since :: "int \<Rightarrow> string \<Rightarrow> an_tables \<Rightarrow> event_row list" where
  "pageviews_since pid since t = filter (\<lambda>e. ev_prop e = pid \<and> ev_kind e = ''pageview'' \<and> since \<le> ev_at e) (an_events t)"

text \<open>\<^verbatim>\<open>s.nowFn().AddDate(0, 0, -days+1)\<close> as a day.\<close>

definition since_text :: "instant \<Rightarrow> int \<Rightarrow> string" where
  "since_text now days = day_text (now - (days - 1) * (24 * hour))"

definition count_distinct :: "'a list \<Rightarrow> int" where
  "count_distinct xs = int (length (remdups xs))"

definition group_count :: "('r \<Rightarrow> 'k) \<Rightarrow> 'r list \<Rightarrow> ('k \<times> int) list" where
  "group_count f rs = map (\<lambda>k. (k, int (length (filter (\<lambda>r. f r = k) rs)))) (remdups (map f rs))"

record Summary =
  sm_Pageviews :: int
  sm_Visitors :: int
  sm_Daily :: "(string \<times> int \<times> int) list"
  sm_TopPages :: "(string \<times> int) list"
  sm_TopSources :: "(string \<times> int) list"

definition empty_summary :: Summary where
  "empty_summary = \<lparr>sm_Pageviews = 0, sm_Visitors = 0, sm_Daily = [], sm_TopPages = [], sm_TopSources = []\<rparr>"

text \<open>\<^verbatim>\<open>GROUP BY \<dots> ORDER BY n DESC LIMIT 10\<close>: groups of the same size come in the order \<open>eng\<close> in which the engine forms them.\<close>

definition top_ten :: "((string \<times> int) list \<Rightarrow> (string \<times> int) list) \<Rightarrow> (string \<times> int) list \<Rightarrow> (string \<times> int) list" where
  "top_ten eng gs = take 10 (sort_key (\<lambda>(_, n). - n) (eng gs))"

definition SummaryOf :: "((string \<times> int) list \<Rightarrow> (string \<times> int) list) \<Rightarrow> instant \<Rightarrow> int \<Rightarrow> int \<Rightarrow> an_tables \<Rightarrow> Summary" where
  "SummaryOf eng now sid days t =
     (let days = (if days < 1 then 7 else days); days = (if 365 < days then 365 else days)
      in case PropertyOf sid t of
        None \<Rightarrow> empty_summary
      | Some p \<Rightarrow>
          let since = since_text now days; evs = pageviews_since (pr_ID p) since t
          in \<lparr>sm_Pageviews = int (length evs), sm_Visitors = count_distinct (map ev_visitor evs),
              sm_Daily = map (\<lambda>r. (dy_day r, dy_views r, dy_visitors r))
                (sort_key dy_day (filter (\<lambda>r. dy_prop r = pr_ID p \<and> since \<le> dy_day r) (an_daily t))),
              sm_TopPages = top_ten eng (group_count ev_path evs),
              sm_TopSources = top_ten eng (group_count ev_referrer (filter (\<lambda>e. ev_referrer e \<noteq> '''') evs))\<rparr>)"

record FleetSummary =
  fs_Pageviews :: int
  fs_Visitors :: int
  fs_Sites :: int

definition org_props :: "int \<Rightarrow> db \<Rightarrow> an_tables \<Rightarrow> property_row list" where
  "org_props org d t = filter (\<lambda>p. \<exists>s \<in> set (db_sites d). site_id s = ap_site p \<and> site_org s = org) (an_props t)"

definition FleetTotals :: "instant \<Rightarrow> int \<Rightarrow> int \<Rightarrow> db \<Rightarrow> an_tables \<Rightarrow> FleetSummary" where
  "FleetTotals now org days d t =
     (let days = (if days < 1 then 1 else days); since = since_text now days;
          evs = filter (\<lambda>e. ev_kind e = ''pageview'' \<and> since \<le> ev_at e \<and> ev_prop e \<in> ap_id ` set (org_props org d t)) (an_events t)
      in \<lparr>fs_Pageviews = int (length evs), fs_Visitors = count_distinct (map ev_visitor evs),
          fs_Sites = int (length (filter ap_enabled (org_props org d t)))\<rparr>)"

record Goal =
  g_ID :: int
  g_Name :: string
  g_EventKind :: string
  g_PathMatch :: string
  g_CreatedAt :: string

definition CreateGoal :: "instant \<Rightarrow> int \<Rightarrow> string \<Rightarrow> string \<Rightarrow> string \<Rightarrow> an_tables \<Rightarrow> (check_error, Goal) result \<times> an_tables" where
  "CreateGoal now sid nm kind path t =
     (let nm = trim_space nm; kind = trim_space kind
      in if nm = '''' \<or> kind = '''' then (Inl (Failed ''goal name and event kind are required''), t)
         else case PropertyOf sid t of
           None \<Rightarrow> (Inl (Failed ''analytics is not enabled''), t)
         | Some p \<Rightarrow>
             if \<exists>g \<in> set (an_goals t). gl_prop g = pr_ID p \<and> gl_name g = nm then (Inl (Sql UniqueViolation), t)
             else let i = fresh_id (map gl_id (an_goals t))
                  in (Inr \<lparr>g_ID = i, g_Name = nm, g_EventKind = kind, g_PathMatch = path, g_CreatedAt = format_nano now\<rparr>,
                      t\<lparr>an_goals := an_goals t @ [\<lparr>gl_id = i, gl_prop = pr_ID p, gl_name = nm, gl_kind = kind, gl_path = path,
                         gl_created = format_nano now\<rparr>]\<rparr>))"

definition Goals :: "int \<Rightarrow> an_tables \<Rightarrow> (goal_row \<times> int) list" where
  "Goals sid t =
     (case PropertyOf sid t of
        None \<Rightarrow> []
      | Some p \<Rightarrow>
          map (\<lambda>g. (g, int (length (filter (\<lambda>e. ev_prop e = gl_prop g \<and> ev_kind e = gl_kind g \<and>
                (gl_path g = '''' \<or> ev_path e = gl_path g)) (an_events t)))))
            (sort_key gl_id (filter (\<lambda>g. gl_prop g = pr_ID p) (an_goals t))))"

record report_page =
  rp_Page :: int
  rp_PageSize :: int
  rp_Total :: int
  rp_Pages :: int
  rp_Rows :: "(string \<times> int) list"

definition empty_page :: report_page where
  "empty_page = \<lparr>rp_Page = 0, rp_PageSize = 0, rp_Total = 0, rp_Pages = 0, rp_Rows = []\<rparr>"

text \<open>\<^verbatim>\<open>ORDER BY n DESC,<key> LIMIT size OFFSET (page-1)*size\<close>; the offset is a 64-bit product and a negative one is none.\<close>

definition page_rows :: "int \<Rightarrow> int \<Rightarrow> (string \<times> int) list \<Rightarrow> (string \<times> int) list" where
  "page_rows page sz gs = take (nat sz) (drop (nat (wrap64 ((page - 1) * sz))) (sort_key (\<lambda>(k, n). (- n, k)) gs))"

definition paged_report :: "int \<Rightarrow> int \<Rightarrow> int \<Rightarrow> (string \<times> int) list \<Rightarrow> report_page" where
  "paged_report page sz tot gs = \<lparr>rp_Page = page, rp_PageSize = sz, rp_Total = tot,
     rp_Pages = go_div (tot + sz - 1) sz, rp_Rows = page_rows page sz gs\<rparr>"

definition page_args :: "int \<Rightarrow> int \<Rightarrow> int \<Rightarrow> int \<times> int \<times> int" where
  "page_args days page sz = (if days < 1 then 7 else days, if page < 1 then 1 else page, if sz < 1 \<or> 50 < sz then 10 else sz)"

definition Pages :: "instant \<Rightarrow> int \<Rightarrow> int \<Rightarrow> int \<Rightarrow> int \<Rightarrow> an_tables \<Rightarrow> report_page" where
  "Pages now sid days page sz t =
     (let (days, page, sz) = page_args days page sz
      in case PropertyOf sid t of
        None \<Rightarrow> empty_page
      | Some p \<Rightarrow>
          let evs = pageviews_since (pr_ID p) (since_text now days) t
          in paged_report page sz (count_distinct (map ev_path evs)) (group_count ev_path (filter (\<lambda>e. ev_path e \<noteq> '''') evs)))"

text \<open>Visitors per country; \<^verbatim>\<open>Updated\<close> and \<^verbatim>\<open>Ranges\<close> are left empty here and filled by the handler.\<close>

definition Countries :: "instant \<Rightarrow> int \<Rightarrow> int \<Rightarrow> int \<Rightarrow> int \<Rightarrow> analytics_service \<Rightarrow> an_tables \<Rightarrow> bool \<times> report_page" where
  "Countries now sid days page sz s t =
     (let (days, page, sz) = page_args days page sz
      in case PropertyOf sid t of
        None \<Rightarrow> (False, empty_page)
      | Some p \<Rightarrow>
          let evs = filter (\<lambda>e. ev_country e \<noteq> '''') (pageviews_since (pr_ID p) (since_text now days) t);
              gs = map (\<lambda>c. (c, count_distinct (map ev_visitor (filter (\<lambda>e. ev_country e = c) evs)))) (remdups (map ev_country evs))
          in (as_gdb s \<noteq> None, paged_report page sz (count_distinct (map ev_country evs)) gs))"

subsection \<open>The daily counters\<close>

definition day_visitors :: "int \<Rightarrow> string \<Rightarrow> (int \<times> string \<times> string) list \<Rightarrow> int" where
  "day_visitors pid day vs = int (length (filter (\<lambda>(p, d, _). p = pid \<and> d = day) vs))"

definition total_views :: "int \<Rightarrow> daily_row list \<Rightarrow> int" where
  "total_views pid ds = sum_list (map dy_views (filter (\<lambda>r. dy_prop r = pid) ds))"

definition pageviews_of :: "int \<Rightarrow> event_row list \<Rightarrow> int" where
  "pageviews_of pid es = int (length (filter (\<lambda>e. ev_prop e = pid \<and> ev_kind e = ''pageview'') es))"

definition daily_ok :: "(int \<times> string \<times> string) list \<Rightarrow> daily_row list \<Rightarrow> bool" where
  "daily_ok vs ds \<longleftrightarrow> distinct (map (\<lambda>r. (dy_prop r, dy_day r)) ds) \<and>
     (\<forall>r \<in> set ds. dy_visitors r = day_visitors (dy_prop r) (dy_day r) vs \<and> dy_visitors r \<le> dy_views r) \<and>
     (\<forall>(p, d, v) \<in> set vs. (p, d) \<in> set (map (\<lambda>r. (dy_prop r, dy_day r)) ds))"

definition an_ok :: "an_tables \<Rightarrow> bool" where
  "an_ok t \<longleftrightarrow> distinct (map ap_id (an_props t)) \<and> distinct (map ap_site (an_props t)) \<and> distinct (map ap_key (an_props t)) \<and>
     distinct (an_visitors t) \<and> daily_ok (an_visitors t) (an_daily t) \<and>
     (\<forall>pid. pageviews_of pid (an_events t) \<le> total_views pid (an_daily t))"

lemma day_visitors_append [simp]:
  "day_visitors p d (vs @ [(q, e, v)]) = day_visitors p d vs + (if q = p \<and> e = d then 1 else 0)"
  by (simp add: day_visitors_def)

lemma day_visitors_none: "(\<And>p d v. (p, d, v) \<in> set vs \<Longrightarrow> \<not> (p = pid \<and> d = day)) \<Longrightarrow> day_visitors pid day vs = 0"
  by (auto simp: day_visitors_def filter_empty_conv)

lemma total_views_visitors:
  "total_views pid (upd_where P (\<lambda>r. r\<lparr>dy_visitors := f r\<rparr>) ds) = total_views pid ds"
  by (induction ds) (auto simp: total_views_def upd_where_def)

lemma total_views_bump_row:
  "distinct (map (\<lambda>r. (dy_prop r, dy_day r)) ds) \<Longrightarrow> \<exists>r \<in> set ds. dy_prop r = pid \<and> dy_day r = day \<Longrightarrow>
   total_views q (upd_where (\<lambda>r. dy_prop r = pid \<and> dy_day r = day) (\<lambda>r. r\<lparr>dy_views := dy_views r + 1\<rparr>) ds) =
     total_views q ds + (if q = pid then 1 else 0)"
proof (induction ds)
  case (Cons a ds)
  show ?case
  proof (cases "dy_prop a = pid \<and> dy_day a = day")
    case True
    with Cons.prems(1) have "(pid, day) \<notin> (\<lambda>r. (dy_prop r, dy_day r)) ` set ds" by simp
    then have "\<not> (dy_prop r = pid \<and> dy_day r = day)" if "r \<in> set ds" for r using that by blast
    then have "upd_where (\<lambda>r. dy_prop r = pid \<and> dy_day r = day) (\<lambda>r. r\<lparr>dy_views := dy_views r + 1\<rparr>) ds = ds"
      by (intro upd_where_none) blast
    with True show ?thesis by (auto simp: total_views_def upd_where_def)
  next
    case False
    with Cons show ?thesis by (auto simp: total_views_def upd_where_def)
  qed
qed simp

lemma total_views_bump:
  "distinct (map (\<lambda>r. (dy_prop r, dy_day r)) ds) \<Longrightarrow>
   total_views q (bump_views pid day ds) = total_views q ds + (if q = pid then 1 else 0)"
proof (cases "\<exists>r \<in> set ds. dy_prop r = pid \<and> dy_day r = day")
  case False
  then have "bump_views pid day ds = ds @ [\<lparr>dy_prop = pid, dy_day = day, dy_views = 1, dy_visitors = 0\<rparr>]"
    unfolding bump_views_def by (rule if_not_P)
  then show ?thesis by (simp add: total_views_def)
qed (simp add: bump_views_def total_views_bump_row)

lemma bump_views_ok:
  assumes "daily_ok vs ds"
  shows "daily_ok vs (bump_views pid day ds) \<and> (\<exists>r \<in> set (bump_views pid day ds). dy_prop r = pid \<and> dy_day r = day) \<and>
    (\<forall>r \<in> set (bump_views pid day ds). dy_prop r = pid \<and> dy_day r = day \<longrightarrow> dy_visitors r < dy_views r)"
proof (cases "\<exists>r \<in> set ds. dy_prop r = pid \<and> dy_day r = day")
  case True
  define b where "b = upd_where (\<lambda>r. dy_prop r = pid \<and> dy_day r = day) (\<lambda>r. r\<lparr>dy_views := dy_views r + 1\<rparr>) ds"
  have eq: "bump_views pid day ds = b" using True by (simp add: bump_views_def b_def)
  have keys: "map (\<lambda>r. (dy_prop r, dy_day r)) b = map (\<lambda>r. (dy_prop r, dy_day r)) ds"
    unfolding b_def by (rule map_upd_where_same) simp
  have "dy_visitors r = day_visitors (dy_prop r) (dy_day r) vs \<and> dy_visitors r \<le> dy_views r \<and>
      (dy_prop r = pid \<and> dy_day r = day \<longrightarrow> dy_visitors r < dy_views r)" if "r \<in> set b" for r
    using that assms by (force simp: b_def set_upd_where daily_ok_def)
  then have rows: "\<forall>r \<in> set b. dy_visitors r = day_visitors (dy_prop r) (dy_day r) vs \<and> dy_visitors r \<le> dy_views r"
    and less: "\<forall>r \<in> set b. dy_prop r = pid \<and> dy_day r = day \<longrightarrow> dy_visitors r < dy_views r"
    by blast+
  from True have "(pid, day) \<in> set (map (\<lambda>r. (dy_prop r, dy_day r)) b)" unfolding keys by force
  then have "\<exists>r \<in> set b. dy_prop r = pid \<and> dy_day r = day" by auto
  with rows less assms show ?thesis unfolding eq daily_ok_def keys by blast
next
  case False
  with assms have "day_visitors pid day vs = 0" by (intro day_visitors_none) (auto simp: daily_ok_def)
  with False assms show ?thesis by (auto simp: bump_views_def daily_ok_def)
qed

lemma count_pageview_ok:
  assumes "distinct (an_visitors t)" "daily_ok (an_visitors t) (an_daily t)"
  shows "distinct (an_visitors (count_pageview pid day v t)) \<and>
    daily_ok (an_visitors (count_pageview pid day v t)) (an_daily (count_pageview pid day v t))"
proof (cases "(pid, day, v) \<in> set (an_visitors t)")
  case True
  with assms bump_views_ok show ?thesis by (simp add: count_pageview_def Let_def)
next
  case False
  define b where "b = bump_views pid day (an_daily t)"
  define c where "c = upd_where (\<lambda>r. dy_prop r = pid \<and> dy_day r = day) (\<lambda>r. r\<lparr>dy_visitors := dy_visitors r + 1\<rparr>) b"
  note b = bump_views_ok [OF assms(2), of pid day, folded b_def]
  have keys: "map (\<lambda>r. (dy_prop r, dy_day r)) c = map (\<lambda>r. (dy_prop r, dy_day r)) b"
    unfolding c_def by (rule map_upd_where_same) simp
  have rows: "dy_visitors r = day_visitors (dy_prop r) (dy_day r) (an_visitors t @ [(pid, day, v)]) \<and> dy_visitors r \<le> dy_views r"
    if "r \<in> set c" for r
  proof -
    from that obtain q where q: "q \<in> set b" "r = (if dy_prop q = pid \<and> dy_day q = day then q\<lparr>dy_visitors := dy_visitors q + 1\<rparr> else q)"
      by (auto simp: c_def upd_where_def)
    with b have "dy_visitors q = day_visitors (dy_prop q) (dy_day q) (an_visitors t)" "dy_visitors q \<le> dy_views q"
      "dy_prop q = pid \<and> dy_day q = day \<Longrightarrow> dy_visitors q < dy_views q" by (auto simp: daily_ok_def)
    with q(2) show ?thesis by auto
  qed
  from b have "(pid, day) \<in> set (map (\<lambda>r. (dy_prop r, dy_day r)) b)" by force
  with b have "distinct (map (\<lambda>r. (dy_prop r, dy_day r)) c)"
    "\<forall>(p, d, v) \<in> set (an_visitors t @ [(pid, day, v)]). (p, d) \<in> set (map (\<lambda>r. (dy_prop r, dy_day r)) c)"
    unfolding keys daily_ok_def by simp_all
  with rows have "daily_ok (an_visitors t @ [(pid, day, v)]) c" unfolding daily_ok_def by blast
  then have "daily_ok (an_visitors t @ [(pid, day, v)])
      (upd_where (\<lambda>r. dy_prop r = pid \<and> dy_day r = day) (\<lambda>r. r\<lparr>dy_visitors := dy_visitors r + 1\<rparr>) (bump_views pid day (an_daily t)))"
    unfolding c_def b_def .
  with False assms(1) show ?thesis by (simp add: count_pageview_def Let_def)
qed

lemma count_pageview_other [simp]:
  "an_props (count_pageview pid day v t) = an_props t" "an_events (count_pageview pid day v t) = an_events t"
  "an_goals (count_pageview pid day v t) = an_goals t" "an_salt (count_pageview pid day v t) = an_salt t"
  by (simp_all add: count_pageview_def Let_def)

lemma count_pageview_views:
  "daily_ok vs (an_daily t) \<Longrightarrow> total_views q (an_daily (count_pageview pid day v t)) = total_views q (an_daily t) + (if q = pid then 1 else 0)"
  by (simp add: count_pageview_def Let_def total_views_bump total_views_visitors daily_ok_def)

lemma store_event_ok: "an_ok t \<Longrightarrow> an_ok (store_event w pid ev v c co t)"
proof -
  assume ok: "an_ok t"
  let ?r = "\<lparr>ev_id = fresh_id (map ev_id (an_events t)), ev_prop = pid, ev_kind = e_Kind ev, ev_path = e_Path ev,
    ev_referrer = e_Referrer ev, ev_visitor = v, ev_class = c, ev_payload = e_Payload ev, ev_country = co,
    ev_at = format_nano (iw_stored w)\<rparr>"
  let ?t = "t\<lparr>an_events := an_events t @ [?r]\<rparr>"
  have n: "pageviews_of q (an_events ?t) = pageviews_of q (an_events t) + (if q = pid \<and> e_Kind ev = ''pageview'' then 1 else 0)" for q
    by (simp add: pageviews_of_def)
  show ?thesis
  proof (cases "e_Kind ev = ''pageview''")
    case True
    have s: "store_event w pid ev v c co t = count_pageview pid (day_text (iw_now w)) v ?t"
      using True by (simp add: store_event_def Let_def)
    have "distinct (an_visitors ?t)" "daily_ok (an_visitors ?t) (an_daily ?t)" using ok by (simp_all add: an_ok_def)
    from count_pageview_ok [OF this] count_pageview_views [OF this(2)] n True ok
    show ?thesis unfolding s an_ok_def by simp
  next
    case False
    with n ok show ?thesis by (simp add: store_event_def Let_def an_ok_def)
  qed
qed

lemma Ingest_tables:
  "snd (snd (Ingest w ev origin ip ua s t)) = t \<or>
   (\<exists>p. first_row (\<lambda>p. ap_key p = e_Key ev) (an_props t) = Some p \<and> refused_event w s p origin ev = None \<and>
     snd (snd (Ingest w ev origin ip ua s t)) =
       store_event w (ap_id p) (defaulted ev) (visitor_of w s ip) (clientClass ua) (country_of s ip) t)"
  by (auto simp: Ingest_def Let_def split: option.split prod.split)

lemma Ingest_ok: "an_ok t \<Longrightarrow> an_ok (snd (snd (Ingest w ev origin ip ua s t)))"
  using Ingest_tables [of w ev origin ip ua s t] store_event_ok by metis

subsection \<open>Runs of the service\<close>

text \<open>The retention run of \<^verbatim>\<open>internal/maintenance\<close> removes old raw events and keeps the rollups.\<close>

definition purge_events :: "string \<Rightarrow> an_tables \<Rightarrow> an_tables" where
  "purge_events before t = t\<lparr>an_events := del_where (\<lambda>e. ev_at e < before) (an_events t)\<rparr>"

inductive an_step :: "analytics_service \<times> an_tables \<Rightarrow> analytics_service \<times> an_tables \<Rightarrow> bool" where
  step_enable: "an_step (s, t) (s, snd (Enable nu key now sid d t))"
| step_disable: "an_step (s, t) (s, snd (Disable sid t))"
| step_ingest: "an_step (s, t) (snd (Ingest w ev origin ip ua s t))"
| step_goal: "an_step (s, t) (s, snd (CreateGoal now sid nm kind path t))"
| step_geo: "an_step (s, t) (SetGeo g s, t)"
| step_purge: "an_step (s, t) (s, purge_events before t)"

abbreviation an_reach :: "analytics_service \<times> an_tables \<Rightarrow> analytics_service \<times> an_tables \<Rightarrow> bool" where
  "an_reach \<equiv> an_step\<^sup>*\<^sup>*"

lemma Enable_ok: "an_ok t \<Longrightarrow> an_ok (snd (Enable nu key now sid d t))"
  using fresh_id_notin [of "map ap_id (an_props t)"]
  by (auto simp: Enable_def an_ok_def Let_def map_upd_where_same first_row_None simp del: fresh_id_notin split: option.split)

lemma Disable_ok: "an_ok t \<Longrightarrow> an_ok (snd (Disable sid t))"
  by (auto simp: Disable_def an_ok_def map_upd_where_same split: option.split)

lemma CreateGoal_ok: "an_ok t \<Longrightarrow> an_ok (snd (CreateGoal now sid nm kind path t))"
  by (auto simp: CreateGoal_def an_ok_def Let_def split: option.split)

lemma purge_events_ok: "an_ok t \<Longrightarrow> an_ok (purge_events before t)"
proof -
  assume ok: "an_ok t"
  have "length (filter P (del_where Q xs)) \<le> length (filter P xs)" for P Q and xs :: "event_row list"
    by (induction xs) (auto simp: del_where_def)
  then have "pageviews_of pid (del_where Q (an_events t)) \<le> pageviews_of pid (an_events t)" for pid Q
    by (simp add: pageviews_of_def)
  with ok show ?thesis by (force simp: purge_events_def an_ok_def intro: order_trans)
qed

lemma an_step_ok: "an_step x y \<Longrightarrow> an_ok (snd x) \<Longrightarrow> an_ok (snd y)"
  by (induction rule: an_step.induct) (simp_all add: Enable_ok Disable_ok Ingest_ok CreateGoal_ok purge_events_ok)

lemma an_reach_ok: "an_reach x y \<Longrightarrow> an_ok (snd x) \<Longrightarrow> an_ok (snd y)"
  by (induction rule: rtranclp_induct) (auto intro: an_step_ok)

lemma an_ok_empty [simp]: "an_ok no_analytics"
  by (simp add: an_ok_def no_analytics_def daily_ok_def pageviews_of_def total_views_def)

lemma NewWithOptions_ok [simp]: "an_ok (snd (NewWithOptions key o1 t)) = an_ok t"
  by (simp add: NewWithOptions_def an_ok_def case_prod_beta Let_def)


definition sample_ingest :: ingest_world where
  "sample_ingest = \<lparr>iw_mac = (\<lambda>k m. m), iw_json = (\<lambda>_. True), iw_limited = 0, iw_now = 1704067200 * second, iw_stored = 1704067200 * second\<rparr>"

definition sample_net :: net_url where
  "sample_net = \<lparr>nu_parse = (\<lambda>_. Some \<lparr>gu_scheme = ''https'', gu_user = False, gu_host = ''a'', gu_path = '''', gu_query = '''',
     gu_fragment = '''', gu_rest = ''''\<rparr>), nu_string = (\<lambda>_. ''''), nu_resolve = (\<lambda>a b. b)\<rparr>"

definition sample_site_db :: db where
  "sample_site_db = init_db\<lparr>db_sites := [\<lparr>site_id = 1, site_org = 1, site_name = ''s'', site_url = ''https://a'', site_enabled = True,
     site_group = None, site_archived = None, site_created = '''', site_updated = '''', site_cluster = None\<rparr>]\<rparr>"

definition sample_event :: Event where
  "sample_event = \<lparr>e_Key = ''k'', e_Kind = '''', e_Path = ''/x'', e_Referrer = '''', e_Payload = ''''\<rparr>"

definition sample_start :: "analytics_service \<times> an_tables" where
  "sample_start = NewWithOptions ''salt'' False no_analytics"

definition sample_enabled :: an_tables where
  "sample_enabled = snd (Enable sample_net ''k'' 0 1 sample_site_db (snd sample_start))"

lemma sample_accepted:
  "first_row (\<lambda>p. ap_key p = ''k'') (an_props sample_enabled) =
     Some \<lparr>ap_id = 1, ap_site = 1, ap_key = ''k'', ap_enabled = True, ap_origin = ''https://a'', ap_created = format_nano 0\<rparr>"
  by (simp add: sample_enabled_def sample_start_def Enable_def NewWithOptions_def no_analytics_def sample_net_def sample_site_db_def
      sample_event_def fresh_id_def Let_def)

lemma sample_ingested:
  "snd (snd (Ingest sample_ingest sample_event ''https://a'' ip '''' (fst sample_start) sample_enabled)) =
     store_event sample_ingest 1 (defaulted sample_event) (visitor_of sample_ingest (fst sample_start) ip) ''desktop'' '''' sample_enabled"
  "fst (Ingest sample_ingest sample_event ''https://a'' ip '''' (fst sample_start) sample_enabled) = Inr ()"
  by (simp_all add: Ingest_def sample_accepted refused_event_def defaulted_def sample_event_def hasControlChars_def limiter_Allow_def
      sample_start_def NewWithOptions_def no_analytics_def newLimiter_def allow_body_def use_bucket_def evict_def Let_def
      clientClass_def to_lower_def country_of_def)




end
