(* ===== verification/Reports.thy ===== *)
theory Reports
  imports Analytics Sites "HOL-Library.Multiset"
begin

text \<open>
  The read models and the retention run: \<^verbatim>\<open>internal/performance\<close>, \<^verbatim>\<open>internal/fleet\<close>, \<^verbatim>\<open>internal/deployments\<close> and
  \<^verbatim>\<open>internal/maintenance\<close>. \<open>sql_value\<close> is the value a column holds after \<^verbatim>\<open>sqlite.Query\<close>, with the accessor \<open>int64_of\<close>
  the callers use.
\<close>

subsection \<open>Query results\<close>

text \<open>\<open>SReal n m\<close> is the quotient of \<open>n\<close> and \<open>m\<close>.\<close>

datatype sql_value = SNull | SInt int | SReal int int | SText string

fun int64_of :: "sql_value \<Rightarrow> int" where
  "int64_of (SInt i) = i"
| "int64_of _ = 0"

text \<open>\<^verbatim>\<open>COALESCE(AVG(c), 0)\<close>: the average is a floating-point number whenever there is a row.\<close>

definition coalesced_avg :: "int list \<Rightarrow> sql_value" where
  "coalesced_avg xs = (if xs = [] then SInt 0 else SReal (sum_list xs) (int (length xs)))"

definition sum_value :: "int list \<Rightarrow> sql_value" where
  "sum_value xs = (if xs = [] then SNull else SInt (sum_list xs))"

subsection \<open>Performance\<close>

record Point =
  pt_LatencyMS :: int
  pt_ResponseBytes :: int
  pt_CheckedAt :: string

record PerfSummary =
  pf_Samples :: int
  pf_MedianLatencyMS :: int
  pf_P95LatencyMS :: int
  pf_MedianResponseBytes :: int
  pf_BaselineLatencyMS :: int
  pf_BaselineResponseBytes :: int
  pf_LatencyRegression :: bool
  pf_SizeRegression :: bool
  pf_History :: "Point list"

text \<open>The inner loop of \<^verbatim>\<open>sort64\<close>: \<open>j\<close> is the place the value \<open>v\<close> would go to now.\<close>

fun shift64 :: "int list \<Rightarrow> nat \<Rightarrow> int \<Rightarrow> int list" where
  "shift64 a 0 v = a[0 := v]"
| "shift64 a (Suc j) v = (if v < a ! j then shift64 (a[Suc j := a ! j]) j v else a[Suc j := v])"

definition sort64 :: "int list \<Rightarrow> int list" where
  "sort64 a = fold (\<lambda>i a. shift64 a i (a ! i)) [1..<length a] a"

text \<open>The percentile \<open>num / den\<close>. For the fractions and lengths the caller uses, the floating-point product of \<^verbatim>\<open>math.Ceil\<close>
  is exact where it is an integer, and otherwise at least 1/20 away from one.\<close>

definition percentile :: "int list \<Rightarrow> int \<Rightarrow> int \<Rightarrow> int" where
  "percentile a num den =
     (if a = [] then 0
      else let n = int (length a); i = - ((- (n * num)) div den) - 1;
               i = (if i < 0 then 0 else i); i = (if n \<le> i then n - 1 else i)
           in a ! nat i)"

definition ForSite :: "int \<Rightarrow> int \<Rightarrow> db \<Rightarrow> PerfSummary" where
  "ForSite sid limit d =
     (let limit = (if limit < 1 then 100 else limit); limit = (if 500 < limit then 500 else limit);
          rows = take (nat limit) (rev (sort_key chk_id (filter (\<lambda>c. chk_site c = sid \<and> chk_ok c) (db_checks d))));
          out = \<lparr>pf_Samples = int (length rows), pf_MedianLatencyMS = 0, pf_P95LatencyMS = 0, pf_MedianResponseBytes = 0,
                 pf_BaselineLatencyMS = 0, pf_BaselineResponseBytes = 0, pf_LatencyRegression = False, pf_SizeRegression = False,
                 pf_History = map (\<lambda>c. \<lparr>pt_LatencyMS = chk_latency c, pt_ResponseBytes = chk_bytes c, pt_CheckedAt = chk_at c\<rparr>) rows\<rparr>
      in if rows = [] then out
         else let lats = sort64 (map chk_latency rows); sizes = sort64 (map chk_bytes rows);
                  baseN = (if 20 < length rows then 20 else length rows);
                  base = drop (length rows - baseN) rows;
                  bl = go_div (sum_list (map chk_latency base)) (int baseN); bs = go_div (sum_list (map chk_bytes base)) (int baseN);
                  ml = percentile lats 1 2; ms = percentile sizes 1 2
              in out\<lparr>pf_MedianLatencyMS := ml, pf_P95LatencyMS := percentile lats 19 20, pf_MedianResponseBytes := ms,
                     pf_BaselineLatencyMS := bl, pf_BaselineResponseBytes := bs,
                     pf_LatencyRegression := (0 < bl \<and> go_div (bl * 3) 2 < ml),
                     pf_SizeRegression := (0 < bs \<and> go_div (bs * 3) 2 < ms)\<rparr>)"

lemma length_shift64 [simp]: "length (shift64 a j v) = length a"
  by (induction a j v rule: shift64.induct) auto

lemma insort_last: "sorted xs \<Longrightarrow> \<forall>x \<in> set xs. x \<le> v \<Longrightarrow> insort v xs = xs @ [v]" for v :: int
proof -
  assume a: "sorted xs" "\<forall>x \<in> set xs. x \<le> v"
  have "sort (xs @ [v]) = insort v xs" by (rule properties_for_sort) (simp_all add: a sorted_insort)
  moreover have "sort (xs @ [v]) = xs @ [v]" by (rule properties_for_sort) (simp_all add: a sorted_append)
  ultimately show ?thesis by simp
qed

lemma insort_before_last: "v < x \<Longrightarrow> insort v (xs @ [x]) = insort v xs @ [x]" for v :: int
  by (induction xs) auto

text \<open>Shifting inserts the value into the sorted prefix and leaves the rest of the array alone.\<close>

lemma shift64_insort:
  "j < length a \<Longrightarrow> sorted (take j a) \<Longrightarrow> shift64 a j v = insort v (take j a) @ drop (Suc j) a"
proof (induction a j v rule: shift64.induct)
  case (1 a v)
  then show ?case by (cases a) auto
next
  case (2 a j v)
  have t: "take (Suc j) a = take j a @ [a ! j]" using 2(2) by (simp add: take_Suc_conv_app_nth)
  have s: "sorted (take j a)" using 2(3) by (simp add: t sorted_append)
  show ?case
  proof (cases "v < a ! j")
    case True
    have "drop (Suc j) (a[Suc j := a ! j]) = a ! j # drop (Suc (Suc j)) a"
      using 2(2) by (simp add: drop_update_swap Cons_nth_drop_Suc [symmetric])
    with 2(1) [OF True] 2(2) s True show ?thesis by (simp add: t insort_before_last)
  next
    case False
    have "\<forall>x \<in> set (take (Suc j) a). x \<le> v" using 2(3) False by (auto simp: t sorted_append)
    then have "insort v (take (Suc j) a) = take (Suc j) a @ [v]" by (rule insort_last [OF 2(3)])
    with False 2(2) show ?thesis by (simp add: upd_conv_take_nth_drop)
  qed
qed

lemma sort64_prefix:
  "1 \<le> k \<Longrightarrow> k \<le> length a \<Longrightarrow> fold (\<lambda>i a. shift64 a i (a ! i)) [1..<k] a = sort (take k a) @ drop k a"
proof (induction k)
  case (Suc k)
  show ?case
  proof (cases "k = 0")
    case True
    with Suc.prems show ?thesis by (cases a) auto
  next
    case False
    let ?b = "sort (take k a) @ drop k a"
    have k: "k < length a" using Suc.prems by simp
    have "fold (\<lambda>i a. shift64 a i (a ! i)) [1..<Suc k] a = shift64 ?b k (?b ! k)" using Suc False by simp
    also have "\<dots> = insort (a ! k) (sort (take k a)) @ drop (Suc k) a"
      using k by (simp add: shift64_insort nth_append)
    also have "insort (a ! k) (sort (take k a)) = sort (take (Suc k) a)"
    proof -
      have "mset (insort (a ! k) (sort (take k a))) = mset (take (Suc k) a)" using k by (simp add: take_Suc_conv_app_nth)
      then show ?thesis by (metis properties_for_sort sorted_insort sorted_sort)
    qed
    finally show ?thesis .
  qed
qed simp

lemma sort64_eq: "sort64 a = sort a"
proof (cases "a = []")
  case False
  then have "1 \<le> length a" by (cases a) auto
  then show ?thesis unfolding sort64_def using sort64_prefix [of "length a" a] by simp
qed (simp add: sort64_def)

lemma sorted_rank:
  fixes xs :: "int list"
  assumes "sorted xs" "i < length xs"
  shows "Suc i \<le> length (filter (\<lambda>x. x \<le> xs ! i) xs)" "length (filter (\<lambda>x. x < xs ! i) xs) \<le> i"
proof -
  have le: "x \<le> xs ! i" if x: "x \<in> set (take (Suc i) xs)" for x
  proof -
    from x obtain j where "j < length (take (Suc i) xs)" "x = take (Suc i) xs ! j" by (metis in_set_conv_nth)
    with assms show ?thesis by (auto intro: sorted_nth_mono)
  qed
  have ge: "\<not> x < xs ! i" if x: "x \<in> set (drop i xs)" for x
  proof -
    from x obtain j where "j < length (drop i xs)" "x = drop i xs ! j" by (metis in_set_conv_nth)
    with assms show ?thesis by (auto simp: not_less intro: sorted_nth_mono)
  qed
  have "filter (\<lambda>x. x \<le> xs ! i) (take (Suc i) xs) = take (Suc i) xs" using le by (simp add: filter_id_conv)
  then have "Suc i = length (filter (\<lambda>x. x \<le> xs ! i) (take (Suc i) xs))" using assms(2) by simp
  also have "\<dots> \<le> length (filter (\<lambda>x. x \<le> xs ! i) (take (Suc i) xs @ drop (Suc i) xs))"
    unfolding filter_append length_append by simp
  finally show "Suc i \<le> length (filter (\<lambda>x. x \<le> xs ! i) xs)" by simp
  have "filter (\<lambda>x. x < xs ! i) (drop i xs) = []" using ge by (simp add: filter_empty_conv)
  then have "length (filter (\<lambda>x. x < xs ! i) (take i xs @ drop i xs)) = length (filter (\<lambda>x. x < xs ! i) (take i xs))"
    unfolding filter_append by simp
  also have "\<dots> \<le> i" by (metis length_filter_le length_take le_trans min.cobounded2)
  finally show "length (filter (\<lambda>x. x < xs ! i) xs) \<le> i" by simp
qed

lemma ceil_quotient:
  fixes n num den :: int
  assumes "0 < n" "0 < num" "num \<le> den"
  defines "k \<equiv> - ((- (n * num)) div den)"
  shows "1 \<le> k" "k \<le> n" "n * num \<le> den * k" "den * (k - 1) < n * num"
proof -
  have d: "0 < den" using assms by linarith
  have eq: "- (n * num) = den * (- k) + (- (n * num)) mod den" unfolding k_def by simp
  have m: "0 \<le> (- (n * num)) mod den" "(- (n * num)) mod den < den" using d by simp_all
  show a: "n * num \<le> den * k" using eq m(1) by simp
  show b: "den * (k - 1) < n * num" using eq m(2) by (simp add: right_diff_distrib)
  have "0 < n * num" using assms by simp
  with a have "0 < den * k" by linarith
  with d show "1 \<le> k" by (simp add: zero_less_mult_iff)
  have "n * num \<le> n * den" using assms by (intro mult_left_mono) simp_all
  with b have "den * (k - 1) < den * n" by (simp add: mult.commute)
  with d show "k \<le> n" by (simp add: mult_less_cancel_left)
qed

text \<open>C31. A percentile of the performance summary is the nearest-rank percentile of the samples, whatever their order: it is one of
  the samples, at least the fraction \<open>num/den\<close> of the samples is no larger, and less than that fraction is smaller.\<close>

theorem percentile_rank:
  assumes "a \<noteq> []" "0 < num" "num \<le> den"
  shows "percentile (sort64 a) num den \<in> set a \<and>
    int (length a) * num \<le> den * int (length (filter (\<lambda>x. x \<le> percentile (sort64 a) num den) a)) \<and>
    den * int (length (filter (\<lambda>x. x < percentile (sort64 a) num den) a)) < int (length a) * num"
proof -
  define xs where "xs = sort a"
  define n where "n = int (length a)"
  define k where "k = - ((- (n * num)) div den)"
  have n: "0 < n" using assms(1) by (simp add: n_def)
  note k = ceil_quotient [OF n assms(2,3), folded k_def]
  have i: "nat (k - 1) < length xs" using k(1,2) by (simp add: xs_def n_def nat_less_iff)
  have ne: "sort a \<noteq> []" using assms(1) by (metis length_0_conv length_sort)
  have v: "percentile (sort64 a) num den = xs ! nat (k - 1)"
    using k(1,2) ne by (simp add: percentile_def sort64_eq xs_def n_def k_def Let_def)
  have s: "sorted xs" by (simp add: xs_def)
  have cnt: "length (filter P a) = length (filter P xs)" for P
    by (metis mset_filter mset_sort size_mset xs_def)
  have d: "0 < den" using assms by linarith
  have "k \<le> int (length (filter (\<lambda>x. x \<le> xs ! nat (k - 1)) xs))" using sorted_rank(1) [OF s i] k(1) by linarith
  then have "den * k \<le> den * int (length (filter (\<lambda>x. x \<le> xs ! nat (k - 1)) xs))" using d by simp
  moreover have "int (length (filter (\<lambda>x. x < xs ! nat (k - 1)) xs)) \<le> k - 1" using sorted_rank(2) [OF s i] k(1) by linarith
  then have "den * int (length (filter (\<lambda>x. x < xs ! nat (k - 1)) xs)) \<le> den * (k - 1)" using d by simp
  moreover have "xs ! nat (k - 1) \<in> set a" using i by (metis nth_mem set_sort xs_def)
  ultimately show ?thesis unfolding v cnt using k(3,4) by (simp add: n_def)
qed

theorem percentile_rank_witness:
  "percentile (sort64 [30, 10, 20, 40]) 1 2 = 20 \<and> percentile (sort64 [30, 10, 20, 40]) 1 2 \<in> set [30, 10, 20, 40]"
  using percentile_rank [of "[30, 10, 20, 40]" 1 2] by (simp add: sort64_def percentile_def Let_def upt_rec)

subsection \<open>The fleet summary\<close>

record FleetHealth =
  fh_Total :: int
  fh_Healthy :: int
  fh_Degraded :: int
  fh_Warning :: int
  fh_Down :: int
  fh_Unknown :: int
  fh_Attention :: "Site list"

definition health_state :: "db \<Rightarrow> site_row \<Rightarrow> string option" where
  "health_state d s = map_option hl_state (first_row (\<lambda>h. hl_site h = site_id s) (db_health d))"

definition SummaryFor :: "int \<Rightarrow> db \<Rightarrow> FleetHealth" where
  "SummaryFor org d =
     (let rows = filter (\<lambda>s. site_archived s = None \<and> site_org s = org) (db_sites d);
          cnt = \<lambda>P. int64_of (sum_value (map (\<lambda>s. if P (health_state d s) then 1 else 0) rows));
          sites = ls_Sites (ListSites org '''' 0 1 100 False d);
          attention = filter (\<lambda>s. st_Health s \<in> {''down'', ''warning'', ''degraded''}) sites
      in \<lparr>fh_Total = int (length rows), fh_Healthy = cnt (\<lambda>h. h = Some ''healthy''), fh_Degraded = cnt (\<lambda>h. h = Some ''degraded''),
          fh_Warning = cnt (\<lambda>h. h = Some ''warning''), fh_Down = cnt (\<lambda>h. h = Some ''down''),
          fh_Unknown = cnt (\<lambda>h. h = None \<or> h = Some ''unknown''), fh_Attention = take 20 attention\<rparr>)"

subsection \<open>Deployments\<close>

record deployment_row =
  dp_id :: int
  dp_site :: int
  dp_provider :: string
  dp_external :: string
  dp_revision :: string
  dp_environment :: string
  dp_status :: string
  dp_url :: string
  dp_metadata :: string
  dp_deployed :: string
  dp_received :: string

text \<open>The insertion with its upsert on the partial unique index \<^verbatim>\<open>(site_id, provider, external_id) WHERE external_id <> ''\<close>: the
  environment and the time of receipt of an existing row are kept.\<close>

definition upsert_deployment :: "deployment_row \<Rightarrow> deployment_row list \<Rightarrow> int \<times> deployment_row list" where
  "upsert_deployment e rs =
     (let same = \<lambda>r. dp_external e \<noteq> '''' \<and> dp_site r = dp_site e \<and> dp_provider r = dp_provider e \<and> dp_external r = dp_external e
      in case first_row same rs of
        Some r \<Rightarrow> (dp_id r, upd_where same (\<lambda>r. r\<lparr>dp_revision := dp_revision e, dp_status := dp_status e, dp_url := dp_url e,
                                 dp_metadata := dp_metadata e, dp_deployed := dp_deployed e\<rparr>) rs)
      | None \<Rightarrow> let i = fresh_id (map dp_id rs) in (i, rs @ [e\<lparr>dp_id := i\<rparr>]))"

definition deployment_input :: "(string \<Rightarrow> bool) \<Rightarrow> instant \<Rightarrow> instant \<Rightarrow> deployment_row \<Rightarrow> (check_error, deployment_row) result" where
  "deployment_input rfc3339 now1 now2 e =
     (let e = e\<lparr>dp_provider := trim_space (to_lower (dp_provider e))\<rparr>
      in if dp_provider e = '''' \<or> dp_site e < 1 then Inl (Failed ''provider and site are required'')
         else let e = e\<lparr>dp_environment := (if dp_environment e = '''' then ''production'' else dp_environment e),
                        dp_status := (if dp_status e = '''' then ''deployed'' else dp_status e)\<rparr>
              in if dp_deployed e \<noteq> '''' \<and> \<not> rfc3339 (dp_deployed e) then Inl (Failed ''invalid deployed_at'')
                 else Inr (e\<lparr>dp_deployed := (if dp_deployed e = '''' then format_nano now1 else dp_deployed e), dp_received := format_nano now2\<rparr>))"

definition RecordDeployment :: "(string \<Rightarrow> bool) \<Rightarrow> instant \<Rightarrow> instant \<Rightarrow> deployment_row \<Rightarrow> db \<Rightarrow> deployment_row list
    \<Rightarrow> (check_error, deployment_row) result \<times> deployment_row list" where
  "RecordDeployment rfc3339 now1 now2 e d rs =
     (case deployment_input rfc3339 now1 now2 e of
        Inl x \<Rightarrow> (Inl x, rs)
      | Inr e \<Rightarrow>
          if dp_site e \<notin> set (site_ids d) then (Inl (Sql ForeignKeyViolation), rs)
          else let (i, rs') = upsert_deployment e rs in (Inr (e\<lparr>dp_id := i\<rparr>), rs'))"

text \<open>Newest first; rows deployed at the same time come in the order of the index, that is of their ids.\<close>

definition DeploymentHistory :: "int \<Rightarrow> deployment_row list \<Rightarrow> deployment_row list" where
  "DeploymentHistory sid rs = take 100 (rev (sort_key dp_deployed (rev (filter (\<lambda>r. dp_site r = sid) rs))))"

record Correlation =
  co_Deployment :: deployment_row
  co_ChecksAfter :: int
  co_FailuresAfter :: int
  co_MedianLatencyAfter :: int
  co_PageviewsAfter :: int

definition Correlate :: "int \<Rightarrow> db \<Rightarrow> an_tables \<Rightarrow> deployment_row list \<Rightarrow> Correlation option" where
  "Correlate sid d t rs =
     (case DeploymentHistory sid rs of
        [] \<Rightarrow> None
      | x # _ \<Rightarrow>
          let cs = filter (\<lambda>c. chk_site c = sid \<and> dp_deployed x \<le> chk_at c) (db_checks d);
              views = filter (\<lambda>e. (\<exists>p \<in> set (an_props t). ap_id p = ev_prop e \<and> ap_site p = sid) \<and> dp_deployed x \<le> ev_at e \<and>
                        ev_kind e = ''pageview'') (an_events t)
          in Some \<lparr>co_Deployment = x, co_ChecksAfter = int (length cs),
               co_FailuresAfter = int64_of (sum_value (map (\<lambda>c. if chk_ok c then 0 else 1) cs)),
               co_MedianLatencyAfter = int64_of (coalesced_avg (map chk_latency cs)), co_PageviewsAfter = int (length views)\<rparr>)"

text \<open>The latency after a deployment is always reported as zero: the query yields an average, which arrives as a floating-point
  value, and the integer part of the result row is read.\<close>

theorem deployment_latency_zero: "Correlate sid d t rs = Some c \<Longrightarrow> co_MedianLatencyAfter c = 0"
  by (auto simp: Correlate_def coalesced_avg_def Let_def split: list.splits)

theorem deployment_latency_zero_witness:
  "let d = init_db\<lparr>db_checks := [\<lparr>chk_id = 1, chk_site = 1, chk_monitor = 1, chk_ok = True, chk_status = 200, chk_latency = 120, chk_bytes = 0,
         chk_final_url = '''', chk_error_class = '''', chk_error = '''', chk_at = ''2025''\<rparr>]\<rparr>;
       rs = [\<lparr>dp_id = 1, dp_site = 1, dp_provider = ''ci'', dp_external = '''', dp_revision = '''', dp_environment = '''', dp_status = '''',
         dp_url = '''', dp_metadata = '''', dp_deployed = ''2024'', dp_received = ''''\<rparr>]
   in \<exists>c. Correlate 1 d no_analytics rs = Some c \<and> co_ChecksAfter c = 1 \<and> co_MedianLatencyAfter c = 0"
proof -
  let ?d = "init_db\<lparr>db_checks := [\<lparr>chk_id = 1, chk_site = 1, chk_monitor = 1, chk_ok = True, chk_status = 200, chk_latency = 120, chk_bytes = 0,
    chk_final_url = '''', chk_error_class = '''', chk_error = '''', chk_at = ''2025''\<rparr>]\<rparr>"
  let ?rs = "[\<lparr>dp_id = 1, dp_site = 1, dp_provider = ''ci'', dp_external = '''', dp_revision = '''', dp_environment = '''', dp_status = '''',
    dp_url = '''', dp_metadata = '''', dp_deployed = ''2024'', dp_received = ''''\<rparr>]"
  obtain c where c: "Correlate 1 ?d no_analytics ?rs = Some c" "co_ChecksAfter c = 1"
    by (simp add: Correlate_def DeploymentHistory_def Let_def)
  with deployment_latency_zero [OF c(1)] show ?thesis unfolding Let_def by blast
qed

text \<open>Recording a deployment is idempotent: a redelivery with the same site, provider and external id answers with the id of
  the first, adds no row, updates the stored revision and status, and keeps the stored environment and time of receipt even where
  the answer shows others.\<close>

theorem deployment_redelivery:
  assumes "RecordDeployment f n1 n2 e d rs = (Inr r1, rs1)" "RecordDeployment f m1 m2 e' d rs1 = (Inr r2, rs2)"
    and "dp_external e \<noteq> ''''" "dp_external e' = dp_external e" "dp_site e' = dp_site e" "trim_space (to_lower (dp_provider e')) = trim_space (to_lower (dp_provider e))"
  shows "dp_id r2 = dp_id r1 \<and> length rs2 = length rs1 \<and>
    (\<exists>s1 \<in> set rs1. \<exists>s2 \<in> set rs2. dp_id s1 = dp_id r1 \<and> dp_id s2 = dp_id r1 \<and> dp_revision s2 = dp_revision e' \<and> dp_status s2 = dp_status r2 \<and>
       dp_environment s2 = dp_environment s1 \<and> dp_received s2 = dp_received s1)"
proof -
  let ?same = "\<lambda>r. dp_external e \<noteq> '''' \<and> dp_site r = dp_site e \<and> dp_provider r = trim_space (to_lower (dp_provider e)) \<and> dp_external r = dp_external e"
  from assms(1) obtain x where x: "deployment_input f n1 n2 e = Inr x" "upsert_deployment x rs = (dp_id r1, rs1)" "r1 = x\<lparr>dp_id := dp_id r1\<rparr>"
    by (auto simp: RecordDeployment_def split: sum.splits if_splits prod.splits)
  from assms(2) obtain y where y: "deployment_input f m1 m2 e' = Inr y" "upsert_deployment y rs1 = (dp_id r2, rs2)" "r2 = y\<lparr>dp_id := dp_id r2\<rparr>"
    by (auto simp: RecordDeployment_def split: sum.splits if_splits prod.splits)
  have fx: "dp_site x = dp_site e" "dp_provider x = trim_space (to_lower (dp_provider e))" "dp_external x = dp_external e"
    using x(1) by (auto simp: deployment_input_def Let_def split: if_splits)
  have fy: "dp_site y = dp_site e" "dp_provider y = trim_space (to_lower (dp_provider e))" "dp_external y = dp_external e" "dp_revision y = dp_revision e'"
    using y(1) assms(4-6) by (auto simp: deployment_input_def Let_def split: if_splits)
  have "\<exists>s. first_row ?same rs1 = Some s \<and> dp_id s = dp_id r1"
  proof (cases "first_row ?same rs")
    case None
    then have "rs1 = rs @ [x\<lparr>dp_id := dp_id r1\<rparr>]" using x(2) fx by (auto simp: upsert_deployment_def Let_def)
    with None show ?thesis using fx assms(3) by (simp add: first_row_append)
  next
    case (Some s)
    then show ?thesis using x(2) fx by (auto simp: upsert_deployment_def Let_def first_row_upd_where)
  qed
  then obtain s where s: "first_row ?same rs1 = Some s" "dp_id s = dp_id r1" by blast
  define g where "g = (\<lambda>r. r\<lparr>dp_revision := dp_revision y, dp_status := dp_status y, dp_url := dp_url y, dp_metadata := dp_metadata y,
    dp_deployed := dp_deployed y\<rparr> :: deployment_row)"
  have u: "upsert_deployment y rs1 = (dp_id s, upd_where ?same g rs1)"
    using s fy by (simp add: upsert_deployment_def Let_def g_def)
  have "s \<in> set rs1" "?same s" using first_row_Some [OF s(1)] by auto
  then have "g s \<in> set (upd_where ?same g rs1)" by (auto simp: set_upd_where)
  moreover have "dp_id (g s) = dp_id r1" "dp_revision (g s) = dp_revision e'" "dp_status (g s) = dp_status y"
    "dp_environment (g s) = dp_environment s" "dp_received (g s) = dp_received s" using s(2) fy by (simp_all add: g_def)
  moreover have "dp_status r2 = dp_status y" by (subst y(3)) simp
  moreover have "dp_id r2 = dp_id r1" "rs2 = upd_where ?same g rs1" using u y(2) s(2) by simp_all
  moreover have "length rs2 = length rs1" using calculation by simp
  ultimately show ?thesis using s(2) \<open>s \<in> set rs1\<close> by (intro conjI bexI [of _ s] bexI [of _ "g s"]) (simp_all only:)
qed

theorem deployment_redelivery_witness:
  "let e = \<lparr>dp_id = 0, dp_site = 1, dp_provider = ''ci'', dp_external = ''7'', dp_revision = ''a'', dp_environment = ''staging'', dp_status = '''',
         dp_url = '''', dp_metadata = '''', dp_deployed = ''2024-01-01T00:00:00Z'', dp_received = ''''\<rparr>;
       (r1, rs1) = RecordDeployment (\<lambda>_. True) 0 0 e sample_site_db [];
       (r2, rs2) = RecordDeployment (\<lambda>_. True) 0 1 (e\<lparr>dp_environment := ''production''\<rparr>) sample_site_db rs1
   in (\<exists>x y. r1 = Inr x \<and> r2 = Inr y \<and> dp_id y = dp_id x \<and> dp_environment y = ''production'') \<and> map dp_environment rs2 = [''staging'']"
proof -
  let ?e = "\<lparr>dp_id = 0, dp_site = 1, dp_provider = ''ci'', dp_external = ''7'', dp_revision = ''a'', dp_environment = ''staging'', dp_status = '''',
    dp_url = '''', dp_metadata = '''', dp_deployed = ''2024-01-01T00:00:00Z'', dp_received = ''''\<rparr>"
  let ?e2 = "?e\<lparr>dp_environment := ''production''\<rparr>"
  have p: "trim_space (to_lower ''ci'') = ''ci''" by (simp add: trim_space_def to_lower_def lower_char_def is_space_def)
  obtain x y rs1 rs2 where r: "RecordDeployment (\<lambda>_. True) 0 0 ?e sample_site_db [] = (Inr x, rs1)"
      "RecordDeployment (\<lambda>_. True) 0 1 ?e2 sample_site_db rs1 = (Inr y, rs2)"
    "dp_environment y = ''production''" "map dp_environment rs2 = [''staging'']"
    by (simp add: RecordDeployment_def deployment_input_def upsert_deployment_def Let_def p sample_site_db_def upd_where_def)
  have "dp_id y = dp_id x" using deployment_redelivery [OF r(1,2)] by simp
  with r show ?thesis by (simp add: Let_def)
qed

end
