(* ===== verification/Site_Audit.thy ===== *)
theory Site_Audit
  imports Monitor Url
begin

text \<open>
  Browser audits, \<^verbatim>\<open>internal/audit/audit.go\<close> and the scoring and command line of \<^verbatim>\<open>browser.go\<close>: reservations, runs and their
  history, batch selection and execution. What the browser does is an argument of a run. A batch runs its audits
  concurrently, two at a time: each audit is a step that stores the running row and a later step that stores the outcome, and a
  batch is any schedule of those steps.
\<close>

record Result =
  rs_ID :: int
  rs_SiteID :: int
  rs_Status :: string
  rs_Performance :: int
  rs_Accessibility :: int
  rs_BestPractices :: int
  rs_Discoverability :: int
  rs_Findings :: "string list"
  rs_DurationMS :: int
  rs_URL :: string
  rs_Error :: string
  rs_CreatedAt :: string
  rs_StartedAt :: string

definition zero_result :: Result where
  "zero_result = \<lparr>rs_ID = 0, rs_SiteID = 0, rs_Status = '''', rs_Performance = 0, rs_Accessibility = 0, rs_BestPractices = 0,
     rs_Discoverability = 0, rs_Findings = [], rs_DurationMS = 0, rs_URL = '''', rs_Error = '''', rs_CreatedAt = '''', rs_StartedAt = ''''\<rparr>"

text \<open>\<^verbatim>\<open>audit_runs\<close> has the columns of a \<^verbatim>\<open>Result\<close>; \<^verbatim>\<open>audit_settings\<close> holds the history switch of a site.\<close>

record audit_tables =
  au_runs :: "Result list"
  au_settings :: "(int \<times> bool) list"

subsection \<open>Reservations\<close>

definition Claim :: "int \<Rightarrow> int set \<Rightarrow> bool \<times> int set" where
  "Claim sid infl = (if sid \<in> infl then (False, infl) else (True, insert sid infl))"

definition Release :: "int \<Rightarrow> int set \<Rightarrow> int set" where
  "Release sid infl = infl - {sid}"

subsection \<open>The browser\<close>

definition browserArgs :: "string \<Rightarrow> string \<Rightarrow> string \<Rightarrow> string list" where
  "browserArgs sandbox proxyAddr target =
     [''--headless=new'', ''--disable-gpu'', ''--disable-dev-shm-usage'', ''--disable-quic'', ''--disable-background-networking'',
      ''--disable-component-update'', ''--disable-sync'', ''--no-first-run'', ''--no-default-browser-check'',
      ''--proxy-server=http://'' @ proxyAddr, ''--proxy-bypass-list=<-loopback>'', ''--dump-dom''] @
     (if sandbox = ''allow-no-sandbox'' then [''--no-sandbox''] else []) @ [target]"

definition scoreRendered :: "string \<Rightarrow> int \<Rightarrow> string \<Rightarrow> Result" where
  "scoreRendered html durationMS u =
     (let noTitle = \<not> str_contains html ''<title'';
          noDesc = \<not> str_contains html ''name=\"description\"'' \<and> \<not> str_contains html (''name='' @ [CHR 0x27] @ ''description'' @ [CHR 0x27]);
          noAlt = str_contains html ''<img'' \<and> \<not> str_contains html '' alt='';
          noLang = \<not> str_contains html ''<html lang='';
          insecure = str_contains html ''http://'';
          disc = 100 - (if noTitle then 20 else 0) - (if noDesc then 15 else 0);
          a = 100 - (if noAlt then 15 else 0) - (if noLang then 10 else 0);
          bp = 100 - (if insecure then 15 else 0);
          perf = 100 - go_div durationMS 50; perf = (if perf < 20 then 20 else perf); perf = (if 100 < perf then 100 else perf)
      in zero_result\<lparr>rs_Status := ''complete'', rs_Performance := perf, rs_Accessibility := a, rs_BestPractices := bp, rs_Discoverability := disc,
           rs_Findings := (if noTitle then [''Missing document title''] else []) @ (if noDesc then [''Missing meta description''] else []) @
             (if noAlt then [''Images may be missing alt text''] else []) @ (if noLang then [''Missing document language''] else []) @
             (if insecure then [''Rendered document contains insecure HTTP references''] else []),
           rs_DurationMS := durationMS, rs_URL := u\<rparr>)"

text \<open>\<^verbatim>\<open>limitedBuffer.Write\<close>: what the buffer holds afterwards; the length reported is always that of the data.\<close>

definition buffer_write :: "nat \<Rightarrow> string \<Rightarrow> string \<Rightarrow> int \<times> string" where
  "buffer_write limit data buf =
     (if limit \<le> length buf then (int (length data), buf)
      else let room = limit - length buf
           in if room < length data then (int (length data), buf @ take room data) else (int (length data), buf @ data))"

text \<open>One launch of the browser: the outcome of the look-up, the proxy and the process.\<close>

datatype browser_exit = Rendered "string list" | NotStarted string | TimedOut | ExitError string

record browser_world =
  bw_guard :: Guard
  bw_binary :: "string option"
  bw_proxy :: "(string, string) result"
  bw_exit :: "string list \<Rightarrow> browser_exit" \<comment> \<open>for the command line; the pieces of output in the order they arrive\<close>
  bw_ms :: int

record BrowserRunner =
  br_Binary :: string
  br_Sandbox :: string
  br_Timeout :: duration
  br_MaxOutput :: int

definition normalized :: "BrowserRunner \<Rightarrow> BrowserRunner" where
  "normalized b = b\<lparr>br_Timeout := (if br_Timeout b \<le> 0 then 45 * second else br_Timeout b),
     br_MaxOutput := (if br_MaxOutput b \<le> 0 then 2 ^ 24 else br_MaxOutput b),
     br_Sandbox := (if br_Sandbox b = '''' then ''strict'' else br_Sandbox b)\<rparr>"

definition captured :: "int \<Rightarrow> string list \<Rightarrow> string" where
  "captured limit out = fold (\<lambda>data buf. snd (buffer_write (nat limit) data buf)) out ''''"

definition BrowserRun :: "net_url \<Rightarrow> (duration \<Rightarrow> string) \<Rightarrow> browser_world \<Rightarrow> BrowserRunner \<Rightarrow> string \<Rightarrow> (string, Result) result" where
  "BrowserRun nu dtext w b raw =
     (let b = normalized b
      in case nu_parse nu raw of
        None \<Rightarrow> Inl ''audit target''
      | Some u \<Rightarrow>
          (case ValidateURL (bw_guard w) \<lparr>u_scheme = gu_scheme u, u_hostname = url_Hostname u\<rparr> of
             Inl e \<Rightarrow> Inl (''audit target blocked: '' @ e)
           | Inr _ \<Rightarrow>
               (case (if br_Binary b \<noteq> '''' then Some (br_Binary b) else bw_binary w) of
                  None \<Rightarrow> Inl ''browser audit runtime is not installed''
                | Some bin \<Rightarrow>
                    (case bw_proxy w of
                       Inl e \<Rightarrow> Inl (''start audit proxy: '' @ e)
                     | Inr proxyAddr \<Rightarrow>
                         (case bw_exit w (bin # browserArgs (br_Sandbox b) proxyAddr raw) of
                            NotStarted e \<Rightarrow> Inl (''browser audit: '' @ e)
                          | TimedOut \<Rightarrow> Inl (''browser audit timed out after '' @ dtext (br_Timeout b))
                          | ExitError e \<Rightarrow> Inl (''browser audit: '' @ e)
                          | Rendered out \<Rightarrow> Inr (scoreRendered (to_lower (captured (br_MaxOutput b) out)) (bw_ms w) raw))))))"

subsection \<open>Runs\<close>

definition HistoryEnabled :: "int \<Rightarrow> audit_tables \<Rightarrow> bool" where
  "HistoryEnabled sid t = (case map_of (au_settings t) sid of None \<Rightarrow> False | Some on \<Rightarrow> on)"

definition SetHistory :: "int \<Rightarrow> bool \<Rightarrow> db \<Rightarrow> audit_tables \<Rightarrow> (check_error, unit) result \<times> audit_tables" where
  "SetHistory sid on d t =
     (if sid \<notin> set (site_ids d) then (Inl (Sql ForeignKeyViolation), t)
      else (Inr (), t\<lparr>au_settings := (sid, on) # filter (\<lambda>(s, _). s \<noteq> sid) (au_settings t)\<rparr>))"

definition AuditHistory :: "int \<Rightarrow> audit_tables \<Rightarrow> Result list" where
  "AuditHistory sid t = take 50 (rev (sort_key rs_ID (filter (\<lambda>r. rs_SiteID r = sid) (au_runs t))))"

text \<open>The first part of \<^verbatim>\<open>Run\<close>, up to the running row, and the second part, after the browser has answered.\<close>

definition run_begin :: "instant \<Rightarrow> int \<Rightarrow> db \<Rightarrow> audit_tables \<Rightarrow> (string, int \<times> string) result \<times> audit_tables" where
  "run_begin now sid d t =
     (case first_row (\<lambda>s. site_id s = sid \<and> site_archived s = None) (db_sites d) of
        None \<Rightarrow> (Inl ''site not found'', t)
      | Some s \<Rightarrow>
          let i = fresh_id (map rs_ID (au_runs t))
          in (Inr (i, site_url s), t\<lparr>au_runs := au_runs t @ [zero_result\<lparr>rs_ID := i, rs_SiteID := sid, rs_Status := ''running'',
                rs_CreatedAt := format_nano now, rs_StartedAt := format_nano now\<rparr>]\<rparr>))"

definition run_outcome :: "instant \<Rightarrow> int \<Rightarrow> int \<Rightarrow> (string, Result) result \<Rightarrow> Result" where
  "run_outcome now sid i ans =
     (let res = (case ans of Inl _ \<Rightarrow> zero_result | Inr r \<Rightarrow> r);
          res = res\<lparr>rs_ID := i, rs_SiteID := sid, rs_CreatedAt := format_nano now\<rparr>
      in case ans of Inl e \<Rightarrow> res\<lparr>rs_Status := ''failed'', rs_Error := e\<rparr> | Inr _ \<Rightarrow> res)"

text \<open>\<^verbatim>\<open>UPDATE audit_runs SET \<dots>\<close>\<close>

definition store_outcome :: "Result \<Rightarrow> Result \<Rightarrow> Result" where
  "store_outcome res r = r\<lparr>rs_Status := rs_Status res, rs_Performance := rs_Performance res,
     rs_Accessibility := rs_Accessibility res, rs_BestPractices := rs_BestPractices res, rs_Discoverability := rs_Discoverability res,
     rs_Findings := rs_Findings res, rs_DurationMS := rs_DurationMS res, rs_URL := rs_URL res, rs_Error := rs_Error res\<rparr>"

definition run_finish :: "instant \<Rightarrow> int \<Rightarrow> int \<Rightarrow> (string, Result) result \<Rightarrow> audit_tables \<Rightarrow> Result \<times> audit_tables" where
  "run_finish now sid i ans t =
     (let res = run_outcome now sid i ans;
          t = t\<lparr>au_runs := upd_where (\<lambda>r. rs_ID r = i) (store_outcome res) (au_runs t)\<rparr>
      in (res, if \<not> HistoryEnabled sid t \<and> rs_Status res \<noteq> ''running''
               then t\<lparr>au_runs := del_where (\<lambda>r. rs_SiteID r = sid \<and> rs_ID r \<noteq> i) (au_runs t)\<rparr> else t))"

text \<open>A whole run, when nothing else happens in between.\<close>

definition Run :: "(string \<Rightarrow> (string, Result) result) \<Rightarrow> instant \<Rightarrow> int \<Rightarrow> db \<Rightarrow> audit_tables \<Rightarrow> (string, Result) result \<times> Result \<times> audit_tables" where
  "Run runner now sid d t =
     (case run_begin now sid d t of
        (Inl e, t) \<Rightarrow> (Inl e, zero_result, t)
      | (Inr (i, url), t) \<Rightarrow>
          let ans = runner url; (res, t) = run_finish now sid i ans t
          in (case ans of Inl e \<Rightarrow> (Inl e, res, t) | Inr _ \<Rightarrow> (Inr res, res, t)))"

subsection \<open>Batches\<close>

record BatchFilter =
  bf_Search :: string
  bf_GroupID :: int
  bf_Regex :: string
  bf_LastAuditedDays :: int

text \<open>\<open>compile\<close> is \<^verbatim>\<open>regexp.Compile\<close>: the matcher of a pattern, or the error.\<close>

definition ResolveBatch :: "(string \<Rightarrow> (string, string \<Rightarrow> bool) result) \<Rightarrow> int \<Rightarrow> BatchFilter \<Rightarrow> db \<Rightarrow> (string, int list) result" where
  "ResolveBatch compile org f d =
     (let rows = sort_key site_id (filter (\<lambda>s. site_archived s = None \<and> site_enabled s \<and> site_org s = org) (db_sites d));
          q = to_lower (trim_space (bf_Search f));
          hay = \<lambda>s. site_name s @ '' '' @ site_url s;
          keep = \<lambda>rx s. \<not> (0 < bf_GroupID f \<and> (case site_group s of None \<Rightarrow> 0 | Some g \<Rightarrow> g) \<noteq> bf_GroupID f) \<and>
                   \<not> (q \<noteq> '''' \<and> \<not> str_contains (to_lower (hay s)) q) \<and> rx (hay s)
      in if trim_space (bf_Regex f) \<noteq> '''' then
           (case compile (bf_Regex f) of
              Inl e \<Rightarrow> Inl (''invalid regex: '' @ e)
            | Inr rx \<Rightarrow> Inr (map site_id (filter (keep rx) rows)))
         else Inr (map site_id (filter (keep (\<lambda>_. True)) rows)))"

definition filterOwned :: "int \<Rightarrow> int list \<Rightarrow> db \<Rightarrow> int list" where
  "filterOwned org ids d = map site_id (filter (\<lambda>s. site_org s = org \<and> site_id s \<in> set ids) (db_sites d))"

text \<open>The goroutines of \<^verbatim>\<open>RunBatch\<close>, one per place of \<open>ids\<close>. \<open>batch_sem\<close> counts the free places of the semaphore, \<open>batch_live\<close>
  holds the running audits with the id of their row, \<open>batch_out\<close> the results.\<close>

record batch_state =
  batch_tables :: audit_tables
  batch_waiting :: "nat list"
  batch_live :: "(nat \<times> int \<times> string) list"
  batch_out :: "Result list"

definition auditConcurrency :: nat where "auditConcurrency = 2"

definition with_error :: "string \<Rightarrow> Result \<Rightarrow> Result" where
  "with_error e r = (if rs_Error r = '''' then r\<lparr>rs_Error := e\<rparr> else r)"

inductive batch_step :: "net_url \<Rightarrow> (duration \<Rightarrow> string) \<Rightarrow> BrowserRunner \<Rightarrow> db \<Rightarrow> int list \<Rightarrow> batch_state \<Rightarrow> batch_state \<Rightarrow> bool"
  for nu dtext br d ids where
  batch_begin: "k \<in> set (batch_waiting b) \<Longrightarrow> length (batch_live b) < auditConcurrency \<Longrightarrow>
    run_begin now (ids ! k) d (batch_tables b) = (Inr (i, url), t) \<Longrightarrow>
    batch_step nu dtext br d ids b (b\<lparr>batch_tables := t, batch_waiting := remove1 k (batch_waiting b), batch_live := (k, i, url) # batch_live b\<rparr>)"
| batch_missing: "k \<in> set (batch_waiting b) \<Longrightarrow> run_begin now (ids ! k) d (batch_tables b) = (Inl e, t) \<Longrightarrow>
    batch_step nu dtext br d ids b (b\<lparr>batch_waiting := remove1 k (batch_waiting b), batch_out := (batch_out b)[k := with_error e zero_result]\<rparr>)"
| batch_cancelled: "k \<in> set (batch_waiting b) \<Longrightarrow>
    batch_step nu dtext br d ids b (b\<lparr>batch_waiting := remove1 k (batch_waiting b), batch_out := (batch_out b)[k := with_error e zero_result]\<rparr>)"
| batch_finish: "(k, i, url) \<in> set (batch_live b) \<Longrightarrow> ans = BrowserRun nu dtext w br url \<Longrightarrow>
    run_finish now (ids ! k) i ans (batch_tables b) = (res, t) \<Longrightarrow>
    batch_step nu dtext br d ids b (b\<lparr>batch_tables := t, batch_live := remove1 (k, i, url) (batch_live b),
      batch_out := (batch_out b)[k := (case ans of Inl e \<Rightarrow> with_error e res | Inr _ \<Rightarrow> res)]\<rparr>)"

definition RunBatch :: "int \<Rightarrow> int list \<Rightarrow> db \<Rightarrow> audit_tables \<Rightarrow> int list \<times> batch_state" where
  "RunBatch org ids d t = (let ids = filterOwned org ids d
     in (ids, \<lparr>batch_tables = t, batch_waiting = [0..<length ids], batch_live = [], batch_out = replicate (length ids) zero_result\<rparr>))"


subsection \<open>Properties\<close>

lemma scoreRendered_bounds:
  "rs_Status (scoreRendered h ms u) = ''complete'' \<and> 20 \<le> rs_Performance (scoreRendered h ms u) \<and> rs_Performance (scoreRendered h ms u) \<le> 100 \<and>
   75 \<le> rs_Accessibility (scoreRendered h ms u) \<and> rs_Accessibility (scoreRendered h ms u) \<le> 100 \<and>
   85 \<le> rs_BestPractices (scoreRendered h ms u) \<and> rs_BestPractices (scoreRendered h ms u) \<le> 100 \<and>
   65 \<le> rs_Discoverability (scoreRendered h ms u) \<and> rs_Discoverability (scoreRendered h ms u) \<le> 100 \<and>
   length (rs_Findings (scoreRendered h ms u)) \<le> 5"
  unfolding scoreRendered_def Let_def by simp

lemma captured_bound: "length (captured n out) \<le> nat n"
proof -
  have "length (fold (\<lambda>data buf. snd (buffer_write n data buf)) out buf) \<le> n" if "length buf \<le> n" for n out buf
    using that by (induction out arbitrary: buf) (auto simp: buffer_write_def Let_def)
  then show ?thesis by (simp add: captured_def)
qed

lemma BrowserRun_score: "BrowserRun nu dtext w b raw = Inr r \<Longrightarrow> \<exists>h. r = scoreRendered h (bw_ms w) raw"
  by (auto simp: BrowserRun_def Let_def split: option.splits sum.splits browser_exit.splits)

lemma store_outcome_simps [simp]:
  "rs_ID (store_outcome res r) = rs_ID r" "rs_SiteID (store_outcome res r) = rs_SiteID r" "rs_Status (store_outcome res r) = rs_Status res"
  by (simp_all add: store_outcome_def)

lemma run_outcome_status: "rs_Status (run_outcome now sid i (BrowserRun nu dtext w b url)) \<in> {''complete'', ''failed''}"
proof (cases "BrowserRun nu dtext w b url")
  case (Inr r)
  then have "rs_Status r = ''complete''" using BrowserRun_score [OF Inr] scoreRendered_bounds by blast
  with Inr show ?thesis by (simp add: run_outcome_def)
qed (simp add: run_outcome_def)

text \<open>A finished run changes its own row and deletes only rows of its site.\<close>

lemma run_finish_runs:
  assumes "run_finish now sid i ans t = (res, t')"
  shows "res = run_outcome now sid i ans \<and> au_settings t' = au_settings t \<and>
    (\<exists>D. au_runs t' = del_where (\<lambda>r. D \<and> rs_SiteID r = sid \<and> rs_ID r \<noteq> i) (upd_where (\<lambda>r. rs_ID r = i) (store_outcome res) (au_runs t)))"
proof -
  let ?t = "t\<lparr>au_runs := upd_where (\<lambda>r. rs_ID r = i) (store_outcome (run_outcome now sid i ans)) (au_runs t)\<rparr>"
  define D where "D \<longleftrightarrow> \<not> HistoryEnabled sid ?t \<and> rs_Status (run_outcome now sid i ans) \<noteq> ''running''"
  have none: "del_where (\<lambda>r. False) rs = rs" for rs :: "Result list" by (simp add: del_where_def)
  have "(res, t') = (run_outcome now sid i ans, if D then ?t\<lparr>au_runs := del_where (\<lambda>r. rs_SiteID r = sid \<and> rs_ID r \<noteq> i) (au_runs ?t)\<rparr> else ?t)"
    unfolding assms [symmetric] run_finish_def Let_def D_def ..
  then have res: "res = run_outcome now sid i ans"
    and t': "t' = (if D then ?t\<lparr>au_runs := del_where (\<lambda>r. rs_SiteID r = sid \<and> rs_ID r \<noteq> i) (au_runs ?t)\<rparr> else ?t)" by simp_all
  have "au_runs t' = del_where (\<lambda>r. D \<and> rs_SiteID r = sid \<and> rs_ID r \<noteq> i) (upd_where (\<lambda>r. rs_ID r = i) (store_outcome res) (au_runs t))"
    by (cases D) (simp_all add: t' res none)
  moreover have "au_settings t' = au_settings t" by (cases D) (simp_all add: t')
  ultimately show ?thesis using res by blast
qed

lemma filter_finish:
  assumes "sid \<in> S" "\<forall>r \<in> set rs. rs_ID r = i \<longrightarrow> rs_SiteID r = sid"
  shows "filter (\<lambda>r. rs_SiteID r \<notin> S) (del_where (\<lambda>r. D \<and> rs_SiteID r = sid \<and> rs_ID r \<noteq> i) (upd_where (\<lambda>r. rs_ID r = i) (store_outcome res) rs)) =
    filter (\<lambda>r. rs_SiteID r \<notin> S) rs"
  using assms by (induction rs) (auto simp: del_where_def upd_where_def)

lemma run_begin_Inr:
  "run_begin now sid d t = (Inr (i, url), t') \<longleftrightarrow>
     (\<exists>s. first_row (\<lambda>s. site_id s = sid \<and> site_archived s = None) (db_sites d) = Some s \<and> url = site_url s \<and>
       i = fresh_id (map rs_ID (au_runs t)) \<and> t' = t\<lparr>au_runs := au_runs t @ [zero_result\<lparr>rs_ID := i, rs_SiteID := sid, rs_Status := ''running'',
                rs_CreatedAt := format_nano now, rs_StartedAt := format_nano now\<rparr>]\<rparr>)"
  by (auto simp: run_begin_def Let_def split: option.splits)

text \<open>The state of a batch over the sites \<open>ids\<close> started on the tables \<open>t0\<close>: at most two audits run; every place is waiting, running or
  done; the row of a running audit belongs to its site; the rows of other sites are those of \<open>t0\<close>; and a row that is marked running was so
  before or belongs to a running audit.\<close>

definition batch_inv :: "audit_tables \<Rightarrow> int list \<Rightarrow> batch_state \<Rightarrow> bool" where
  "batch_inv t0 ids b \<longleftrightarrow> length (batch_live b) \<le> auditConcurrency \<and> distinct (batch_waiting b @ map fst (batch_live b)) \<and>
     set (batch_waiting b @ map fst (batch_live b)) \<subseteq> {0..<length ids} \<and> length (batch_out b) = length ids \<and>
     distinct (map rs_ID (au_runs (batch_tables b))) \<and>
     (\<forall>(k, i, url) \<in> set (batch_live b). \<exists>r \<in> set (au_runs (batch_tables b)). rs_ID r = i \<and> rs_SiteID r = ids ! k) \<and>
     filter (\<lambda>r. rs_SiteID r \<notin> set ids) (au_runs (batch_tables b)) = filter (\<lambda>r. rs_SiteID r \<notin> set ids) (au_runs t0) \<and>
     (\<forall>r \<in> set (au_runs (batch_tables b)). rs_Status r = ''running'' \<longrightarrow>
        rs_ID r \<in> rs_ID ` {r \<in> set (au_runs t0). rs_Status r = ''running''} \<union> (\<lambda>(k, i, url). i) ` set (batch_live b))"


lemma batch_inv_start:
  "distinct (map rs_ID (au_runs t)) \<Longrightarrow> batch_inv t (filterOwned org ids d) (snd (RunBatch org ids d t))"
  by (auto simp: batch_inv_def RunBatch_def Let_def)

lemma batch_begin_inv:
  assumes "k \<in> set (batch_waiting b)" "length (batch_live b) < auditConcurrency" "run_begin now (ids ! k) d (batch_tables b) = (Inr (i, url), t)"
    and inv: "batch_inv t0 ids b"
  shows "batch_inv t0 ids (b\<lparr>batch_tables := t, batch_waiting := remove1 k (batch_waiting b), batch_live := (k, i, url) # batch_live b\<rparr>)"
proof -
  let ?r = "zero_result\<lparr>rs_ID := i, rs_SiteID := ids ! k, rs_Status := ''running'', rs_CreatedAt := format_nano now, rs_StartedAt := format_nano now\<rparr>"
  from assms(3) have i: "i = fresh_id (map rs_ID (au_runs (batch_tables b)))" and t: "au_runs t = au_runs (batch_tables b) @ [?r]"
    by (auto simp: run_begin_Inr)
  have fresh: "i \<notin> rs_ID ` set (au_runs (batch_tables b))"
    using fresh_id_notin [of "map rs_ID (au_runs (batch_tables b))"] i by simp
  have k: "k < length ids" "ids ! k \<in> set ids" using assms(1) inv by (auto simp: batch_inv_def)
  have "set (remove1 k (batch_waiting b)) = set (batch_waiting b) - {k}" "distinct (remove1 k (batch_waiting b))"
    using inv by (simp_all add: batch_inv_def set_remove1_eq)
  moreover have "k \<notin> fst ` set (batch_live b)" using assms(1) inv by (auto simp: batch_inv_def)
  ultimately show ?thesis using inv fresh k assms(2) unfolding batch_inv_def by (simp add: t case_prod_beta) blast
qed

lemma batch_finish_inv:
  assumes "(k, i, url) \<in> set (batch_live b)" "run_finish now (ids ! k) i (BrowserRun nu dtext w br url) (batch_tables b) = (res, t)"
    and inv: "batch_inv t0 ids b" and dist: "distinct ids"
  shows "batch_inv t0 ids (b\<lparr>batch_tables := t, batch_live := remove1 (k, i, url) (batch_live b), batch_out := (batch_out b)[k := x]\<rparr>)"
proof -
  let ?rs = "au_runs (batch_tables b)"
  obtain D where D: "au_runs t = del_where (\<lambda>r. D \<and> rs_SiteID r = ids ! k \<and> rs_ID r \<noteq> i) (upd_where (\<lambda>r. rs_ID r = i) (store_outcome res) ?rs)"
    and res: "res = run_outcome now (ids ! k) i (BrowserRun nu dtext w br url)" using run_finish_runs [OF assms(2)] by blast
  have running: "rs_Status res \<noteq> ''running''" using run_outcome_status [of now "ids ! k" i nu dtext w br url] res by auto
  have k: "k < length ids" "ids ! k \<in> set ids" using assms(1) inv by (force simp: batch_inv_def)+
  have dl: "distinct (map fst (batch_live b))" "distinct (batch_live b)" using inv by (auto simp: batch_inv_def distinct_map)
  have owner: "\<forall>r \<in> set ?rs. rs_ID r = i \<longrightarrow> rs_SiteID r = ids ! k"
  proof -
    from inv have "distinct (map rs_ID ?rs)" "\<forall>(k, i, url) \<in> set (batch_live b). \<exists>r \<in> set ?rs. rs_ID r = i \<and> rs_SiteID r = ids ! k"
      unfolding batch_inv_def by blast+
    moreover from this(2) assms(1) obtain q where "q \<in> set ?rs" "rs_ID q = i" "rs_SiteID q = ids ! k" by fast
    ultimately show ?thesis using distinct_map_inj [of rs_ID ?rs] by metis
  qed
  have live: "set (remove1 (k, i, url) (batch_live b)) = set (batch_live b) - {(k, i, url)}" using dl(2) by (rule set_remove1_eq)
  have len: "length (remove1 (k, i, url) (batch_live b)) \<le> auditConcurrency"
    using inv length_remove1 [of "(k, i, url)" "batch_live b"] by (simp add: batch_inv_def split: if_splits)
  have dist_live: "distinct (batch_waiting b @ map fst (remove1 (k, i, url) (batch_live b)))"
    using inv dl live by (auto simp: batch_inv_def distinct_map intro: inj_on_subset)
  have ids: "distinct (map rs_ID (au_runs t))" using inv unfolding D by (intro distinct_del_where) (simp add: map_upd_where_same batch_inv_def)
  have others: "\<exists>r \<in> set (au_runs t). rs_ID r = i' \<and> rs_SiteID r = ids ! k'" if "(k', i', u') \<in> set (batch_live b) - {(k, i, url)}" for k' i' u'
  proof -
    from that inv obtain r where r: "r \<in> set ?rs" "rs_ID r = i'" "rs_SiteID r = ids ! k'" by (fastforce simp: batch_inv_def)
    have "k' \<noteq> k"
    proof
      assume "k' = k"
      then have "(k', i', u') = (k, i, url)" using that assms(1) by (intro distinct_map_inj [OF dl(1)]) simp_all
      with that show False by blast
    qed
    moreover have "k' \<in> fst ` set (batch_live b)" using that by force
    then have "k' < length ids" using inv unfolding batch_inv_def set_append set_map by auto
    ultimately have "ids ! k' \<noteq> ids ! k" using dist k(1) by (simp add: nth_eq_iff_index_eq)
    with r owner have "rs_ID r \<noteq> i" by auto
    with r \<open>ids ! k' \<noteq> ids ! k\<close> have "r \<in> set (au_runs t)" by (auto simp: D set_upd_where)
    with r show ?thesis by blast
  qed
  have run: "rs_ID r \<in> rs_ID ` {r \<in> set (au_runs t0). rs_Status r = ''running''} \<union> (\<lambda>(k, i, url). i) ` (set (batch_live b) - {(k, i, url)})"
    if "r \<in> set (au_runs t)" "rs_Status r = ''running''" for r
  proof -
    from that(1) obtain q where q: "q \<in> set ?rs" "r = (if rs_ID q = i then store_outcome res q else q)" by (auto simp: D upd_where_def)
    have "rs_ID q \<noteq> i" using q(2) that(2) running by (metis store_outcome_simps(3))
    with q have r: "r \<in> set ?rs" "rs_ID r \<noteq> i" by simp_all
    with that(2) inv have "rs_ID r \<in> rs_ID ` {r \<in> set (au_runs t0). rs_Status r = ''running''} \<union> (\<lambda>(k, i, url). i) ` set (batch_live b)"
      unfolding batch_inv_def by blast
    moreover have "i' \<in> (\<lambda>(k, i, url). i) ` (set (batch_live b) - {(k, i, url)})" if i': "i' \<in> (\<lambda>(k, i, url). i) ` set (batch_live b)" "i' \<noteq> i" for i'
    proof -
      from i'(1) obtain k2 u2 where "(k2, i', u2) \<in> set (batch_live b)" by auto
      with i'(2) have "(k2, i', u2) \<in> set (batch_live b) - {(k, i, url)}" by blast
      then show ?thesis by (rule rev_image_eqI) simp
    qed
    ultimately show ?thesis using r(2) by blast
  qed
  have "filter (\<lambda>r. rs_SiteID r \<notin> set ids) (au_runs t) = filter (\<lambda>r. rs_SiteID r \<notin> set ids) ?rs"
    unfolding D by (rule filter_finish [OF k(2) owner])
  moreover have "\<forall>(k', i', u') \<in> set (remove1 (k, i, url) (batch_live b)). \<exists>r \<in> set (au_runs t). rs_ID r = i' \<and> rs_SiteID r = ids ! k'"
    using others live by blast
  moreover have "set (batch_waiting b @ map fst (remove1 (k, i, url) (batch_live b))) \<subseteq> {0..<length ids}"
    using inv live unfolding batch_inv_def by auto
  moreover have "\<forall>r \<in> set (au_runs t). rs_Status r = ''running'' \<longrightarrow> rs_ID r \<in> rs_ID ` {r \<in> set (au_runs t0). rs_Status r = ''running''} \<union>
      (\<lambda>(k, i, url). i) ` set (remove1 (k, i, url) (batch_live b))" using run live by blast
  moreover have "length (batch_out b) = length ids" "filter (\<lambda>r. rs_SiteID r \<notin> set ids) ?rs = filter (\<lambda>r. rs_SiteID r \<notin> set ids) (au_runs t0)"
    using inv unfolding batch_inv_def by blast+
  ultimately show ?thesis using len dist_live ids unfolding batch_inv_def by simp
qed

lemma batch_drop_inv:
  "batch_inv t0 ids b \<Longrightarrow> batch_inv t0 ids (b\<lparr>batch_waiting := remove1 k (batch_waiting b), batch_out := (batch_out b)[j := x]\<rparr>)"
  unfolding batch_inv_def by (auto dest: notin_set_remove1 set_remove1_subset [THEN subsetD])

lemma batch_step_inv:
  assumes "batch_step nu dtext br d ids b b'" "batch_inv t0 ids b" "distinct ids"
  shows "batch_inv t0 ids b'"
  using assms by (induction rule: batch_step.induct) (auto intro: batch_begin_inv batch_finish_inv batch_drop_inv)

lemma remove1_length: "x \<in> set xs \<Longrightarrow> Suc (length (remove1 x xs)) = length xs"
  using length_pos_if_in_set [of x xs] by (simp add: length_remove1)

text \<open>C33. A batch of audits stays within its organization and its limits under every schedule of its goroutines: at most two browsers run
  at a time, the audit rows of sites outside the organization are never touched, every step brings the batch closer to its end, and when
  nothing waits or runs any more every site of the batch has its result and the batch leaves no row marked as running.\<close>

theorem batch_contained:
  assumes "db_ok d" "distinct (map rs_ID (au_runs t))" "RunBatch org ids d t = (owned, b0)"
    and "(batch_step nu dtext br d owned)\<^sup>*\<^sup>* b0 b"
  shows "length (batch_live b) \<le> auditConcurrency \<and> length (batch_out b) = length owned \<and>
    (\<forall>s \<in> set (db_sites d). site_id s \<in> set owned \<longrightarrow> site_org s = org) \<and>
    filter (\<lambda>r. rs_SiteID r \<notin> set owned) (au_runs (batch_tables b)) = filter (\<lambda>r. rs_SiteID r \<notin> set owned) (au_runs t) \<and>
    (\<forall>b'. batch_step nu dtext br d owned b b' \<longrightarrow>
       2 * length (batch_waiting b') + length (batch_live b') < 2 * length (batch_waiting b) + length (batch_live b)) \<and>
    (batch_live b = [] \<longrightarrow> rs_ID ` {r \<in> set (au_runs (batch_tables b)). rs_Status r = ''running''} \<subseteq>
       rs_ID ` {r \<in> set (au_runs t). rs_Status r = ''running''})"
proof -
  have sites: "distinct (map site_id (db_sites d))" using assms(1) by (simp add: db_ok_def sites_ok_def)
  have ow: "owned = filterOwned org ids d" "b0 = snd (RunBatch org ids d t)" using assms(3) by (auto simp: RunBatch_def Let_def)
  have dist: "distinct owned" using sites by (simp add: ow filterOwned_def distinct_map_filter)
  have "batch_inv t owned b0" using batch_inv_start [OF assms(2)] ow by simp
  with assms(4) have inv: "batch_inv t owned b" by (induction rule: rtranclp_induct) (auto intro: batch_step_inv dist)
  have "2 * length (batch_waiting b') + length (batch_live b') < 2 * length (batch_waiting b) + length (batch_live b)"
    if "batch_step nu dtext br d owned b b'" for b'
    using that
  proof cases
    case (batch_begin k now i url t)
    then show ?thesis using remove1_length [of k "batch_waiting b"] by simp
  next
    case (batch_missing k now e t)
    then show ?thesis using remove1_length [of k "batch_waiting b"] by simp
  next
    case (batch_cancelled k e)
    then show ?thesis using remove1_length [of k "batch_waiting b"] by simp
  next
    case (batch_finish k i url ans w now res t)
    then show ?thesis using remove1_length [of "(k, i, url)" "batch_live b"] by simp
  qed
  moreover have "\<forall>s \<in> set (db_sites d). site_id s \<in> set owned \<longrightarrow> site_org s = org"
    using distinct_map_inj [OF sites] by (auto simp: ow filterOwned_def)
  moreover have "rs_ID ` {r \<in> set (au_runs (batch_tables b)). rs_Status r = ''running''} \<subseteq> rs_ID ` {r \<in> set (au_runs t). rs_Status r = ''running''}"
    if "batch_live b = []" using inv that unfolding batch_inv_def by force
  ultimately show ?thesis using inv unfolding batch_inv_def by blast
qed

text \<open>Scores and captured output are bounded: whatever the page and however long the browser takes, an audit that completes has every
  score within its range and at most five findings, and no more of the browser's output is kept than the limit.\<close>

theorem audit_bounded:
  assumes "BrowserRun nu dtext w b raw = Inr r"
  shows "rs_Status r = ''complete'' \<and> rs_Performance r \<in> {20..100} \<and> rs_Accessibility r \<in> {75..100} \<and> rs_BestPractices r \<in> {85..100} \<and>
    rs_Discoverability r \<in> {65..100} \<and> length (rs_Findings r) \<le> 5 \<and> rs_URL r = raw \<and>
    length (captured (br_MaxOutput (normalized b)) out) \<le> nat (br_MaxOutput (normalized b))"
proof -
  obtain h where h: "r = scoreRendered h (bw_ms w) raw" using BrowserRun_score [OF assms] by blast
  have "rs_URL r = raw" unfolding h scoreRendered_def Let_def by simp
  with h scoreRendered_bounds [of h "bw_ms w" raw] captured_bound show ?thesis by simp
qed

definition sample_audit_net :: net_url where
  "sample_audit_net = \<lparr>nu_parse = (\<lambda>_. Some \<lparr>gu_scheme = ''https'', gu_user = False, gu_host = ''shop.example'', gu_path = '''', gu_query = '''',
     gu_fragment = '''', gu_rest = ''''\<rparr>), nu_string = (\<lambda>_. ''''), nu_resolve = (\<lambda>a b. b)\<rparr>"

definition sample_browser :: browser_world where
  "sample_browser = \<lparr>bw_guard = sample_guard, bw_binary = Some ''chromium'', bw_proxy = Inr ''127.0.0.1:1'',
     bw_exit = (\<lambda>_. Rendered [''<html lang=>'', ''<title>'']), bw_ms = 700\<rparr>"

theorem audit_bounded_witness:
  "\<exists>r. BrowserRun sample_audit_net (\<lambda>_. '''') sample_browser \<lparr>br_Binary = '''', br_Sandbox = '''', br_Timeout = 0, br_MaxOutput = 0\<rparr> ''https://shop.example'' = Inr r \<and>
     rs_Status r = ''complete'' \<and> rs_Performance r = 86"
proof -
  let ?b = "\<lparr>br_Binary = '''', br_Sandbox = '''', br_Timeout = 0, br_MaxOutput = 0\<rparr>"
  have h: "url_Hostname \<lparr>gu_scheme = ''https'', gu_user = False, gu_host = ''shop.example'', gu_path = '''', gu_query = '''', gu_fragment = '''', gu_rest = ''''\<rparr> = ''shop.example''"
    by (simp add: url_Hostname_def last_colon_def strip_brackets_def has_prefix_def)
  obtain html where r: "BrowserRun sample_audit_net (\<lambda>_. '''') sample_browser ?b ''https://shop.example'' = Inr (scoreRendered html 700 ''https://shop.example'')"
    by (simp add: BrowserRun_def Let_def normalized_def sample_audit_net_def sample_browser_def h sample_valid)
  have "rs_Performance (scoreRendered html 700 ''https://shop.example'') = 86"
    unfolding scoreRendered_def Let_def by (simp add: go_div_nonneg)
  with r audit_bounded [OF r, of "[]"] show ?thesis by blast
qed

definition sample_audit_db :: db where
  "sample_audit_db = init_db\<lparr>db_sites := [\<lparr>site_id = 7, site_org = 1, site_name = ''s'', site_url = ''https://shop.example'', site_enabled = True,
     site_group = None, site_archived = None, site_created = '''', site_updated = '''', site_cluster = None\<rparr>]\<rparr>"

theorem batch_contained_witness:
  "\<exists>owned b0 b. RunBatch 1 [7, 8] sample_audit_db \<lparr>au_runs = [], au_settings = []\<rparr> = (owned, b0) \<and> owned = [7] \<and>
     (batch_step sample_audit_net (\<lambda>_. '''') \<lparr>br_Binary = '''', br_Sandbox = '''', br_Timeout = 0, br_MaxOutput = 0\<rparr> sample_audit_db owned)\<^sup>*\<^sup>* b0 b \<and>
     map rs_Status (au_runs (batch_tables b)) = [''running''] \<and> length (batch_live b) \<le> auditConcurrency"
proof -
  let ?br = "\<lparr>br_Binary = '''', br_Sandbox = '''', br_Timeout = 0, br_MaxOutput = 0\<rparr>" and ?t = "\<lparr>au_runs = [], au_settings = []\<rparr>"
  define b0 where "b0 = \<lparr>batch_tables = ?t, batch_waiting = [0], batch_live = [], batch_out = [zero_result]\<rparr>"
  have run: "RunBatch 1 [7, 8] sample_audit_db ?t = ([7], b0)"
    by (simp add: RunBatch_def filterOwned_def sample_audit_db_def b0_def)
  obtain i url t where beg: "run_begin 0 ([7] ! 0) sample_audit_db (batch_tables b0) = (Inr (i, url), t)" "map rs_Status (au_runs t) = [''running'']"
    by (simp add: run_begin_def sample_audit_db_def b0_def Let_def)
  let ?b = "b0\<lparr>batch_tables := t, batch_waiting := remove1 0 (batch_waiting b0), batch_live := (0, i, url) # batch_live b0\<rparr>"
  have "batch_step sample_audit_net (\<lambda>_. '''') ?br sample_audit_db [7] b0 ?b"
    by (rule batch_begin [OF _ _ beg(1)]) (simp_all add: b0_def auditConcurrency_def)
  then have steps: "(batch_step sample_audit_net (\<lambda>_. '''') ?br sample_audit_db [7])\<^sup>*\<^sup>* b0 ?b" by (rule r_into_rtranclp)
  have "db_ok sample_audit_db" by (simp add: sample_audit_db_def db_ok_def table_ok_defs init_db_def)
  from batch_contained [OF this _ run steps] have "length (batch_live ?b) \<le> auditConcurrency" by simp
  with run steps beg(2) show ?thesis by (intro exI [of _ "[7]"] exI [of _ b0] exI [of _ ?b]) simp
qed

end
