(* ===== verification/Maintenance.thy ===== *)
theory Maintenance
  imports Reports Site_Audit
begin

text \<open>
  Retention, \<^verbatim>\<open>internal/maintenance/maintenance.go\<close>: the settings row, the run that deletes old check results, raw analytics events
  and audit runs, and the status report. Each cut-off reads the clock again.
\<close>

record retention =
  rt_CheckDays :: int
  rt_AnalyticsRawDays :: int
  rt_AuditDays :: int

text \<open>The row of migration 16.\<close>

definition default_retention :: retention where
  "default_retention = \<lparr>rt_CheckDays = 90, rt_AnalyticsRawDays = 30, rt_AuditDays = 180\<rparr>"

text \<open>The row with id 1, if there is one.\<close>

definition RetentionSettings :: "retention option \<Rightarrow> retention" where
  "RetentionSettings row = (case row of None \<Rightarrow> \<lparr>rt_CheckDays = 0, rt_AnalyticsRawDays = 0, rt_AuditDays = 0\<rparr> | Some v \<Rightarrow> v)"

definition SetRetention :: "retention \<Rightarrow> retention option \<Rightarrow> (string, unit) result \<times> retention option" where
  "SetRetention v row =
     (if rt_CheckDays v < 7 \<or> rt_AnalyticsRawDays v < 1 \<or> rt_AuditDays v < 1
      then (Inl ''retention values are below safe minimums'', row) else (Inr (), map_option (\<lambda>_. v) row))"

text \<open>\<^verbatim>\<open>DELETE FROM check_results\<close>: observations go with their check, and the health rows lose the reference.\<close>

definition delete_checks :: "(check_row \<Rightarrow> bool) \<Rightarrow> db \<Rightarrow> db" where
  "delete_checks P d =
     (let gone = map chk_id (filter P (db_checks d))
      in d\<lparr>db_checks := del_where P (db_checks d),
           db_http_obs := del_where (\<lambda>x. ho_check x \<in> set gone) (db_http_obs d),
           db_health := upd_where (\<lambda>h. \<exists>c \<in> set gone. hl_last_check h = Some c) (\<lambda>h. h\<lparr>hl_last_check := None\<rparr>) (db_health d)\<rparr>)"

definition cutoff :: "instant \<Rightarrow> int \<Rightarrow> string" where
  "cutoff now days = format_nano (now - days * (24 * hour))"

definition purge_audits :: "string \<Rightarrow> audit_tables \<Rightarrow> audit_tables" where
  "purge_audits before t = t\<lparr>au_runs := del_where (\<lambda>r. rs_CreatedAt r < before \<and> (\<exists>(s, on) \<in> set (au_settings t). s = rs_SiteID r \<and> on)) (au_runs t)\<rparr>"

definition MaintenanceRun :: "instant \<Rightarrow> instant \<Rightarrow> instant \<Rightarrow> retention option \<Rightarrow> db \<Rightarrow> an_tables \<Rightarrow> audit_tables \<Rightarrow> db \<times> an_tables \<times> audit_tables" where
  "MaintenanceRun n1 n2 n3 row d t u =
     (let v = RetentionSettings row
      in (delete_checks (\<lambda>c. chk_at c < cutoff n1 (rt_CheckDays v)) d, purge_events (cutoff n2 (rt_AnalyticsRawDays v)) t,
          purge_audits (cutoff n3 (rt_AuditDays v)) u))"

record MStatus =
  ms_Settings :: retention
  ms_DatabaseBytes :: int
  ms_Checks :: int
  ms_AnalyticsEvents :: int
  ms_AuditRuns :: int

text \<open>\<open>bytes\<close> is the size of the database file, when the store is a SQLite file that can be read.\<close>

definition MaintenanceStatus :: "int option \<Rightarrow> retention option \<Rightarrow> db \<Rightarrow> an_tables \<Rightarrow> audit_tables \<Rightarrow> MStatus" where
  "MaintenanceStatus bytes row d t u =
     \<lparr>ms_Settings = RetentionSettings row, ms_DatabaseBytes = (case bytes of None \<Rightarrow> 0 | Some n \<Rightarrow> n), ms_Checks = int (length (db_checks d)),
      ms_AnalyticsEvents = int (length (an_events t)), ms_AuditRuns = int (length (au_runs u))\<rparr>"

lemma delete_checks_ok:
  assumes "db_ok d"
  shows "db_ok (delete_checks P d)"
proof -
  define gone where "gone = set (map chk_id (filter P (db_checks d)))"
  have "x \<in> set (map chk_id (db_checks d)) \<Longrightarrow> x \<notin> gone \<Longrightarrow> x \<in> set (map chk_id (del_where P (db_checks d)))" for x
    by (auto simp: gone_def)
  then have "http_obs_ok (set (site_ids d)) (set (map chk_id (del_where P (db_checks d)))) (del_where (\<lambda>x. ho_check x \<in> gone) (db_http_obs d))"
    using assms unfolding db_ok_def http_obs_ok_def by simp
  moreover have "checks_ok (set (site_ids d)) (set (map mon_id (db_monitors d))) (del_where P (db_checks d))"
    using assms unfolding db_ok_def checks_ok_def by simp
  moreover have "health_ok (set (site_ids d)) (upd_where (\<lambda>h. \<exists>c \<in> gone. hl_last_check h = Some c) (\<lambda>h. h\<lparr>hl_last_check := None\<rparr>) (db_health d))"
    using assms by (auto simp: db_ok_def health_ok_def map_upd_where_same set_upd_where)
  ultimately show ?thesis using assms unfolding db_ok_def delete_checks_def Let_def gone_def by simp
qed

text \<open>What any sequence of settings requests leaves in the settings row.\<close>

fun set_all :: "retention list \<Rightarrow> retention option \<Rightarrow> retention option" where
  "set_all [] row = row"
| "set_all (v # vs) row = set_all vs (snd (SetRetention v row))"

lemma set_all_safe:
  "set_all vs (Some v) = Some v' \<Longrightarrow> 7 \<le> rt_CheckDays v \<and> 1 \<le> rt_AnalyticsRawDays v \<and> 1 \<le> rt_AuditDays v \<Longrightarrow>
   7 \<le> rt_CheckDays v' \<and> 1 \<le> rt_AnalyticsRawDays v' \<and> 1 \<le> rt_AuditDays v'"
  by (induction vs arbitrary: v) (auto simp: SetRetention_def split: if_splits)

lemma set_all_Some: "\<exists>v'. set_all vs (Some v) = Some v'"
  by (induction vs arbitrary: v) (auto simp: SetRetention_def)

lemma kept_by_cutoff:
  assumes "format_nano at < cutoff now days" "four_digit_year at" "four_digit_year (now - days * (24 * hour))" "k \<le> days"
  shows "at < now - k * (24 * hour) + second"
proof -
  have "format_nano at \<le> format_nano (now - days * (24 * hour))" using assms(1) by (simp add: cutoff_def)
  from format_nano_le_imp [OF this assms(2,3)] have "at < now - days * (24 * hour) + second" .
  moreover have "k * (24 * hour) \<le> days * (24 * hour)" using assms(4) by simp
  ultimately show ?thesis by linarith
qed



end
