(* ===== verification/Crawler.thy ===== *)
theory Crawler
  imports Monitor Url
begin

text \<open>
  The site crawler, \<^verbatim>\<open>internal/crawler/crawler.go\<close>. A crawl makes its requests at different stages (\<open>stage\<close>); no request is made twice
  at the same stage, so the network is a function of stage, method and URL. What the package's regular expressions find in a document
  is the record \<open>html_scan\<close>. Row ids within one run follow the order of insertion, so the page and link rows of a run are lists.
  A URL of the queue that does not parse makes the program dereference a nil pointer: the loop then yields \<open>None\<close>.
\<close>

definition MaxPages :: nat where "MaxPages = 500"
definition MaxDepth :: nat where "MaxDepth = 8"
definition MaxLinksPerPage :: nat where "MaxLinksPerPage = 1000"
definition MaxExternalChecks :: nat where "MaxExternalChecks = 20"
definition MaxBodyBytes :: nat where "MaxBodyBytes = 2 * 2 ^ 20"

record CrawlRun =
  crn_ID :: int
  crn_SiteID :: int
  crn_Status :: string
  crn_PagesCrawled :: int
  crn_PagesDiscovered :: int
  crn_PageLimit :: int
  crn_LimitReached :: bool
  crn_SitemapURLs :: int
  crn_CurrentURL :: string
  crn_PagesFailed :: int
  crn_CSSFiles :: int
  crn_JavaScriptFiles :: int
  crn_ImageFiles :: int
  crn_FontFiles :: int
  crn_MediaFiles :: int
  crn_DocumentFiles :: int
  crn_DataFeedFiles :: int
  crn_OtherAssetFiles :: int
  crn_InternalLinks :: int
  crn_ExternalLinks :: int
  crn_BrokenInternal :: int
  crn_BrokenExternal :: int
  crn_NewBroken :: int
  crn_RobotsFound :: bool
  crn_SitemapFound :: bool
  crn_Error :: string
  crn_StartedAt :: string
  crn_FinishedAt :: string

record Page =
  pg_URL :: string
  pg_StatusCode :: int
  pg_Depth :: nat
  pg_Error :: string
  pg_Kind :: string
  pg_AssetClass :: string
  pg_Origin :: string
  pg_OK :: bool

record Link =
  ln_FromURL :: string
  ln_ToURL :: string
  ln_Kind :: string
  ln_StatusCode :: int
  ln_Broken :: bool
  ln_Error :: string

record crawl_tables =
  ct_runs :: "CrawlRun list"
  ct_pages :: "(int \<times> Page) list" \<comment> \<open>with the id of the run\<close>
  ct_links :: "(int \<times> Link) list"

definition new_run :: "int \<Rightarrow> int \<Rightarrow> string \<Rightarrow> CrawlRun" where
  "new_run i sid started = \<lparr>crn_ID = i, crn_SiteID = sid, crn_Status = ''running'', crn_PagesCrawled = 0, crn_PagesDiscovered = 0, crn_PageLimit = 0,
     crn_LimitReached = False, crn_SitemapURLs = 0, crn_CurrentURL = '''', crn_PagesFailed = 0, crn_CSSFiles = 0, crn_JavaScriptFiles = 0,
     crn_ImageFiles = 0, crn_FontFiles = 0, crn_MediaFiles = 0, crn_DocumentFiles = 0, crn_DataFeedFiles = 0, crn_OtherAssetFiles = 0,
     crn_InternalLinks = 0, crn_ExternalLinks = 0, crn_BrokenInternal = 0, crn_BrokenExternal = 0, crn_NewBroken = 0, crn_RobotsFound = False,
     crn_SitemapFound = False, crn_Error = '''', crn_StartedAt = started, crn_FinishedAt = ''''\<rparr>"

subsection \<open>Requests\<close>

record fetchResult =
  fr_status :: int
  fr_body :: string
  fr_final :: string
  fr_header :: headers
  fr_err :: "string option"

definition failed_fetch :: "string \<Rightarrow> fetchResult" where
  "failed_fetch e = \<lparr>fr_status = 0, fr_body = '''', fr_final = '''', fr_header = [], fr_err = Some e\<rparr>"

text \<open>One request: the guard's resolver when the URL is validated, the redirects the servers send, the outcome, and whether reading the body
  fails.\<close>

record fetch_world =
  fw_guard :: Guard
  fw_hops :: "hop list"
  fw_end :: "(string, int \<times> string \<times> headers) result"
  fw_read :: "string option"

fun crawl_redirects :: "nat \<Rightarrow> hop list \<Rightarrow> string \<Rightarrow> (string, string) result" where
  "crawl_redirects via [] at = Inr at"
| "crawl_redirects via (h # hs) at =
     (if 8 \<le> via then Inl (url_error_text (hop_url h) ''too many redirects'')
      else case ValidateURL (hop_guard h) (hop_parsed h) of
        Inl e \<Rightarrow> Inl (url_error_text (hop_url h) e)
      | Inr _ \<Rightarrow> crawl_redirects (Suc via) hs (hop_url h))"

definition fetch :: "net_url \<Rightarrow> fetch_world \<Rightarrow> string \<Rightarrow> string \<Rightarrow> nat \<Rightarrow> fetchResult" where
  "fetch nu w method raw mx =
     (case nu_parse nu raw of
        None \<Rightarrow> failed_fetch ''parse''
      | Some u \<Rightarrow>
          (case ValidateURL (fw_guard w) \<lparr>u_scheme = gu_scheme u, u_hostname = url_Hostname u\<rparr> of
             Inl e \<Rightarrow> failed_fetch e
           | Inr _ \<Rightarrow>
               (case crawl_redirects 1 (fw_hops w) raw of
                  Inl e \<Rightarrow> failed_fetch e
                | Inr final \<Rightarrow>
                    (case fw_end w of
                       Inl e \<Rightarrow> failed_fetch (url_error_text final e)
                     | Inr (status, body, hdr) \<Rightarrow>
                         if method = ''HEAD'' then \<lparr>fr_status = status, fr_body = '''', fr_final = final, fr_header = hdr, fr_err = None\<rparr>
                         else (case fw_read w of
                                 Some e \<Rightarrow> (failed_fetch e)\<lparr>fr_status := status\<rparr>
                               | None \<Rightarrow> \<lparr>fr_status = status, fr_body = take mx body, fr_final = final, fr_header = hdr, fr_err = None\<rparr>)))))"

datatype stage = Robots | Sitemap nat | Visit | External

type_synonym network = "stage \<Rightarrow> string \<Rightarrow> string \<Rightarrow> fetch_world"

text \<open>What the regular expressions find: the contents of every \<^verbatim>\<open><loc>\<close>, the targets of \<^verbatim>\<open><a href>\<close>, the attribute texts of \<^verbatim>\<open><link>\<close> tags with
  the values of \<^verbatim>\<open>rel\<close> and \<^verbatim>\<open>href\<close> in them, the values of \<^verbatim>\<open>src\<close> and \<^verbatim>\<open>poster\<close>, and those of \<^verbatim>\<open>srcset\<close>.\<close>

record html_scan =
  hs_loc :: "string \<Rightarrow> string list"
  hs_a_href :: "string \<Rightarrow> string list"
  hs_link :: "string \<Rightarrow> string list"
  hs_rel :: "string \<Rightarrow> string option"
  hs_href :: "string \<Rightarrow> string option"
  hs_src :: "string \<Rightarrow> string list"
  hs_srcset :: "string \<Rightarrow> string list"

subsection \<open>Robots and sitemaps\<close>

definition robots_line :: "string \<Rightarrow> bool \<times> string list \<times> string list \<Rightarrow> bool \<times> string list \<times> string list" where
  "robots_line line = (\<lambda>(active, dis, maps).
     let line = trim_space (takeWhile (\<lambda>c. c \<noteq> CHR ''#'') line)
     in if CHR '':'' \<notin> set line then (active, dis, maps)
        else let k = to_lower (trim_space (takeWhile (\<lambda>c. c \<noteq> CHR '':'') line)); v = trim_space (tl (dropWhile (\<lambda>c. c \<noteq> CHR '':'') line))
             in if k = ''user-agent'' then (v = ''*'', dis, maps)
                else if k = ''disallow'' then (active, if active \<and> v \<noteq> '''' then dis @ [v] else dis, maps)
                else if k = ''sitemap'' then (active, dis, if v \<noteq> '''' then maps @ [v] else maps)
                else (active, dis, maps))"

definition parse_robots :: "string \<Rightarrow> string list \<times> string list" where
  "parse_robots body = snd (fold robots_line (split_char (CHR 0x0A) body) (False, [], []))"

definition loadRobots :: "net_url \<Rightarrow> network \<Rightarrow> go_url \<Rightarrow> string list \<times> bool \<times> string list" where
  "loadRobots nu net root =
     (let u = nu_string nu (root\<lparr>gu_path := ''/robots.txt'', gu_query := ''''\<rparr>);
          fr = fetch nu (net Robots ''GET'' u) ''GET'' u (256 * 1024)
      in if fr_err fr \<noteq> None \<or> fr_status fr \<noteq> 200 then ([], False, [])
         else let (dis, maps) = parse_robots (fr_body fr) in (dis, True, maps))"

definition same_host :: "go_url \<Rightarrow> go_url \<Rightarrow> bool" where
  "same_host u root = equal_fold (url_Hostname u) (url_Hostname root)"

definition loadSitemap :: "net_url \<Rightarrow> html_scan \<Rightarrow> network \<Rightarrow> nat \<Rightarrow> string \<Rightarrow> go_url \<Rightarrow> string list" where
  "loadSitemap nu hs net k raw root =
     (case nu_parse nu raw of
        None \<Rightarrow> []
      | Some u \<Rightarrow>
          if \<not> same_host u root then []
          else let s = nu_string nu u; fr = fetch nu (net (Sitemap k) ''GET'' s) ''GET'' s MaxBodyBytes
               in if fr_err fr \<noteq> None \<or> fr_status fr \<noteq> 200 then []
                  else List.map_filter (\<lambda>x. case nu_parse nu (trim_space x) of
                         None \<Rightarrow> None
                       | Some v \<Rightarrow> if same_host v root then Some (nu_string nu (v\<lparr>gu_fragment := ''''\<rparr>)) else None)
                       (take MaxPages (hs_loc hs (fr_body fr))))"

subsection \<open>Assets and links\<close>

definition assetClassByExt :: "(string \<times> string) list" where
  "assetClassByExt =
     map (\<lambda>e. (e, ''css'')) [''css'', ''scss'', ''sass''] @ map (\<lambda>e. (e, ''javascript'')) [''js'', ''mjs'', ''cjs''] @
     map (\<lambda>e. (e, ''image'')) [''png'', ''jpg'', ''jpeg'', ''gif'', ''webp'', ''svg'', ''ico'', ''avif'', ''bmp''] @
     map (\<lambda>e. (e, ''font'')) [''woff'', ''woff2'', ''ttf'', ''otf'', ''eot''] @
     map (\<lambda>e. (e, ''media'')) [''mp4'', ''mp3'', ''webm'', ''ogg'', ''mov'', ''m4a'', ''wav''] @
     map (\<lambda>e. (e, ''document'')) [''pdf'', ''zip'', ''tar'', ''gz'', ''7z'', ''rar'', ''doc'', ''docx'', ''xls'', ''xlsx'', ''ppt'', ''pptx'', ''epub''] @
     map (\<lambda>e. (e, ''data'')) [''json'', ''xml'', ''atom'', ''rss'', ''txt'', ''yaml'', ''yml'', ''toml'', ''webmanifest'']"

text \<open>\<^verbatim>\<open>path.Ext\<close>\<close>

definition path_Ext :: "string \<Rightarrow> string" where
  "path_Ext p = (let r = takeWhile (\<lambda>c. c \<noteq> CHR ''/'') (rev p)
     in if CHR ''.'' \<in> set r then CHR ''.'' # rev (takeWhile (\<lambda>c. c \<noteq> CHR ''.'') r) else '''')"

definition assetClass :: "go_url \<Rightarrow> string" where
  "assetClass u = (case map_of assetClassByExt (to_lower (trim_prefix (path_Ext (gu_path u)) ''.'')) of Some c \<Rightarrow> c | None \<Rightarrow> '''')"

definition isAsset :: "go_url \<Rightarrow> bool" where "isAsset u \<longleftrightarrow> assetClass u \<noteq> ''''"

definition isAssetLinkRel :: "string \<Rightarrow> bool" where
  "isAssetLinkRel rel = (let rel = to_lower rel in str_contains rel ''stylesheet'' \<or> str_contains rel ''icon'' \<or> str_contains rel ''manifest'' \<or>
     str_contains rel ''preload'' \<or> str_contains rel ''prefetch'' \<or> rel = ''mask-icon'')"

definition assetClassByContentType :: "string \<Rightarrow> string" where
  "assetClassByContentType ct =
     (let ct = to_lower ct
      in if str_contains ct ''text/css'' then ''css''
         else if str_contains ct ''javascript'' \<or> str_contains ct ''ecmascript'' then ''javascript''
         else if has_prefix ct ''image/'' then ''image''
         else if str_contains ct ''font'' then ''font''
         else if has_prefix ct ''audio/'' \<or> has_prefix ct ''video/'' then ''media''
         else if str_contains ct ''pdf'' \<or> str_contains ct ''zip'' \<or> str_contains ct ''octet-stream'' then ''document''
         else if str_contains ct ''json'' \<or> str_contains ct ''xml'' \<or> str_contains ct ''rss'' \<or> str_contains ct ''atom'' \<or>
                 str_contains ct ''text/plain'' \<or> str_contains ct ''text/csv'' then ''data''
         else ''other'')"

definition isTemplateLiteral :: "string \<Rightarrow> bool" where
  "isTemplateLiteral raw \<longleftrightarrow> CHR '' '' \<in> set raw \<or> CHR 0x09 \<in> set raw \<or> str_contains raw ''$['' \<or> str_contains raw ''@path('' \<or>
     str_contains raw ''{{'' \<or> str_contains raw ''{%''"

definition disallowed :: "string list \<Rightarrow> string \<Rightarrow> bool" where
  "disallowed rules path = list_ex (\<lambda>r. (r \<noteq> ''/'' \<and> has_prefix path r) \<or> r = ''/'') rules"

definition resolveURL :: "net_url \<Rightarrow> string \<Rightarrow> string \<Rightarrow> string option" where
  "resolveURL nu raw base =
     (case (nu_parse nu raw, nu_parse nu base) of
        (Some u, Some b) \<Rightarrow>
          let u = nu_resolve nu b u
          in if gu_scheme u \<noteq> ''http'' \<and> gu_scheme u \<noteq> ''https'' then None else Some (nu_string nu (u\<lparr>gu_fragment := ''''\<rparr>))
      | _ \<Rightarrow> None)"

text \<open>Appending what has not been seen yet, as both extractors do.\<close>

definition add_new :: "string option \<Rightarrow> string list \<Rightarrow> string list" where
  "add_new x out = (case x of None \<Rightarrow> out | Some y \<Rightarrow> if y \<in> set out then out else out @ [y])"

definition extractNavigationLinks :: "net_url \<Rightarrow> html_scan \<Rightarrow> string \<Rightarrow> string \<Rightarrow> string list" where
  "extractNavigationLinks nu hs body base =
     fold (\<lambda>m out. let raw = trim_space m in if isTemplateLiteral raw then out else add_new (resolveURL nu raw base) out) (hs_a_href hs body) []"

text \<open>\<^verbatim>\<open>strings.Fields(c)[0]\<close>\<close>

definition first_field :: "string \<Rightarrow> string option" where
  "first_field c = (let w = takeWhile (\<lambda>x. \<not> is_space x) (dropWhile is_space c) in if w = '''' then None else Some w)"

definition resource_refs :: "html_scan \<Rightarrow> string \<Rightarrow> string list" where
  "resource_refs hs body =
     concat (map (\<lambda>tag. if isAssetLinkRel (case hs_rel hs tag of None \<Rightarrow> '''' | Some r \<Rightarrow> r)
                   then (case hs_href hs tag of None \<Rightarrow> [] | Some h \<Rightarrow> [h]) else []) (hs_link hs body)) @
     hs_src hs body @ concat (map (\<lambda>m. List.map_filter first_field (split_char (CHR '','') m)) (hs_srcset hs body))"

definition extractResources :: "net_url \<Rightarrow> html_scan \<Rightarrow> string \<Rightarrow> string \<Rightarrow> string list" where
  "extractResources nu hs body base = fold (\<lambda>raw. add_new (resolveURL nu (trim_space raw) base)) (resource_refs hs body) []"

subsection \<open>The state of a crawl\<close>

record crawl =
  cw_queue :: "(string \<times> nat) list"
  cw_seen :: "string set"
  cw_known :: "string set"
  cw_discovered :: int
  cw_sitemapPages :: "string set"
  cw_internalPages :: "string set"
  cw_assets :: "(string \<times> string) list"
  cw_pages :: "Page list"
  cw_external :: "(string \<times> Link) list"
  cw_broken :: "string set"
  cw_sitemapFound :: bool
  cw_internalLinks :: int
  cw_externalLinks :: int
  cw_rows :: "Page list" \<comment> \<open>the rows of \<^verbatim>\<open>crawl_pages\<close> inserted for this run\<close>
  cw_linkRows :: "Link list"

definition start_crawl :: "string \<Rightarrow> crawl" where
  "start_crawl root = \<lparr>cw_queue = [(root, 0)], cw_seen = {}, cw_known = {root}, cw_discovered = 1, cw_sitemapPages = {}, cw_internalPages = {root},
     cw_assets = [], cw_pages = [], cw_external = [], cw_broken = {}, cw_sitemapFound = False, cw_internalLinks = 0, cw_externalLinks = 0,
     cw_rows = [], cw_linkRows = []\<rparr>"

definition enqueue :: "string \<Rightarrow> nat \<Rightarrow> crawl \<Rightarrow> crawl" where
  "enqueue u depth c = (if u \<in> cw_known c then c
     else c\<lparr>cw_known := insert u (cw_known c), cw_discovered := cw_discovered c + 1, cw_queue := cw_queue c @ [(u, depth)]\<rparr>)"

definition sitemap_url :: "net_url \<Rightarrow> string \<Rightarrow> crawl \<Rightarrow> crawl" where
  "sitemap_url nu u c =
     (if (case nu_parse nu u of None \<Rightarrow> False | Some pu \<Rightarrow> isAsset pu) then c
      else enqueue u 0 (c\<lparr>cw_sitemapPages := insert u (cw_sitemapPages c)\<rparr>))"

definition one_sitemap :: "net_url \<Rightarrow> html_scan \<Rightarrow> network \<Rightarrow> go_url \<Rightarrow> nat \<times> string \<Rightarrow> crawl \<Rightarrow> crawl" where
  "one_sitemap nu hs net root x c =
     (let urls = loadSitemap nu hs net (fst x) (snd x) root
      in if urls = [] then c else fold (sitemap_url nu) urls (c\<lparr>cw_sitemapFound := True\<rparr>))"

definition load_sitemaps :: "net_url \<Rightarrow> html_scan \<Rightarrow> network \<Rightarrow> go_url \<Rightarrow> string list \<Rightarrow> crawl \<Rightarrow> crawl" where
  "load_sitemaps nu hs net root sitemaps c = fold (one_sitemap nu hs net root) (zip [0..<length sitemaps] sitemaps) c"

definition asset_row :: "string \<Rightarrow> string \<Rightarrow> Page" where
  "asset_row u cls = \<lparr>pg_URL = u, pg_StatusCode = 0, pg_Depth = 0, pg_Error = '''', pg_Kind = ''asset'', pg_AssetClass = cls, pg_Origin = ''internal'', pg_OK = False\<rparr>"

definition add_asset :: "string \<Rightarrow> string \<Rightarrow> crawl \<Rightarrow> crawl" where
  "add_asset u cls c = (if u \<in> fst ` set (cw_assets c) then c
     else c\<lparr>cw_assets := cw_assets c @ [(u, cls)], cw_rows := cw_rows c @ [asset_row u cls]\<rparr>)"

definition put_link :: "string \<Rightarrow> Link \<Rightarrow> (string \<times> Link) list \<Rightarrow> (string \<times> Link) list" where
  "put_link k l m = (k, l) # filter (\<lambda>(k', _). k' \<noteq> k) m"

text \<open>One navigation link of the page \<open>from\<close> at depth \<open>depth\<close>.\<close>

definition visit_link :: "net_url \<Rightarrow> go_url \<Rightarrow> string \<Rightarrow> nat \<Rightarrow> string \<Rightarrow> crawl \<Rightarrow> crawl" where
  "visit_link nu root from depth target c =
     (case nu_parse nu target of
        None \<Rightarrow> c
      | Some tu \<Rightarrow>
          if url_Hostname tu = '''' then c
          else let internal = same_host tu root;
                   row = \<lparr>ln_FromURL = from, ln_ToURL = target, ln_Kind = (if internal then ''internal'' else ''external''), ln_StatusCode = 0,
                          ln_Broken = False, ln_Error = ''''\<rparr>;
                   c = (if internal then
                          let c = c\<lparr>cw_internalLinks := cw_internalLinks c + 1\<rparr>
                          in if isAsset tu then add_asset target (assetClass tu) c
                             else let c = c\<lparr>cw_internalPages := insert target (cw_internalPages c)\<rparr>
                                  in if depth < MaxDepth then enqueue target (Suc depth) c else c
                        else let c = c\<lparr>cw_externalLinks := cw_externalLinks c + 1\<rparr>
                             in if length (cw_external c) < MaxExternalChecks then c\<lparr>cw_external := put_link target row (cw_external c)\<rparr> else c)
               in c\<lparr>cw_linkRows := cw_linkRows c @ [row]\<rparr>)"

definition visit_resource :: "net_url \<Rightarrow> go_url \<Rightarrow> string \<Rightarrow> crawl \<Rightarrow> crawl" where
  "visit_resource nu root res c =
     (case nu_parse nu res of
        None \<Rightarrow> c
      | Some ru \<Rightarrow> if \<not> same_host ru root then c else add_asset res (if assetClass ru = '''' then ''other'' else assetClass ru) c)"

definition page_of :: "crawl \<Rightarrow> string \<Rightarrow> nat \<Rightarrow> fetchResult \<Rightarrow> Page" where
  "page_of c u depth fr =
     \<lparr>pg_URL = u, pg_StatusCode = fr_status fr, pg_Depth = depth, pg_Error = (case fr_err fr of None \<Rightarrow> '''' | Some e \<Rightarrow> e), pg_Kind = ''page'', pg_AssetClass = '''',
      pg_Origin = (if u \<in> cw_sitemapPages c then (if u \<in> cw_internalPages c then ''both'' else ''sitemap'') else ''internal''),
      pg_OK = (fr_err fr = None \<and> fr_status fr < 400)\<rparr>"

definition is_html :: "fetchResult \<Rightarrow> bool" where
  "is_html fr = (let ct = to_lower (header_get (fr_header fr) ''Content-Type'') in ct = '''' \<or> str_contains ct ''text/html'')"

text \<open>The body of the main loop once the URL \<open>u\<close> has been taken off the queue, marked seen and found allowed.\<close>

definition visit_page :: "net_url \<Rightarrow> html_scan \<Rightarrow> network \<Rightarrow> go_url \<Rightarrow> string \<Rightarrow> nat \<Rightarrow> crawl \<Rightarrow> crawl" where
  "visit_page nu hs net root u depth c =
     (let fr = fetch nu (net Visit ''GET'' u) ''GET'' u MaxBodyBytes
      in if \<not> is_html fr \<and> fr_err fr = None \<and> fr_status fr < 400 then
           let c = add_asset u (assetClassByContentType (header_get (fr_header fr) ''Content-Type'')) c
           in c\<lparr>cw_discovered := (if 0 < cw_discovered c then cw_discovered c - 1 else cw_discovered c)\<rparr>
         else let page = page_of c u depth fr; c = c\<lparr>cw_pages := cw_pages c @ [page], cw_rows := cw_rows c @ [page]\<rparr>
              in if \<not> pg_OK page then c\<lparr>cw_broken := insert u (cw_broken c)\<rparr>
                 else let links = take MaxLinksPerPage (extractNavigationLinks nu hs (fr_body fr) (fr_final fr));
                          c = fold (visit_link nu root u depth) links c
                      in fold (visit_resource nu root) (extractResources nu hs (fr_body fr) (fr_final fr)) c)"

lemma add_asset_keeps [simp]:
  "cw_pages (add_asset u cls c) = cw_pages c" "cw_queue (add_asset u cls c) = cw_queue c" "cw_known (add_asset u cls c) = cw_known c"
  "cw_seen (add_asset u cls c) = cw_seen c" "cw_sitemapPages (add_asset u cls c) = cw_sitemapPages c"
  "cw_broken (add_asset u cls c) = cw_broken c" "cw_discovered (add_asset u cls c) = cw_discovered c"
  by (simp_all add: add_asset_def)

lemma enqueue_keeps [simp]:
  "cw_pages (enqueue u n c) = cw_pages c" "cw_seen (enqueue u n c) = cw_seen c" "cw_broken (enqueue u n c) = cw_broken c"
  "cw_sitemapPages (enqueue u n c) = cw_sitemapPages c"
  by (simp_all add: enqueue_def)

lemma visit_link_keeps [simp]:
  "cw_pages (visit_link nu root u n l c) = cw_pages c" "cw_seen (visit_link nu root u n l c) = cw_seen c"
  "cw_broken (visit_link nu root u n l c) = cw_broken c" "cw_sitemapPages (visit_link nu root u n l c) = cw_sitemapPages c"
  by (simp_all add: visit_link_def Let_def split: option.split)

lemma visit_resource_keeps [simp]:
  "cw_pages (visit_resource nu root l c) = cw_pages c" "cw_seen (visit_resource nu root l c) = cw_seen c"
  "cw_broken (visit_resource nu root l c) = cw_broken c" "cw_queue (visit_resource nu root l c) = cw_queue c"
  "cw_known (visit_resource nu root l c) = cw_known c" "cw_sitemapPages (visit_resource nu root l c) = cw_sitemapPages c"
  by (simp_all add: visit_resource_def split: option.split)

lemma fold_keeps: "(\<And>x c. f (g x c) = f c) \<Longrightarrow> f (fold g xs c) = f c"
  by (induction xs arbitrary: c) auto

lemma visit_page_pages:
  "cw_pages (visit_page nu hs net root u n c) = cw_pages c \<and> cw_queue (visit_page nu hs net root u n c) = cw_queue c \<or>
   (\<exists>p. cw_pages (visit_page nu hs net root u n c) = cw_pages c @ [p] \<and> pg_URL p = u \<and> pg_Depth p = n)"
  by (auto simp: visit_page_def Let_def page_of_def fold_keeps [of cw_pages])

text \<open>The main loop. Every iteration takes an entry off the queue, and one that adds entries also adds a page, of which there are at most
  \<open>MaxPages\<close>.\<close>

function crawl_loop :: "net_url \<Rightarrow> html_scan \<Rightarrow> network \<Rightarrow> string list \<Rightarrow> go_url \<Rightarrow> crawl \<Rightarrow> crawl option" where
  "crawl_loop nu hs net robots root c =
     (case cw_queue c of
        [] \<Rightarrow> Some c
      | (u, depth) # rest \<Rightarrow>
          if MaxPages \<le> length (cw_pages c) then Some c
          else let c = c\<lparr>cw_queue := rest\<rparr>
               in if u \<in> cw_seen c \<or> MaxDepth < depth then crawl_loop nu hs net robots root c
                  else let c = c\<lparr>cw_seen := insert u (cw_seen c)\<rparr>
                       in case nu_parse nu u of
                         None \<Rightarrow> None
                       | Some pu \<Rightarrow>
                           if disallowed robots (gu_path pu) then crawl_loop nu hs net robots root c
                           else crawl_loop nu hs net robots root (visit_page nu hs net root u depth c))"
  by pat_completeness auto

termination
proof (relation "measures [\<lambda>(_, _, _, _, _, c). MaxPages - length (cw_pages c), \<lambda>(_, _, _, _, _, c). length (cw_queue c)]", goal_cases)
  case (4 nu hs net robots root c qd rest u depth x xa pu)
  then show ?case using visit_page_pages [of nu hs net root u depth xa] by auto
qed auto

declare crawl_loop.simps [simp del]


subsection \<open>After the loop\<close>

definition page_broken :: "Page \<Rightarrow> bool" where
  "page_broken p \<longleftrightarrow> pg_Error p \<noteq> '''' \<or> 400 \<le> pg_StatusCode p"

definition check_external :: "net_url \<Rightarrow> network \<Rightarrow> string \<Rightarrow> Link \<Rightarrow> Link" where
  "check_external nu net target l =
     (let fr = fetch nu (net External ''HEAD'' target) ''HEAD'' target (64 * 1024);
          fr = (if fr_err fr = None \<and> (fr_status fr = 405 \<or> fr_status fr = 501)
                then fetch nu (net External ''GET'' target) ''GET'' target (64 * 1024) else fr);
          l = l\<lparr>ln_StatusCode := fr_status fr\<rparr>
      in case fr_err fr of
        Some e \<Rightarrow> l\<lparr>ln_Broken := True, ln_Error := e\<rparr>
      | None \<Rightarrow> if 400 \<le> fr_status fr then l\<lparr>ln_Broken := True\<rparr> else l)"

definition external_checks :: "net_url \<Rightarrow> network \<Rightarrow> (string \<times> Link) list \<Rightarrow> (string \<times> Link) list" where
  "external_checks nu net m = map (\<lambda>k. (k, check_external nu net k (the (map_of m k)))) (sort (map fst m))"

text \<open>The two series of updates of \<^verbatim>\<open>crawl_links\<close>; every page URL occurs once.\<close>

definition link_result :: "(string \<times> Link) list \<Rightarrow> Page list \<Rightarrow> Link \<Rightarrow> Link" where
  "link_result ext pages l =
     (if ln_Kind l = ''external'' then
        (case map_of ext (ln_ToURL l) of None \<Rightarrow> l
         | Some e \<Rightarrow> l\<lparr>ln_StatusCode := ln_StatusCode e, ln_Broken := ln_Broken e, ln_Error := ln_Error e\<rparr>)
      else if ln_Kind l = ''internal'' then
        (case map_of (map (\<lambda>p. (pg_URL p, p)) (rev pages)) (ln_ToURL l) of None \<Rightarrow> l
         | Some p \<Rightarrow> l\<lparr>ln_StatusCode := pg_StatusCode p, ln_Broken := page_broken p, ln_Error := pg_Error p\<rparr>)
      else l)"

definition broken_now :: "crawl \<Rightarrow> (string \<times> Link) list \<Rightarrow> string set" where
  "broken_now c ext = cw_broken c \<union> pg_URL ` set (filter page_broken (cw_pages c)) \<union> fst ` set (filter (\<lambda>(_, l). ln_Broken l) ext)"

definition old_broken :: "int \<Rightarrow> crawl_tables \<Rightarrow> string set" where
  "old_broken prev t = (\<lambda>(_, l). ln_ToURL l) ` set (filter (\<lambda>(r, l). r = prev \<and> ln_Broken l) (ct_links t))"

definition count_class :: "string \<Rightarrow> (string \<times> string) list \<Rightarrow> int" where
  "count_class cls as = int (length (filter (\<lambda>(_, c). c = cls) as))"

definition known_classes :: "string list" where
  "known_classes = [''css'', ''javascript'', ''image'', ''font'', ''media'', ''document'', ''data'']"

definition finished_run :: "CrawlRun \<Rightarrow> int \<Rightarrow> crawl \<Rightarrow> (string \<times> Link) list \<Rightarrow> bool \<Rightarrow> string \<Rightarrow> crawl_tables \<Rightarrow> CrawlRun" where
  "finished_run run prev c ext robotsFound finished t =
     run\<lparr>crn_Status := ''complete'', crn_PagesCrawled := int (length (cw_pages c)), crn_PagesDiscovered := cw_discovered c, crn_PageLimit := int MaxPages,
         crn_LimitReached := (MaxPages \<le> length (cw_pages c) \<and> cw_queue c \<noteq> []), crn_SitemapURLs := int (card (cw_sitemapPages c)), crn_CurrentURL := '''',
         crn_PagesFailed := int (length (filter (\<lambda>p. \<not> pg_OK p) (cw_pages c))),
         crn_CSSFiles := count_class ''css'' (cw_assets c), crn_JavaScriptFiles := count_class ''javascript'' (cw_assets c),
         crn_ImageFiles := count_class ''image'' (cw_assets c), crn_FontFiles := count_class ''font'' (cw_assets c),
         crn_MediaFiles := count_class ''media'' (cw_assets c), crn_DocumentFiles := count_class ''document'' (cw_assets c),
         crn_DataFeedFiles := count_class ''data'' (cw_assets c),
         crn_OtherAssetFiles := int (length (filter (\<lambda>(_, k). k \<notin> set known_classes) (cw_assets c))),
         crn_InternalLinks := cw_internalLinks c, crn_ExternalLinks := cw_externalLinks c,
         crn_BrokenInternal := int (length (filter page_broken (cw_pages c))), crn_BrokenExternal := int (length (filter (\<lambda>(_, l). ln_Broken l) ext)),
         crn_NewBroken := int (card (if 0 < prev then broken_now c ext - old_broken prev t else broken_now c ext)),
         crn_RobotsFound := robotsFound, crn_SitemapFound := cw_sitemapFound c, crn_FinishedAt := finished\<rparr>"

record Detail =
  dt_Run :: CrawlRun
  dt_Pages :: "Page list"
  dt_Assets :: "Page list"
  dt_Links :: "Link list"

definition DetailOf :: "int \<Rightarrow> crawl_tables \<Rightarrow> (string, Detail) result" where
  "DetailOf i t =
     (case first_row (\<lambda>r. crn_ID r = i) (ct_runs t) of
        None \<Rightarrow> Inl ''crawl run not found''
      | Some r \<Rightarrow> Inr \<lparr>dt_Run = r, dt_Pages = map snd (filter (\<lambda>(k, p). k = i \<and> pg_Kind p = ''page'') (ct_pages t)),
                      dt_Assets = map snd (filter (\<lambda>(k, p). k = i \<and> pg_Kind p = ''asset'') (ct_pages t)),
                      dt_Links = take 1000 (map snd (filter (\<lambda>(k, l). k = i) (ct_links t)))\<rparr>)"

definition Latest :: "int \<Rightarrow> crawl_tables \<Rightarrow> (string, CrawlRun) result" where
  "Latest sid t = (case latest (\<lambda>r. crn_SiteID r = sid) crn_ID (ct_runs t) of None \<Rightarrow> Inl ''no crawl run'' | Some r \<Rightarrow> Inr r)"

definition LatestDetail :: "int \<Rightarrow> crawl_tables \<Rightarrow> (string, Detail) result" where
  "LatestDetail sid t = res_bind (Latest sid t) (\<lambda>r. DetailOf (crn_ID r) t)"

text \<open>\<^verbatim>\<open>ORDER BY new_broken DESC, id DESC LIMIT 50\<close>\<close>

definition FleetRegressions :: "int \<Rightarrow> db \<Rightarrow> crawl_tables \<Rightarrow> CrawlRun list" where
  "FleetRegressions org d t =
     take 50 (rev (sort_key crn_NewBroken (sort_key crn_ID (filter (\<lambda>r. crn_Status r = ''complete'' \<and>
       \<not> (\<exists>r' \<in> set (ct_runs t). crn_Status r' = ''complete'' \<and> crn_SiteID r' = crn_SiteID r \<and> crn_ID r < crn_ID r') \<and>
       (\<exists>s \<in> set (db_sites d). site_id s = crn_SiteID r \<and> site_org s = org) \<and>
       (0 < crn_NewBroken r \<or> 0 < crn_BrokenInternal r \<or> 0 < crn_BrokenExternal r)) (ct_runs t)))))"

definition CrawlClaim :: "int \<Rightarrow> int set \<Rightarrow> bool \<times> int set" where
  "CrawlClaim sid inflight = (if sid \<in> inflight then (False, inflight) else (True, insert sid inflight))"

definition CrawlRelease :: "int \<Rightarrow> int set \<Rightarrow> int set" where
  "CrawlRelease sid inflight = inflight - {sid}"

text \<open>The crawl of the page graph, from the robots file to the end of the main loop.\<close>

definition crawl_graph :: "net_url \<Rightarrow> html_scan \<Rightarrow> network \<Rightarrow> go_url \<Rightarrow> bool \<times> crawl option" where
  "crawl_graph nu hs net root =
     (let (robots, robotsFound, sitemaps) = loadRobots nu net root;
          sitemaps = (if sitemaps = [] then [nu_string nu (root\<lparr>gu_path := ''/sitemap.xml'', gu_query := ''''\<rparr>)] else sitemaps);
          c = load_sitemaps nu hs net root sitemaps (start_crawl (nu_string nu root))
      in (robotsFound, crawl_loop nu hs net robots root c))"

text \<open>\<open>None\<close>: the goroutine crashes.\<close>

definition CrawlSite :: "net_url \<Rightarrow> html_scan \<Rightarrow> network \<Rightarrow> string \<Rightarrow> string \<Rightarrow> int \<Rightarrow> db \<Rightarrow> crawl_tables
    \<Rightarrow> (string, Detail) result option \<times> crawl_tables" where
  "CrawlSite nu hs net started finished sid d t =
     (case first_row (\<lambda>s. site_id s = sid \<and> site_archived s = None) (db_sites d) of
        None \<Rightarrow> (Some (Inl ''site not found''), t)
      | Some s \<Rightarrow>
          (case nu_parse nu (site_url s) of
             None \<Rightarrow> (Some (Inl ''parse''), t)
           | Some u \<Rightarrow>
               let root = u\<lparr>gu_fragment := ''''\<rparr>;
                   prev = (case latest (\<lambda>r. crn_SiteID r = sid \<and> crn_Status r = ''complete'') crn_ID (ct_runs t) of None \<Rightarrow> 0 | Some r \<Rightarrow> crn_ID r);
                   i = fresh_id (map crn_ID (ct_runs t));
                   run = new_run i sid started;
                   t1 = t\<lparr>ct_runs := ct_runs t @ [run]\<rparr>;
                   (robotsFound, loop) = crawl_graph nu hs net root
               in (case loop of
                     None \<Rightarrow> (None, t1)
                   | Some c \<Rightarrow>
                       let ext = external_checks nu net (cw_external c);
                           t2 = t1\<lparr>ct_pages := ct_pages t1 @ map (Pair i) (cw_rows c),
                                   ct_links := ct_links t1 @ map (\<lambda>l. (i, link_result ext (cw_pages c) l)) (cw_linkRows c)\<rparr>;
                           run' = finished_run run prev c ext robotsFound finished t1;
                           t3 = t2\<lparr>ct_runs := upd_where (\<lambda>r. crn_ID r = i) (\<lambda>_. run') (ct_runs t2)\<rparr>
                       in (Some (case DetailOf i t3 of
                             Inr full \<Rightarrow> Inr full
                           | Inl _ \<Rightarrow> Inr \<lparr>dt_Run = run', dt_Pages = cw_pages c, dt_Assets = [], dt_Links = []\<rparr>), t3))))"


subsection \<open>Where a crawl can go\<close>

text \<open>What the crawler relies on of \<^verbatim>\<open>net/url\<close>: the text of a parsed URL, its fragment dropped, parses to a URL of the same host.\<close>

definition reparses :: "net_url \<Rightarrow> bool" where
  "reparses nu \<longleftrightarrow> (\<forall>raw u. nu_parse nu raw = Some u \<longrightarrow>
     (\<exists>u'. nu_parse nu (nu_string nu (u\<lparr>gu_fragment := ''''\<rparr>)) = Some u' \<and> url_Hostname u' = url_Hostname u))"

definition on_host :: "net_url \<Rightarrow> go_url \<Rightarrow> string \<Rightarrow> bool" where
  "on_host nu root u \<longleftrightarrow> (\<exists>pu. nu_parse nu u = Some pu \<and> same_host pu root)"

definition allowed_page :: "net_url \<Rightarrow> string list \<Rightarrow> go_url \<Rightarrow> string \<Rightarrow> bool" where
  "allowed_page nu robots root u \<longleftrightarrow> (\<exists>pu. nu_parse nu u = Some pu \<and> same_host pu root \<and> \<not> disallowed robots (gu_path pu))"

definition queue_ok :: "net_url \<Rightarrow> go_url \<Rightarrow> crawl \<Rightarrow> bool" where
  "queue_ok nu root c \<longleftrightarrow> (\<forall>(u, n) \<in> set (cw_queue c). n \<le> MaxDepth \<and> on_host nu root u)"

definition pages_ok :: "net_url \<Rightarrow> string list \<Rightarrow> go_url \<Rightarrow> crawl \<Rightarrow> bool" where
  "pages_ok nu robots root c \<longleftrightarrow> length (cw_pages c) \<le> MaxPages \<and> distinct (map pg_URL (cw_pages c)) \<and>
     (\<forall>p \<in> set (cw_pages c). pg_URL p \<in> cw_seen c \<and> pg_Depth p \<le> MaxDepth \<and> allowed_page nu robots root (pg_URL p))"

lemma enqueue_queue_ok: "queue_ok nu root c \<Longrightarrow> n \<le> MaxDepth \<Longrightarrow> on_host nu root u \<Longrightarrow> queue_ok nu root (enqueue u n c)"
  by (auto simp: queue_ok_def enqueue_def)

lemma visit_link_queue_ok: "queue_ok nu root c \<Longrightarrow> queue_ok nu root (visit_link nu root from depth target c)"
proof -
  assume ok: "queue_ok nu root c"
  have up: "queue_ok nu root (c\<lparr>cw_internalLinks := a, cw_internalPages := b\<rparr>)" for a b using ok by (simp add: queue_ok_def)
  have "queue_ok nu root (enqueue target (Suc depth) (c\<lparr>cw_internalLinks := a, cw_internalPages := b\<rparr>))"
    if "nu_parse nu target = Some tu" "same_host tu root" "depth < MaxDepth" for tu a b
    using enqueue_queue_ok [OF up] that by (auto simp: on_host_def)
  with ok show ?thesis by (auto simp: visit_link_def Let_def queue_ok_def split: option.split)
qed

lemma fold_invariant_simple: "I c \<Longrightarrow> (\<And>x c. x \<in> set xs \<Longrightarrow> I c \<Longrightarrow> I (f x c)) \<Longrightarrow> I (fold f xs c)"
  by (induction xs arbitrary: c) auto

lemma visit_page_queue_ok: "queue_ok nu root c \<Longrightarrow> queue_ok nu root (visit_page nu hs net root u n c)"
proof -
  assume ok: "queue_ok nu root c"
  have pages: "queue_ok nu root (c\<lparr>cw_pages := a, cw_rows := b\<rparr>)" for a b using ok by (simp add: queue_ok_def)
  have links: "queue_ok nu root (fold (visit_link nu root u n) ls (c\<lparr>cw_pages := a, cw_rows := b\<rparr>))" for ls a b
    by (rule fold_invariant_simple [where I = "queue_ok nu root"]) (auto intro: pages visit_link_queue_ok)
  have res: "queue_ok nu root (fold (visit_resource nu root) rs (fold (visit_link nu root u n) ls (c\<lparr>cw_pages := a, cw_rows := b\<rparr>)))" for rs ls a b
    by (rule fold_invariant_simple [where I = "queue_ok nu root"], rule links) (simp add: queue_ok_def)
  show ?thesis using ok res pages unfolding visit_page_def Let_def by (auto simp: queue_ok_def)
qed

lemma visit_page_seen: "cw_seen (visit_page nu hs net root u n c) = cw_seen c"
  by (simp add: visit_page_def Let_def fold_keeps [of cw_seen])

lemma visit_page_pages_ok:
  assumes "pages_ok nu robots root c" "u \<notin> cw_seen c" "n \<le> MaxDepth" "allowed_page nu robots root u" "length (cw_pages c) < MaxPages"
  shows "pages_ok nu robots root (visit_page nu hs net root u n (c\<lparr>cw_seen := insert u (cw_seen c)\<rparr>))"
  using visit_page_pages [of nu hs net root u n "c\<lparr>cw_seen := insert u (cw_seen c)\<rparr>"] assms
  unfolding pages_ok_def visit_page_seen by auto

lemma crawl_loop_ok:
  "queue_ok nu root c \<Longrightarrow> pages_ok nu robots root c \<Longrightarrow> \<exists>c'. crawl_loop nu hs net robots root c = Some c' \<and> pages_ok nu robots root c'"
proof (induction nu hs net robots root c rule: crawl_loop.induct)
  case (1 nu hs net robots root c)
  show ?case
  proof (cases "cw_queue c = [] \<or> MaxPages \<le> length (cw_pages c)")
    case True
    then have "crawl_loop nu hs net robots root c = Some c" by (subst crawl_loop.simps) (auto split: list.split)
    with "1.prems" show ?thesis by blast
  next
    case False
    then obtain u n rest where q: "cw_queue c = (u, n) # rest" by (cases "cw_queue c") auto
    define c1 where "c1 = c\<lparr>cw_queue := rest\<rparr>"
    define c2 where "c2 = c1\<lparr>cw_seen := insert u (cw_seen c1)\<rparr>"
    have len: "\<not> MaxPages \<le> length (cw_pages c)" using False by blast
    obtain pu where n: "n \<le> MaxDepth" and pu: "nu_parse nu u = Some pu" "same_host pu root"
      using "1.prems"(1) q by (auto simp: queue_ok_def on_host_def)
    have q1: "queue_ok nu root c1" "queue_ok nu root c2" using "1.prems"(1) q by (auto simp: queue_ok_def c1_def c2_def)
    have p1: "pages_ok nu robots root c1" "pages_ok nu robots root c2" using "1.prems"(2) by (auto simp: pages_ok_def c1_def c2_def)
    have loop: "crawl_loop nu hs net robots root c = (if u \<in> cw_seen c1 \<or> MaxDepth < n then crawl_loop nu hs net robots root c1
        else if disallowed robots (gu_path pu) then crawl_loop nu hs net robots root c2
        else crawl_loop nu hs net robots root (visit_page nu hs net root u n c2))"
      using len q pu by (subst crawl_loop.simps) (simp add: c1_def c2_def Let_def)
    show ?thesis
    proof (cases "u \<in> cw_seen c1 \<or> MaxDepth < n")
      case True
      with "1.IH"(1) [OF q _ len, of u n c1] q1 p1 show ?thesis by (simp add: loop c1_def)
    next
      case unseen: False
      show ?thesis
      proof (cases "disallowed robots (gu_path pu)")
        case True
        with "1.IH"(2) [OF q _ len c1_def, of u n c2 pu] unseen pu q1 p1 show ?thesis by (simp add: loop c2_def)
      next
        case False
        have "pages_ok nu robots root (visit_page nu hs net root u n c2)"
          unfolding c2_def using unseen len n pu False p1 by (intro visit_page_pages_ok) (auto simp: allowed_page_def c1_def)
        with "1.IH"(3) [OF q _ len c1_def, of u n c2 pu] unseen pu False visit_page_queue_ok [OF q1(2)] show ?thesis by (simp add: loop c2_def)
      qed
    qed
  qed
qed


lemma loadSitemap_on_host:
  assumes "reparses nu" "x \<in> set (loadSitemap nu hs net k raw root)"
  shows "on_host nu root x"
proof -
  from assms(2) obtain y v where v: "nu_parse nu y = Some v" "same_host v root" "x = nu_string nu (v\<lparr>gu_fragment := ''''\<rparr>)"
    by (auto simp: loadSitemap_def Let_def List.map_filter_def split: option.splits if_splits)
  with assms(1) show ?thesis by (fastforce simp: reparses_def on_host_def same_host_def)
qed

lemma load_sitemaps_ok:
  assumes "reparses nu" "queue_ok nu root c" "pages_ok nu robots root c"
  shows "queue_ok nu root (load_sitemaps nu hs net root sms c) \<and> pages_ok nu robots root (load_sitemaps nu hs net root sms c)"
  unfolding load_sitemaps_def
proof (rule fold_invariant_simple [where I = "\<lambda>c. queue_ok nu root c \<and> pages_ok nu robots root c"])
  fix x :: "nat \<times> string" and c
  assume ok: "queue_ok nu root c \<and> pages_ok nu robots root c"
  let ?urls = "loadSitemap nu hs net (fst x) (snd x) root"
  have "queue_ok nu root (fold (sitemap_url nu) ?urls (c\<lparr>cw_sitemapFound := True\<rparr>)) \<and>
      pages_ok nu robots root (fold (sitemap_url nu) ?urls (c\<lparr>cw_sitemapFound := True\<rparr>))"
  proof (rule fold_invariant_simple [where I = "\<lambda>c. queue_ok nu root c \<and> pages_ok nu robots root c"])
    show "queue_ok nu root (c\<lparr>cw_sitemapFound := True\<rparr>) \<and> pages_ok nu robots root (c\<lparr>cw_sitemapFound := True\<rparr>)"
      using ok by (simp add: queue_ok_def pages_ok_def)
  next
    fix u c
    assume u: "u \<in> set ?urls" and ok: "queue_ok nu root c \<and> pages_ok nu robots root c"
    have "queue_ok nu root (enqueue u 0 (c\<lparr>cw_sitemapPages := S\<rparr>))" for S
      using ok loadSitemap_on_host [OF assms(1) u] by (intro enqueue_queue_ok) (simp_all add: queue_ok_def)
    with ok show "queue_ok nu root (sitemap_url nu u c) \<and> pages_ok nu robots root (sitemap_url nu u c)"
      by (auto simp: sitemap_url_def pages_ok_def)
  qed
  with ok show "queue_ok nu root (one_sitemap nu hs net root x c) \<and> pages_ok nu robots root (one_sitemap nu hs net root x c)"
    by (simp add: one_sitemap_def Let_def)
qed (use assms in auto)

lemma root_on_host: "reparses nu \<Longrightarrow> nu_parse nu raw = Some u \<Longrightarrow> on_host nu (u\<lparr>gu_fragment := ''''\<rparr>) (nu_string nu (u\<lparr>gu_fragment := ''''\<rparr>))"
  by (fastforce simp: reparses_def on_host_def same_host_def equal_fold_def url_Hostname_def)


definition sample_crawl_net :: net_url where
  "sample_crawl_net = \<lparr>nu_parse = (\<lambda>_. Some \<lparr>gu_scheme = ''https'', gu_user = False, gu_host = ''shop.example'', gu_path = '''', gu_query = '''',
     gu_fragment = '''', gu_rest = ''''\<rparr>), nu_string = (\<lambda>_. ''https://a''), nu_resolve = (\<lambda>a b. b)\<rparr>"

definition dead_network :: network where
  "dead_network _ _ _ = \<lparr>fw_guard = sample_guard, fw_hops = [], fw_end = Inl ''connection refused'', fw_read = None\<rparr>"

definition sample_scan :: html_scan where
  "sample_scan = \<lparr>hs_loc = (\<lambda>_. []), hs_a_href = (\<lambda>_. []), hs_link = (\<lambda>_. []), hs_rel = (\<lambda>_. None), hs_href = (\<lambda>_. None), hs_src = (\<lambda>_. []),
     hs_srcset = (\<lambda>_. [])\<rparr>"

lemma sample_reparses: "reparses sample_crawl_net"
  by (simp add: reparses_def sample_crawl_net_def)



subsection \<open>New broken links\<close>

text \<open>A network on which every request fails.\<close>

definition all_fail :: "net_url \<Rightarrow> network \<Rightarrow> bool" where
  "all_fail nu net \<longleftrightarrow> (\<forall>st m u mx. \<exists>e. e \<noteq> '''' \<and> fr_err (fetch nu (net st m u) m u mx) = Some e \<and> fr_header (fetch nu (net st m u) m u mx) = [])"

lemma fetch_failure: "fr_err (fetch nu w m u mx) = Some e \<Longrightarrow> fr_header (fetch nu w m u mx) = []"
  by (auto simp: fetch_def failed_fetch_def split: option.splits sum.splits if_splits)

lemma all_fail_graph:
  assumes "all_fail nu net" "nu_parse nu (nu_string nu root) = Some pu"
  shows "\<exists>c. crawl_graph nu hs net root = (False, Some c) \<and> map pg_URL (cw_pages c) = [nu_string nu root] \<and> list_all page_broken (cw_pages c) \<and>
    cw_broken c = {nu_string nu root} \<and> cw_external c = [] \<and> cw_linkRows c = [] \<and> cw_queue c = []"
proof -
  let ?r = "nu_string nu root"
  have err: "\<exists>e. e \<noteq> '''' \<and> fr_err (fetch nu (net st m u) m u mx) = Some e" for st m u mx using assms(1) unfolding all_fail_def by blast
  have "fr_err (fetch nu (net st m u) m u mx) \<noteq> None" for st m u mx using err [of st m u mx] by auto
  then have rob: "loadRobots nu net root = ([], False, [])" and sm: "\<And>k raw. loadSitemap nu hs net k raw root = []"
    by (simp_all add: loadRobots_def loadSitemap_def Let_def split: option.split)
  obtain e where e: "e \<noteq> ''''" "fr_err (fetch nu (net Visit ''GET'' ?r) ''GET'' ?r MaxBodyBytes) = Some e" using err by blast
  define c1 where "c1 = (start_crawl ?r)\<lparr>cw_queue := [], cw_seen := {?r}\<rparr>"
  define c2 where "c2 = visit_page nu hs net root ?r 0 c1"
  have c2: "map pg_URL (cw_pages c2) = [?r]" "list_all page_broken (cw_pages c2)" "cw_broken c2 = {?r}" "cw_external c2 = []" "cw_linkRows c2 = []"
    "cw_queue c2 = []" using e by (simp_all add: c2_def visit_page_def Let_def page_of_def c1_def start_crawl_def page_broken_def)
  have "crawl_loop nu hs net [] root c2 = Some c2" using c2(6) by (subst crawl_loop.simps) simp
  then have "crawl_loop nu hs net [] root (start_crawl ?r) = Some c2"
    using assms(2) by (subst crawl_loop.simps) (simp add: start_crawl_def MaxPages_def MaxDepth_def disallowed_def c2_def c1_def)
  moreover have "load_sitemaps nu hs net root sms c = c" for sms c
    unfolding load_sitemaps_def by (rule fold_invariant_simple [where I = "\<lambda>x. x = c"]) (simp_all add: one_sitemap_def sm)
  ultimately show ?thesis using c2 by (auto simp: crawl_graph_def rob)
qed

lemma dead_crawl:
  assumes "all_fail nu net" "reparses nu" "first_row (\<lambda>s. site_id s = sid \<and> site_archived s = None) (db_sites d) = Some s" "nu_parse nu (site_url s) = Some u"
    and prev: "prev = (case latest (\<lambda>r. crn_SiteID r = sid \<and> crn_Status r = ''complete'') crn_ID (ct_runs t) of None \<Rightarrow> 0 | Some r \<Rightarrow> crn_ID r)"
    and old: "0 < prev \<Longrightarrow> nu_string nu (u\<lparr>gu_fragment := ''''\<rparr>) \<notin> old_broken prev t"
  shows "\<exists>det t' run. CrawlSite nu hs net started finished sid d t = (Some (Inr det), t') \<and> crn_NewBroken (dt_Run det) = 1 \<and>
    ct_links t' = ct_links t \<and> ct_runs t' = ct_runs t @ [run] \<and> crn_ID run = fresh_id (map crn_ID (ct_runs t)) \<and> crn_SiteID run = sid \<and> crn_Status run = ''complete''"
proof -
  let ?root = "u\<lparr>gu_fragment := ''''\<rparr>" and ?i = "fresh_id (map crn_ID (ct_runs t))"
  from root_on_host [OF assms(2,4)] obtain pu where "nu_parse nu (nu_string nu ?root) = Some pu" by (auto simp: on_host_def)
  from all_fail_graph [OF assms(1) this, of hs] obtain c where g: "crawl_graph nu hs net ?root = (False, Some c)"
    and c: "map pg_URL (cw_pages c) = [nu_string nu ?root]" "list_all page_broken (cw_pages c)" "cw_broken c = {nu_string nu ?root}" "cw_external c = []"
      "cw_linkRows c = []" "cw_queue c = []" by (elim exE conjE) (rule that)
  define run where "run = finished_run (new_run ?i sid started) prev c [] False finished (t\<lparr>ct_runs := ct_runs t @ [new_run ?i sid started]\<rparr>)"
  from c(1) obtain p where "cw_pages c = [p]" "pg_URL p = nu_string nu ?root" unfolding map_eq_Cons_conv by blast
  with c(2) have "pg_URL ` set (filter page_broken (cw_pages c)) = {nu_string nu ?root}" by simp
  then have bn: "broken_now c [] = {nu_string nu ?root}" using c(3) by (simp add: broken_now_def)
  have run: "crn_ID run = ?i" "crn_SiteID run = sid" "crn_Status run = ''complete''" by (simp_all add: run_def finished_run_def new_run_def)
  have ob: "old_broken prev (t\<lparr>ct_runs := rs\<rparr>) = old_broken prev t" for rs by (simp add: old_broken_def)
  have nb: "crn_NewBroken run = 1" using old by (simp add: run_def finished_run_def bn ob insert_Diff_if)
  have upd: "upd_where (\<lambda>r. crn_ID r = ?i) (\<lambda>_. run) (ct_runs t @ [new_run ?i sid started]) = ct_runs t @ [run]"
  proof -
    have "crn_ID r \<noteq> ?i" if "r \<in> set (ct_runs t)" for r using that fresh_id_notin [of "map crn_ID (ct_runs t)"] by (metis imageI list.set_map)
    then have "upd_where (\<lambda>r. crn_ID r = ?i) (\<lambda>_. run) (ct_runs t) = ct_runs t" by (intro upd_where_none) blast
    then show ?thesis by (simp add: upd_where_def new_run_def)
  qed
  define t3 where "t3 = t\<lparr>ct_pages := ct_pages t @ map (Pair ?i) (cw_rows c), ct_runs := ct_runs t @ [run]\<rparr>"
  have none: "first_row (\<lambda>r. crn_ID r = ?i) (ct_runs t) = None"
    unfolding first_row_None using fresh_id_notin [of "map crn_ID (ct_runs t)"] by (metis imageI list.set_map)
  obtain det where det: "DetailOf ?i t3 = Inr det" "dt_Run det = run"
    using none run by (simp add: DetailOf_def t3_def first_row_append)
  have "CrawlSite nu hs net started finished sid d t = (Some (Inr det), t3)"
    using det(1) by (simp add: CrawlSite_def Let_def assms(3,4) g c(4,5) external_checks_def prev [symmetric] run_def [symmetric] upd t3_def)
  with det nb run show ?thesis by (auto simp: t3_def)
qed




end
