(* ===== verification/Server_State.thy ===== *)
theory Server_State
  imports Routes Notifications Maintenance Crawler Replicated_FSM Observations
begin

text \<open>
  The handlers of \<^verbatim>\<open>internal/server/server.go\<close> behind the route table. The state \<open>server\<close> is the database, table by table as the components
  keep it, with the services' memory: rate limiters, the sites under audit and under crawl, the cached providers of single sign-on and
  the background work the handlers have started. The environment \<open>server_env\<close> is what one request draws from the outside: the readings of
  the clock and the random tokens in the order the handler asks for them, the network, the packages that are arguments of the components.
\<close>

subsection \<open>State and environment\<close>

datatype job = AuditJob int | CrawlJob int | GeoJob

record 'p server = auth_state +
  sv_db :: db
  sv_obs :: obs_tables
  sv_an :: an_tables
  sv_analytics :: analytics_service
  sv_audits :: audit_tables
  sv_crawls :: crawl_tables
  sv_deploys :: "deployment_row list"
  sv_retention :: "retention option"
  sv_loginLim :: rateLimiter
  sv_setupLim :: rateLimiter
  sv_passwordLim :: rateLimiter
  sv_auditing :: "int set"
  sv_crawling :: "int set"
  sv_providers :: "string \<rightharpoonup> 'p"
  sv_jobs :: "job list"

text \<open>What the replication controller is asked to commit, and its error: the text, and whether it is a deadline.\<close>

datatype proposal = PutGroup GroupPayload | PutSite SitePayload | ArchiveSite SitePayload | DropSite string | PutTags TagsPayload

record propose_error =
  pe_text :: string
  pe_deadline :: bool

type_synonym propose = "string option \<Rightarrow> string \<Rightarrow> string \<Rightarrow> proposal \<Rightarrow> db \<Rightarrow> (propose_error, unit) result \<times> db"

record ('m, 'p, 'c) server_env = auth_env +
  sx_core :: "'m coreauth"
  sx_url :: net_url
  sx_now :: "nat \<Rightarrow> instant"
  sx_random :: "nat \<Rightarrow> string"
  sx_publicURL :: string
  sx_oidc :: "'p oidc_world"
  sx_ingest :: ingest_world
  sx_group_order :: "(string \<times> int) list \<Rightarrow> (string \<times> int) list"
  sx_check :: "string \<Rightarrow> duration \<Rightarrow> exchange"
  sx_inspect :: "'c inspection"
  sx_dns :: dns_answer
  sx_hooks :: Guard
  sx_regexp :: "string \<Rightarrow> (string, string \<Rightarrow> bool) result"
  sx_rfc3339 :: "string \<Rightarrow> bool"
  sx_marshal :: "json \<Rightarrow> string"
  sx_db_bytes :: "int option"
  sx_geo :: "(string \<times> int) option option" \<comment> \<open>no manager; a manager without a database; last update and ranges\<close>
  sx_batch :: "db \<Rightarrow> int list \<Rightarrow> batch_state \<Rightarrow> batch_state" \<comment> \<open>the schedule under which a batch of audits runs\<close>
  sx_propose :: "propose option" \<comment> \<open>the replication controller, unless the node stands alone\<close>

text \<open>The values the handlers answer with; \<open>BFail\<close> carries the error whose text is sent.\<close>

datatype failure = FText string | FAcct acct_error | FSite site_error | FCheck check_error | FHook hook_error

datatype body = BFail failure | BOk | BTracker | BStatus string
  | BMaintenance MStatus | BFleetTotals FleetSummary | BGoals "(goal_row \<times> int) list" | BGoal Goal | BSummary Summary
  | BProperty "Property option" "string option" | BPages report_page | BCountries bool string int report_page
  | BAudits bool "Result list" | BSiteIDs "int list" | BResults "Result list"
  | BOidcConfig Config | BSetup bool nat | BLogin string string | BCrawl "Detail option" | BRegressions "(Site \<times> CrawlRun) list"
  | BHTTP "HTTPObservation list" | BExpectations "string \<rightharpoonup> bool" | BDNSHistory "dns_row list" | BDNS dns_row
  | BTLS "tls_row option" | BInspected tls_row | BWarnings "tls_row list" | BIncidents "incident_row list" | BFleet FleetHealth | BCheck check_row
  | BPerformance PerfSummary | BDeployments "deployment_row list" | BDeployment deployment_row | BCorrelation "Correlation option"
  | BChecks "check_row list" | BToken Created | BWebhooks "Webhook list" | BWebhook Webhook string | BDeliveries "Delivery list"
  | BMembers "Member list" string | BGroups "Group list" | BGroup Group | BSites SiteList | BSite Site | BTags "string list"
  | BSession string string string int

type_synonym ('m, 'p, 'c) handler = "('m, 'p, 'c) server_env \<Rightarrow> http_request \<Rightarrow> principal \<Rightarrow> 'p server \<Rightarrow> body response \<times> 'p server"

definition writeErr :: "int \<Rightarrow> failure \<Rightarrow> body response" where
  "writeErr status f = writeJSON status (BFail f)"

subsection \<open>Decoding\<close>

text \<open>\<^verbatim>\<open>DisallowUnknownFields\<close>: a key that names no field is an error.\<close>

fun known_keys :: "'s field list \<Rightarrow> json option \<Rightarrow> bool" where
  "known_keys fs (Some (JObj kvs)) = list_all (\<lambda>kv. list_ex (\<lambda>f. equal_fold (fst kv) (fst f)) fs) kvs"
| "known_keys fs _ = True"

definition decodeJSON :: "'s field list \<Rightarrow> 's \<Rightarrow> http_request \<Rightarrow> ('s \<Rightarrow> 'st \<Rightarrow> body response \<times> 'st) \<Rightarrow> 'st \<Rightarrow> body response \<times> 'st" where
  "decodeJSON fs zero r k st =
     (case unmarshal fs zero (hq_body r) of
        Inl _ \<Rightarrow> (writeError 400 ''invalid JSON request'', st)
      | Inr v \<Rightarrow> if known_keys fs (hq_body r) then k v st else (writeError 400 ''invalid JSON request'', st))"

text \<open>Fields by their key, over the getter and the update of the record.\<close>

definition str_field :: "string \<Rightarrow> ('s \<Rightarrow> string) \<Rightarrow> ((string \<Rightarrow> string) \<Rightarrow> 's \<Rightarrow> 's) \<Rightarrow> 's field" where
  "str_field k get upd = (k, \<lambda>j s. res_bind (get_str j (get s)) (\<lambda>v. Inr (upd (\<lambda>_. v) s)))"

definition int_field :: "string \<Rightarrow> ('s \<Rightarrow> int) \<Rightarrow> ((int \<Rightarrow> int) \<Rightarrow> 's \<Rightarrow> 's) \<Rightarrow> 's field" where
  "int_field k get upd = (k, \<lambda>j s. res_bind (get_int64 j (get s)) (\<lambda>v. Inr (upd (\<lambda>_. v) s)))"

definition bool_field :: "string \<Rightarrow> ('s \<Rightarrow> bool) \<Rightarrow> ((bool \<Rightarrow> bool) \<Rightarrow> 's \<Rightarrow> 's) \<Rightarrow> 's field" where
  "bool_field k get upd = (k, \<lambda>j s. res_bind (get_bool j (get s)) (\<lambda>v. Inr (upd (\<lambda>_. v) s)))"

definition strs_field :: "string \<Rightarrow> ((string list \<Rightarrow> string list) \<Rightarrow> 's \<Rightarrow> 's) \<Rightarrow> 's field" where
  "strs_field k upd = (k, \<lambda>j s. res_bind (get_strs j) (\<lambda>v. Inr (upd (\<lambda>_. v) s)))"

fun get_int_list :: "json list \<Rightarrow> (json_error, int list) result" where
  "get_int_list [] = Inr []"
| "get_int_list (j # js) = res_bind (get_int64 j 0) (\<lambda>i. res_bind (get_int_list js) (\<lambda>is. Inr (i # is)))"

fun get_ints :: "json \<Rightarrow> (json_error, int list) result" where
  "get_ints JNull = Inr []"
| "get_ints (JArr js) = get_int_list js"
| "get_ints _ = Inl JType"

text \<open>\<^verbatim>\<open>strconv.Atoi\<close> and \<^verbatim>\<open>strconv.ParseInt\<close> with the error dropped: zero for a text that is no number, the nearest limit for a number out of range.\<close>

definition Atoi_value :: "string \<Rightarrow> int" where
  "Atoi_value s =
     (case ParseInt s of
        Some i \<Rightarrow> i
      | None \<Rightarrow>
          let neg = has_prefix s ''-''; ds = (if neg \<or> has_prefix s ''+'' then tl s else s)
          in if ds = [] \<or> \<not> list_all Netip.is_digit ds then 0 else if neg then - (2 ^ 63) else 2 ^ 63 - 1)"

subsection \<open>Rows that go with a site\<close>

text \<open>The references declared \<^verbatim>\<open>ON DELETE CASCADE\<close> on the tables of the other components: storing a database without some site drops
  the site's rows there.\<close>

definition live_obs :: "int set \<Rightarrow> obs_tables \<Rightarrow> obs_tables" where
  "live_obs ids t = t\<lparr>ob_tls := filter (\<lambda>x. tl_site x \<in> ids) (ob_tls t), ob_dns := filter (\<lambda>x. dn_site x \<in> ids) (ob_dns t)\<rparr>"

definition live_an :: "int set \<Rightarrow> an_tables \<Rightarrow> an_tables" where
  "live_an ids t =
     (let props = filter (\<lambda>p. ap_site p \<in> ids) (an_props t); ps = ap_id ` set props
      in t\<lparr>an_props := props, an_events := filter (\<lambda>e. ev_prop e \<in> ps) (an_events t), an_daily := filter (\<lambda>y. dy_prop y \<in> ps) (an_daily t),
           an_visitors := filter (\<lambda>v. fst v \<in> ps) (an_visitors t), an_goals := filter (\<lambda>g. gl_prop g \<in> ps) (an_goals t)\<rparr>)"

definition live_audits :: "int set \<Rightarrow> audit_tables \<Rightarrow> audit_tables" where
  "live_audits ids t = t\<lparr>au_runs := filter (\<lambda>r. rs_SiteID r \<in> ids) (au_runs t), au_settings := filter (\<lambda>s. fst s \<in> ids) (au_settings t)\<rparr>"

definition live_crawls :: "int set \<Rightarrow> crawl_tables \<Rightarrow> crawl_tables" where
  "live_crawls ids t =
     (let runs = filter (\<lambda>r. crn_SiteID r \<in> ids) (ct_runs t); rs = crn_ID ` set runs
      in t\<lparr>ct_runs := runs, ct_pages := filter (\<lambda>x. fst x \<in> rs) (ct_pages t), ct_links := filter (\<lambda>x. fst x \<in> rs) (ct_links t)\<rparr>)"

definition store_db :: "db \<Rightarrow> 'p server \<Rightarrow> 'p server" where
  "store_db d st =
     (let ids = set (site_ids d)
      in st\<lparr>sv_db := d, sv_obs := live_obs ids (sv_obs st), sv_an := live_an ids (sv_an st), sv_audits := live_audits ids (sv_audits st),
           sv_crawls := live_crawls ids (sv_crawls st), sv_deploys := filter (\<lambda>x. dp_site x \<in> ids) (sv_deploys st)\<rparr>)"

subsection \<open>The guard of the site routes\<close>

definition pathSiteID :: "http_request \<Rightarrow> (body response, int) result" where
  "pathSiteID r = (case ParseID (hq_id r) of Inl _ \<Rightarrow> Inl (writeError 400 ''invalid site id'') | Inr i \<Rightarrow> Inr i)"

definition site :: "principal \<Rightarrow> int \<Rightarrow> 'p server \<Rightarrow> (body response, Site) result" where
  "site p i st = (case GetForOrg (pl_OrgID p) i (sv_db st) of Inl _ \<Rightarrow> Inl (writeError 404 ''site not found'') | Inr s \<Rightarrow> Inr s)"

text \<open>The first lines of every handler of a site.\<close>

definition with_site :: "http_request \<Rightarrow> principal \<Rightarrow> (int \<Rightarrow> Site \<Rightarrow> 'p server \<Rightarrow> body response \<times> 'p server) \<Rightarrow> 'p server \<Rightarrow> body response \<times> 'p server" where
  "with_site r p k st =
     (case pathSiteID r of
        Inl resp \<Rightarrow> (resp, st)
      | Inr i \<Rightarrow> (case site p i st of Inl resp \<Rightarrow> (resp, st) | Inr s \<Rightarrow> k i s st))"

end
