(* ===== verification/Server.thy ===== *)
theory Server
  imports Server_State
begin

text \<open>
  The handlers of \<^verbatim>\<open>internal/server/server.go\<close>, in the order of the file, and the table that dispatches to them. A handler returns the
  response and the state after it; work it leaves to a goroutine is a job of the state, with the effect of the goroutine as an operation of
  its own.
\<close>

subsection \<open>Analytics\<close>

abbreviation ok_response :: "body response" where
  "ok_response \<equiv> writeJSON 200 BOk"

definition noContent :: "body response" where
  "noContent = \<lparr>rsp_status = 204, rsp_body = PEmpty, rsp_cookies = [], rsp_location = ''''\<rparr>"

definition handleTracker :: "('m, 'p, 'c) handler" where
  "handleTracker e r p st = (writeJSON 200 BTracker, st)"

definition event_fields :: "Event field list" where
  "event_fields = [str_field ''key'' e_Key e_Key_update, str_field ''kind'' e_Kind e_Kind_update, str_field ''path'' e_Path e_Path_update,
     str_field ''referrer'' e_Referrer e_Referrer_update, str_field ''payload'' e_Payload e_Payload_update]"

definition zero_event :: Event where
  "zero_event = \<lparr>e_Key = '''', e_Kind = '''', e_Path = '''', e_Referrer = '''', e_Payload = ''''\<rparr>"

definition handleAnalyticsEvent :: "('m, 'p, 'c) handler" where
  "handleAnalyticsEvent e r p st =
     decodeJSON event_fields zero_event r (\<lambda>ev st.
       let ip = ClientIP (nv_proxy e) (meta r);
           ip = (if ip = '''' then (case SplitHostPort (rq_remote r) of Some (h, _) \<Rightarrow> h | None \<Rightarrow> rq_remote r) else ip);
           (res, svc, t) = Ingest (sx_ingest e) ev (header_get (rq_headers r) ''Origin'') ip (header_get (rq_headers r) ''User-Agent'')
              (sv_analytics st) (sv_an st);
           st = st\<lparr>sv_analytics := svc, sv_an := t\<rparr>
       in (case res of Inl msg \<Rightarrow> (writeError 400 msg, st) | Inr _ \<Rightarrow> (noContent, st))) st"

definition handleMaintenance :: "('m, 'p, 'c) handler" where
  "handleMaintenance e r p st = (writeJSON 200 (BMaintenance (MaintenanceStatus (sx_db_bytes e) (sv_retention st) (sv_db st) (sv_an st) (sv_audits st))), st)"

definition retention_fields :: "retention field list" where
  "retention_fields = [int_field ''check_days'' rt_CheckDays rt_CheckDays_update,
     int_field ''analytics_raw_days'' rt_AnalyticsRawDays rt_AnalyticsRawDays_update, int_field ''audit_days'' rt_AuditDays rt_AuditDays_update]"

definition handleMaintenanceUpdate :: "('m, 'p, 'c) handler" where
  "handleMaintenanceUpdate e r p st =
     decodeJSON retention_fields \<lparr>rt_CheckDays = 0, rt_AnalyticsRawDays = 0, rt_AuditDays = 0\<rparr> r (\<lambda>v st.
       case SetRetention v (sv_retention st) of
         (Inl msg, row) \<Rightarrow> (writeError 400 msg, st\<lparr>sv_retention := row\<rparr>)
       | (Inr _, row) \<Rightarrow> (ok_response, st\<lparr>sv_retention := row\<rparr>)) st"

definition handleMaintenanceRun :: "('m, 'p, 'c) handler" where
  "handleMaintenanceRun e r p st =
     (let (d, t, u) = MaintenanceRun (sx_now e 0) (sx_now e 1) (sx_now e 2) (sv_retention st) (sv_db st) (sv_an st) (sv_audits st)
      in (ok_response, st\<lparr>sv_db := d, sv_an := t, sv_audits := u\<rparr>))"

definition handleFleetAnalytics :: "('m, 'p, 'c) handler" where
  "handleFleetAnalytics e r p st =
     (writeJSON 200 (BFleetTotals (FleetTotals (sx_now e 0) (pl_OrgID p) (Atoi_value (query_get r ''days'')) (sv_db st) (sv_an st))), st)"

definition handleAnalyticsGoals :: "('m, 'p, 'c) handler" where
  "handleAnalyticsGoals e r p = with_site r p (\<lambda>i s st. (writeJSON 200 (BGoals (Goals i (sv_an st))), st))"

definition goal_fields :: "(string \<times> string \<times> string) field list" where
  "goal_fields = [str_field ''name'' fst apfst, str_field ''event_kind'' (fst \<circ> snd) (apsnd \<circ> apfst), str_field ''path_match'' (snd \<circ> snd) (apsnd \<circ> apsnd)]"

definition handleCreateAnalyticsGoal :: "('m, 'p, 'c) handler" where
  "handleCreateAnalyticsGoal e r p = with_site r p (\<lambda>i s st.
     decodeJSON goal_fields ('''', '''', '''') r (\<lambda>(nm, kind, path) st.
       case CreateGoal (sx_now e 0) i nm kind path (sv_an st) of
         (Inl x, t) \<Rightarrow> (writeErr 400 (FCheck x), st\<lparr>sv_an := t\<rparr>)
       | (Inr g, t) \<Rightarrow> (writeJSON 201 (BGoal g), st\<lparr>sv_an := t\<rparr>)) st)"

definition handleAnalyticsSummary :: "('m, 'p, 'c) handler" where
  "handleAnalyticsSummary e r p = with_site r p (\<lambda>i s st.
     (writeJSON 200 (BSummary (SummaryOf (sx_group_order e) (sx_now e 0) i (Atoi_value (query_get r ''days'')) (sv_an st))), st))"

definition public_origin :: "('m, 'p, 'c) server_env \<Rightarrow> http_request \<Rightarrow> string" where
  "public_origin e r = (if sx_publicURL e = '''' then ''https://'' @ hq_host r else sx_publicURL e)"

definition handleAnalyticsProperty :: "('m, 'p, 'c) handler" where
  "handleAnalyticsProperty e r p = with_site r p (\<lambda>i s st.
     let prop = PropertyOf i (sv_an st)
     in (writeJSON 200 (BProperty prop (case prop of
             Some x \<Rightarrow> if pr_Enabled x then Some (TrackerSnippet (public_origin e r) (pr_PublicKey x)) else None
           | None \<Rightarrow> None)), st))"

definition handleEnableAnalytics :: "('m, 'p, 'c) handler" where
  "handleEnableAnalytics e r p = with_site r p (\<lambda>i s st.
     case Enable (sx_url e) (sx_random e 0) (sx_now e 0) i (sv_db st) (sv_an st) of
       (Inl x, t) \<Rightarrow> (writeErr 400 (FCheck x), st\<lparr>sv_an := t\<rparr>)
     | (Inr x, t) \<Rightarrow> (writeJSON 201 (BProperty (Some x) (Some (TrackerSnippet (public_origin e r) (pr_PublicKey x)))), st\<lparr>sv_an := t\<rparr>))"

definition handleDisableAnalytics :: "('m, 'p, 'c) handler" where
  "handleDisableAnalytics e r p = with_site r p (\<lambda>i s st.
     case Disable i (sv_an st) of
       (Inl x, t) \<Rightarrow> (writeErr 400 (FCheck x), st\<lparr>sv_an := t\<rparr>)
     | (Inr _, t) \<Rightarrow> (ok_response, st\<lparr>sv_an := t\<rparr>))"

definition handleAnalyticsPages :: "('m, 'p, 'c) handler" where
  "handleAnalyticsPages e r p = with_site r p (\<lambda>i s st.
     (writeJSON 200 (BPages (Pages (sx_now e 0) i (Atoi_value (query_get r ''days'')) (Atoi_value (query_get r ''page''))
        (Atoi_value (query_get r ''page_size'')) (sv_an st))), st))"

definition handleAnalyticsCountries :: "('m, 'p, 'c) handler" where
  "handleAnalyticsCountries e r p = with_site r p (\<lambda>i s st.
     let (_, out) = Countries (sx_now e 0) i (Atoi_value (query_get r ''days'')) (Atoi_value (query_get r ''page''))
           (Atoi_value (query_get r ''page_size'')) (sv_analytics st) (sv_an st)
     in (writeJSON 200 (case sx_geo e of
             Some (Some (updated, ranges)) \<Rightarrow> BCountries True updated ranges out
           | _ \<Rightarrow> BCountries False '''' 0 out), st))"

definition handleGeoUpdate :: "('m, 'p, 'c) handler" where
  "handleGeoUpdate e r p st =
     (if sx_geo e = None then (writeError 500 ''GeoIP not configured'', st)
      else (writeJSON 202 (BStatus ''installing''), st\<lparr>sv_jobs := sv_jobs st @ [GeoJob]\<rparr>))"

subsection \<open>Audits\<close>

definition handleAudit :: "('m, 'p, 'c) handler" where
  "handleAudit e r p = with_site r p (\<lambda>i s st. (writeJSON 200 (BAudits (HistoryEnabled i (sv_audits st)) (AuditHistory i (sv_audits st))), st))"

definition handleRunAudit :: "('m, 'p, 'c) handler" where
  "handleRunAudit e r p = with_site r p (\<lambda>i s st.
     let (ok, busy) = Claim i (sv_auditing st); st = st\<lparr>sv_auditing := busy\<rparr>
     in if \<not> ok then (writeError 409 ''an audit is already running for this site'', st)
        else (writeJSON 202 (BStatus ''running''), st\<lparr>sv_jobs := sv_jobs st @ [AuditJob i]\<rparr>))"

text \<open>The goroutine of \<^verbatim>\<open>handleRunAudit\<close>, with the browser's answer.\<close>

definition audit_job :: "(string \<Rightarrow> (string, Result) result) \<Rightarrow> instant \<Rightarrow> int \<Rightarrow> 'p server \<Rightarrow> 'p server" where
  "audit_job runner now i st =
     (let (_, _, t) = Run runner now i (sv_db st) (sv_audits st)
      in st\<lparr>sv_audits := t, sv_auditing := Release i (sv_auditing st), sv_jobs := remove1 (AuditJob i) (sv_jobs st)\<rparr>)"

definition handleAuditHistorySetting :: "('m, 'p, 'c) handler" where
  "handleAuditHistorySetting e r p = with_site r p (\<lambda>i s st.
     decodeJSON [bool_field ''enabled'' (\<lambda>b. b) (\<lambda>f b. f b)] False r (\<lambda>on st.
       case SetHistory i on (sv_db st) (sv_audits st) of
         (Inl _, t) \<Rightarrow> (writeError 500 ''audit setting unavailable'', st\<lparr>sv_audits := t\<rparr>)
       | (Inr _, t) \<Rightarrow> (ok_response, st\<lparr>sv_audits := t\<rparr>)) st)"

definition filter_fields :: "BatchFilter field list" where
  "filter_fields = [str_field ''search'' bf_Search bf_Search_update, int_field ''group_id'' bf_GroupID bf_GroupID_update,
     str_field ''regex'' bf_Regex bf_Regex_update, int_field ''last_audited_days'' bf_LastAuditedDays bf_LastAuditedDays_update]"

definition handleResolveAudits :: "('m, 'p, 'c) handler" where
  "handleResolveAudits e r p st =
     decodeJSON filter_fields \<lparr>bf_Search = '''', bf_GroupID = 0, bf_Regex = '''', bf_LastAuditedDays = 0\<rparr> r (\<lambda>f st.
       case ResolveBatch (sx_regexp e) (pl_OrgID p) f (sv_db st) of
         Inl msg \<Rightarrow> (writeError 400 msg, st)
       | Inr ids \<Rightarrow> (writeJSON 200 (BSiteIDs ids), st)) st"

definition handleBatchAudits :: "('m, 'p, 'c) handler" where
  "handleBatchAudits e r p st =
     decodeJSON [(''site_ids'', \<lambda>j s. get_ints j)] [] r (\<lambda>ids st.
       if 100 < length ids then (writeError 400 ''batch audit limit is 100 sites'', st)
       else let (owned, b) = RunBatch (pl_OrgID p) ids (sv_db st) (sv_audits st); b = sx_batch e (sv_db st) owned b
            in (writeJSON 200 (BResults (batch_out b)), st\<lparr>sv_audits := batch_tables b\<rparr>)) st"

subsection \<open>Single sign-on\<close>

definition oidcRedirect :: "('m, 'p, 'c) server_env \<Rightarrow> string" where
  "oidcRedirect e = (if sx_publicURL e \<noteq> '''' then sx_publicURL e @ ''/api/oidc/callback'' else '''')"

definition oidcOriginReady :: "('m, 'p, 'c) server_env \<Rightarrow> bool" where
  "oidcOriginReady e \<longleftrightarrow> sx_publicURL e \<noteq> ''''"

definition oidcBindingCookie :: string where "oidcBindingCookie = ''wf_oidc_binding''"

definition no_origin :: "body response" where
  "no_origin = writeError 400 ''OIDC requires WEBFLEET_PUBLIC_URL (canonical external origin)''"

definition redirect :: "cookie list \<Rightarrow> string \<Rightarrow> body response" where
  "redirect cs url = \<lparr>rsp_status = 302, rsp_body = PEmpty, rsp_cookies = cs, rsp_location = url\<rparr>"

definition setSessionCookie :: "('m, 'p, 'c) server_env \<Rightarrow> http_request \<Rightarrow> string \<Rightarrow> cookie" where
  "setSessionCookie e r tok = \<lparr>ck_Name = ''webfleet_session'', ck_Value = tok, ck_MaxAge = 86400, ck_Secure = Secure (nv_proxy e) (meta r),
     ck_SameSite = ''Strict''\<rparr>"

definition handleOIDCLogin :: "('m, 'p, 'c) handler" where
  "handleOIDCLogin e r p st =
     (if \<not> oidcOriginReady e then (no_origin, st)
      else let browser = sx_random e 0
           in (case Begin (sx_oidc e) (sx_random e 1) (sx_random e 2) (sx_now e 0) (oidcRedirect e) browser (sv_providers st) (sr_acct st) of
                 (Inl x, prov, a) \<Rightarrow> (writeErr 400 (FAcct x), st\<lparr>sv_providers := prov, sr_acct := a\<rparr>)
               | (Inr u, prov, a) \<Rightarrow>
                   (redirect [\<lparr>ck_Name = oidcBindingCookie, ck_Value = browser, ck_MaxAge = 600, ck_Secure = Secure (nv_proxy e) (meta r),
                      ck_SameSite = ''Lax''\<rparr>] u, st\<lparr>sv_providers := prov, sr_acct := a\<rparr>)))"

definition handleOIDCCallback :: "('m, 'p, 'c) handler" where
  "handleOIDCCallback e r p st =
     (if query_get r ''error'' \<noteq> '''' then (writeError 401 ''OIDC authorization failed'', st)
      else if \<not> oidcOriginReady e then (no_origin, st)
      else let browser = (case map_of (hq_cookies r) oidcBindingCookie of Some c \<Rightarrow> c | None \<Rightarrow> '''')
           in (case Callback (sx_core e) (nv_parse_time e) (nv_sha e) (sx_random e 0) (sx_random e 1) (sx_oidc e) (sv_db st) (sx_now e 0)
                      (query_get r ''state'') (query_get r ''code'') (oidcRedirect e) browser (sv_providers st) (sr_acct st) of
                 (Inl x, prov, a) \<Rightarrow> (writeErr 401 (FAcct x), st\<lparr>sv_providers := prov, sr_acct := a\<rparr>)
               | (Inr (tok, _), prov, a) \<Rightarrow>
                   (redirect [\<lparr>ck_Name = oidcBindingCookie, ck_Value = '''', ck_MaxAge = -1, ck_Secure = Secure (nv_proxy e) (meta r),
                      ck_SameSite = ''Lax''\<rparr>, setSessionCookie e r tok] ''/'', st\<lparr>sv_providers := prov, sr_acct := a\<rparr>)))"

definition handleOIDCConfig :: "('m, 'p, 'c) handler" where
  "handleOIDCConfig e r p st = (writeJSON 200 (BOidcConfig (public_config (sr_acct st))), st)"

definition config_fields :: "Config field list" where
  "config_fields = [str_field ''issuer'' cfg_Issuer cfg_Issuer_update, str_field ''client_id'' cfg_ClientID cfg_ClientID_update,
     str_field ''client_secret'' cfg_ClientSecret cfg_ClientSecret_update, bool_field ''enabled'' cfg_Enabled cfg_Enabled_update,
     bool_field ''auto_provision'' cfg_AutoProvision cfg_AutoProvision_update]"

definition handleOIDCConfigSave :: "('m, 'p, 'c) handler" where
  "handleOIDCConfigSave e r p st =
     decodeJSON config_fields \<lparr>cfg_Issuer = '''', cfg_ClientID = '''', cfg_ClientSecret = '''', cfg_Enabled = False, cfg_AutoProvision = False\<rparr> r (\<lambda>c st.
       if cfg_Enabled c \<and> \<not> oidcOriginReady e then (no_origin, st)
       else case Save (sx_oidc e) (sx_now e 0) c (sv_providers st) (sr_acct st) of
         (Inl x, prov, a) \<Rightarrow> (writeErr 400 (FAcct x), st\<lparr>sv_providers := prov, sr_acct := a\<rparr>)
       | (Inr _, prov, a) \<Rightarrow> (ok_response, st\<lparr>sv_providers := prov, sr_acct := a\<rparr>)) st"

subsection \<open>Accounts\<close>

definition handleSetupStatus :: "('m, 'p, 'c) handler" where
  "handleSetupStatus e r p st =
     (case NeedsSetup (sx_core e) (nv_parse_time e) (sr_acct st) of
        Inl _ \<Rightarrow> (writeError 500 ''setup status unavailable'', st)
      | Inr need \<Rightarrow> (writeJSON 200 (BSetup need MinPasswordLength), st))"

definition with_cookie :: "cookie \<Rightarrow> body response \<Rightarrow> body response" where
  "with_cookie c resp = resp\<lparr>rsp_cookies := rsp_cookies resp @ [c]\<rparr>"

definition setup_fields :: "(string \<times> string \<times> string) field list" where
  "setup_fields = [str_field ''Username'' fst apfst, str_field ''Email'' (fst \<circ> snd) (apsnd \<circ> apfst), str_field ''Password'' (snd \<circ> snd) (apsnd \<circ> apsnd)]"

definition handleSetup :: "('m, 'p, 'c) handler" where
  "handleSetup e r p st =
     (let (ok, l) = Allow (''setup:'' @ ClientIP (nv_proxy e) (meta r)) (sx_now e 0) (sv_setupLim st); st = st\<lparr>sv_setupLim := l\<rparr>
      in if \<not> ok then (writeError 429 ''too many setup attempts, try again later'', st)
         else decodeJSON setup_fields ('''', '''', '''') r (\<lambda>(username, email, password) st.
           case CreateAdmin (sx_core e) (nv_parse_time e) (sv_db st) (sx_now e 1) username email password (sr_acct st) of
             (Inl x, a) \<Rightarrow> (writeErr 400 (FAcct x), st\<lparr>sr_acct := a\<rparr>)
           | (Inr _, a) \<Rightarrow>
               (case Login (sx_core e) (nv_parse_time e) (nv_sha e) (sx_random e 0) (sx_random e 1) (sx_now e 2) email password a of
                  (Inl _, a) \<Rightarrow> (writeError 500 ''admin created but login failed'', st\<lparr>sr_acct := a\<rparr>)
                | (Inr (tok, sess), a) \<Rightarrow>
                    (with_cookie (setSessionCookie e r tok) (writeJSON 201 (BLogin (ss_Email sess) (ss_CSRF sess))), st\<lparr>sr_acct := a\<rparr>))) st)"

definition pair_fields :: "string \<Rightarrow> string \<Rightarrow> (string \<times> string) field list" where
  "pair_fields a b = [str_field a fst apfst, str_field b snd apsnd]"

definition handleLogin :: "('m, 'p, 'c) handler" where
  "handleLogin e r p st =
     (let (ok, l) = Allow (''login:'' @ ClientIP (nv_proxy e) (meta r)) (sx_now e 0) (sv_loginLim st); st = st\<lparr>sv_loginLim := l\<rparr>
      in if \<not> ok then (writeError 429 ''too many login attempts, try again later'', st)
         else decodeJSON (pair_fields ''Email'' ''Password'') ('''', '''') r (\<lambda>(email, password) st.
           case Login (sx_core e) (nv_parse_time e) (nv_sha e) (sx_random e 0) (sx_random e 1) (sx_now e 1) email password (sr_acct st) of
             (Inl _, a) \<Rightarrow> (writeError 401 ''invalid credentials'', st\<lparr>sr_acct := a\<rparr>)
           | (Inr (tok, sess), a) \<Rightarrow>
               (with_cookie (setSessionCookie e r tok) (writeJSON 200 (BLogin (ss_Email sess) (ss_CSRF sess))), st\<lparr>sr_acct := a\<rparr>)) st)"

definition handleLogout :: "('m, 'p, 'c) handler" where
  "handleLogout e r p st =
     (let st = (case map_of (hq_cookies r) ''webfleet_session'' of
                  Some c \<Rightarrow> st\<lparr>sr_acct := Logout (nv_sha e) (sx_now e 0) c (sr_acct st)\<rparr> | None \<Rightarrow> st)
      in (with_cookie \<lparr>ck_Name = ''webfleet_session'', ck_Value = '''', ck_MaxAge = -1, ck_Secure = Secure (nv_proxy e) (meta r),
            ck_SameSite = ''Strict''\<rparr> ok_response, st))"

definition handleChangePassword :: "('m, 'p, 'c) handler" where
  "handleChangePassword e r p st =
     (let (ok, l) = Allow (''password:'' @ ClientIP (nv_proxy e) (meta r)) (sx_now e 0) (sv_passwordLim st); st = st\<lparr>sv_passwordLim := l\<rparr>
      in if \<not> ok then (writeError 429 ''too many password attempts, try again later'', st)
         else decodeJSON (pair_fields ''current_password'' ''new_password'') ('''', '''') r (\<lambda>(old, new) st.
           case map_of (hq_cookies r) ''webfleet_session'' of
             None \<Rightarrow> (writeError 401 ''authentication required'', st)
           | Some c \<Rightarrow>
               (case ChangePassword (sx_core e) (nv_parse_time e) (nv_sha e) (sx_now e 1) (pl_UserID p) old new c (sr_acct st) of
                  (Inl x, a) \<Rightarrow> (writeErr (if x = InvalidCurrentPassword then 401 else 400) (FAcct x), st\<lparr>sr_acct := a\<rparr>)
                | (Inr _, a) \<Rightarrow> (ok_response, st\<lparr>sr_acct := a\<rparr>))) st)"

subsection \<open>Crawls\<close>

definition handleSiteCrawl :: "('m, 'p, 'c) handler" where
  "handleSiteCrawl e r p = with_site r p (\<lambda>i s st.
     (writeJSON 200 (BCrawl (case LatestDetail i (sv_crawls st) of Inl _ \<Rightarrow> None | Inr x \<Rightarrow> Some x)), st))"

definition handleCrawlSite :: "('m, 'p, 'c) handler" where
  "handleCrawlSite e r p = with_site r p (\<lambda>i s st.
     let (ok, busy) = CrawlClaim i (sv_crawling st); st = st\<lparr>sv_crawling := busy\<rparr>
     in if \<not> ok then (writeError 409 ''a crawl is already in progress for this site'', st)
        else (writeJSON 202 (BStatus ''running''), st\<lparr>sv_jobs := sv_jobs st @ [CrawlJob i]\<rparr>))"

text \<open>The goroutine of \<^verbatim>\<open>handleCrawlSite\<close>.\<close>

definition crawl_job :: "net_url \<Rightarrow> html_scan \<Rightarrow> network \<Rightarrow> string \<Rightarrow> string \<Rightarrow> int \<Rightarrow> 'p server \<Rightarrow> 'p server" where
  "crawl_job nu hs net started finished i st =
     (let (_, t) = CrawlSite nu hs net started finished i (sv_db st) (sv_crawls st)
      in st\<lparr>sv_crawls := t, sv_crawling := CrawlRelease i (sv_crawling st), sv_jobs := remove1 (CrawlJob i) (sv_jobs st)\<rparr>)"

definition handleFleetLinkRegressions :: "('m, 'p, 'c) handler" where
  "handleFleetLinkRegressions e r p st =
     (writeJSON 200 (BRegressions (concat (map (\<lambda>run. case GetForOrg (pl_OrgID p) (crn_SiteID run) (sv_db st) of Inl _ \<Rightarrow> [] | Inr s \<Rightarrow> [(s, run)])
        (FleetRegressions (pl_OrgID p) (sv_db st) (sv_crawls st))))), st)"

subsection \<open>Observations, incidents, reports\<close>

definition handleHTTPObservations :: "('m, 'p, 'c) handler" where
  "handleHTTPObservations e r p = with_site r p (\<lambda>i s st. (writeJSON 200 (BHTTP (HTTPHistory i (sv_db st))), st))"

definition handleHeaderExpectations :: "('m, 'p, 'c) handler" where
  "handleHeaderExpectations e r p = with_site r p (\<lambda>i s st. (writeJSON 200 (BExpectations (HeaderExpectations i (sv_db st))), st))"

definition handleHeaderExpectationUpdate :: "('m, 'p, 'c) handler" where
  "handleHeaderExpectationUpdate e r p = with_site r p (\<lambda>i s st.
     decodeJSON [str_field ''name'' fst apfst, bool_field ''required'' snd apsnd] ('''', False) r (\<lambda>(nm, required) st.
       case SetHeaderExpectation i nm required (sv_db st) of
         Inl x \<Rightarrow> (writeErr 400 (FCheck x), st)
       | Inr d \<Rightarrow> (ok_response, st\<lparr>sv_db := d\<rparr>)) st)"

definition handleSiteDNS :: "('m, 'p, 'c) handler" where
  "handleSiteDNS e r p = with_site r p (\<lambda>i s st. (writeJSON 200 (BDNSHistory (DNSHistory i (sv_obs st))), st))"

definition handleObserveDNS :: "('m, 'p, 'c) handler" where
  "handleObserveDNS e r p = with_site r p (\<lambda>i s st.
     case ObserveSite (sx_dns e) i (sv_db st) (sv_obs st) of
       (Inl x, t) \<Rightarrow> (writeErr 400 (FCheck x), st\<lparr>sv_obs := t\<rparr>)
     | (Inr row, t) \<Rightarrow> (writeJSON 200 (BDNS row), st\<lparr>sv_obs := t\<rparr>))"

definition handleSiteTLS :: "('m, 'p, 'c) handler" where
  "handleSiteTLS e r p = with_site r p (\<lambda>i s st.
     (writeJSON 200 (BTLS (case LatestTLS i (sv_obs st) of Inl _ \<Rightarrow> None | Inr x \<Rightarrow> Some x)), st))"

definition handleInspectTLS :: "('m, 'p, 'c) handler" where
  "handleInspectTLS e r p = with_site r p (\<lambda>i s st.
     case InspectSite (sx_inspect e) i (sv_db st) (sv_obs st) of
       (Inl x, t) \<Rightarrow> (writeErr 400 (FCheck x), st\<lparr>sv_obs := t\<rparr>)
     | (Inr row, t) \<Rightarrow> (writeJSON 200 (BInspected row), st\<lparr>sv_obs := t\<rparr>))"

definition handleFleetTLS :: "('m, 'p, 'c) handler" where
  "handleFleetTLS e r p st = (writeJSON 200 (BWarnings (FleetWarnings (pl_OrgID p) 30 (sv_db st) (sv_obs st))), st)"

definition handleSiteIncidents :: "('m, 'p, 'c) handler" where
  "handleSiteIncidents e r p = with_site r p (\<lambda>i s st. (writeJSON 200 (BIncidents (ListIncidents i (sv_db st))), st))"

definition handleAckIncident :: "('m, 'p, 'c) handler" where
  "handleAckIncident e r p st =
     (case ParseInt (hq_id r) of
        None \<Rightarrow> (writeError 400 ''invalid incident id'', st)
      | Some i \<Rightarrow>
          if i < 1 then (writeError 400 ''invalid incident id'', st)
          else case Acknowledge (pl_OrgID p) i (format_nano (sx_now e 0)) (sv_db st) of
            Inl msg \<Rightarrow> (writeError 404 msg, st)
          | Inr d \<Rightarrow> (ok_response, st\<lparr>sv_db := d\<rparr>))"

definition handleFleet :: "('m, 'p, 'c) handler" where
  "handleFleet e r p st = (writeJSON 200 (BFleet (SummaryFor (pl_OrgID p) (sv_db st))), st)"

definition handleCheckSite :: "('m, 'p, 'c) handler" where
  "handleCheckSite e r p = with_site r p (\<lambda>i s st.
     case CheckSite (sx_check e) i (sv_db st) of
       (Inl x, d) \<Rightarrow> (writeErr 400 (FCheck x), st\<lparr>sv_db := d\<rparr>)
     | (Inr res, d) \<Rightarrow>
         let (_, t) = InspectSite (sx_inspect e) i d (sv_obs st); (_, t) = ObserveSite (sx_dns e) i d t
         in (writeJSON 200 (BCheck res), st\<lparr>sv_db := d, sv_obs := t\<rparr>))"

definition handleSitePerformance :: "('m, 'p, 'c) handler" where
  "handleSitePerformance e r p = with_site r p (\<lambda>i s st. (writeJSON 200 (BPerformance (ForSite i 200 (sv_db st))), st))"

definition handleDeployments :: "('m, 'p, 'c) handler" where
  "handleDeployments e r p = with_site r p (\<lambda>i s st. (writeJSON 200 (BDeployments (DeploymentHistory i (sv_deploys st))), st))"

text \<open>The metadata decode into a map, to which a repeated key adds.\<close>

fun get_map :: "json \<Rightarrow> json \<Rightarrow> (json_error, json) result" where
  "get_map JNull old = Inr JNull"
| "get_map (JObj kvs) old = Inr (JObj ((case old of JObj xs \<Rightarrow> xs | _ \<Rightarrow> []) @ kvs))"
| "get_map _ old = Inl JType"

definition deployment_fields :: "(deployment_row \<times> json) field list" where
  "deployment_fields =
     (let str = \<lambda>k get upd. str_field k (get \<circ> fst) (apfst \<circ> upd); num = \<lambda>k get upd. int_field k (get \<circ> fst) (apfst \<circ> upd)
      in [num ''id'' dp_id dp_id_update, num ''site_id'' dp_site dp_site_update, str ''provider'' dp_provider dp_provider_update,
          str ''external_id'' dp_external dp_external_update, str ''revision'' dp_revision dp_revision_update,
          str ''environment'' dp_environment dp_environment_update, str ''status'' dp_status dp_status_update, str ''url'' dp_url dp_url_update,
          (''metadata'', \<lambda>j (x, m). res_bind (get_map j m) (\<lambda>m. Inr (x, m))),
          str ''deployed_at'' dp_deployed dp_deployed_update, str ''received_at'' dp_received dp_received_update])"

definition zero_deployment :: deployment_row where
  "zero_deployment = \<lparr>dp_id = 0, dp_site = 0, dp_provider = '''', dp_external = '''', dp_revision = '''', dp_environment = '''', dp_status = '''',
     dp_url = '''', dp_metadata = '''', dp_deployed = '''', dp_received = ''''\<rparr>"

definition handleDeploymentRecord :: "('m, 'p, 'c) handler" where
  "handleDeploymentRecord e r p = with_site r p (\<lambda>i s st.
     decodeJSON deployment_fields (zero_deployment, JNull) r (\<lambda>(x, m) st.
       case RecordDeployment (sx_rfc3339 e) (sx_now e 0) (sx_now e 1) (x\<lparr>dp_site := i, dp_metadata := sx_marshal e m\<rparr>) (sv_db st) (sv_deploys st) of
         (Inl err, ds) \<Rightarrow> (writeErr 400 (FCheck err), st\<lparr>sv_deploys := ds\<rparr>)
       | (Inr v, ds) \<Rightarrow> (writeJSON 201 (BDeployment v), st\<lparr>sv_deploys := ds\<rparr>)) st)"

definition handleDeploymentCorrelation :: "('m, 'p, 'c) handler" where
  "handleDeploymentCorrelation e r p = with_site r p (\<lambda>i s st. (writeJSON 200 (BCorrelation (Correlate i (sv_db st) (sv_an st) (sv_deploys st))), st))"

definition handleSiteChecks :: "('m, 'p, 'c) handler" where
  "handleSiteChecks e r p = with_site r p (\<lambda>i s st. (writeJSON 200 (BChecks (Recent i 50 (sv_db st))), st))"

subsection \<open>Tokens, webhooks, members\<close>

definition handleCreateToken :: "('m, 'p, 'c) handler" where
  "handleCreateToken e r p st =
     decodeJSON [str_field ''name'' fst apfst, strs_field ''scopes'' apsnd] ('''', []) r (\<lambda>(nm, scopes) st.
       case Create (sv_db st) (nv_sha e) (sx_random e 0) (sx_now e 0) (pl_UserID p) (pl_OrgID p) nm scopes (sr_acct st) of
         (Inl x, a) \<Rightarrow> (writeErr 400 (FAcct x), st\<lparr>sr_acct := a\<rparr>)
       | (Inr c, a) \<Rightarrow> (writeJSON 201 (BToken c), st\<lparr>sr_acct := a\<rparr>)) st"

definition handleRevokeToken :: "('m, 'p, 'c) handler" where
  "handleRevokeToken e r p st =
     (case ParseInt (hq_id r) of
        None \<Rightarrow> (writeError 400 ''invalid token id'', st)
      | Some i \<Rightarrow> (ok_response, st\<lparr>sr_acct := Revoke (sx_now e 0) i (pl_UserID p) (pl_OrgID p) (sr_acct st)\<rparr>))"

definition handleWebhooks :: "('m, 'p, 'c) handler" where
  "handleWebhooks e r p st = (writeJSON 200 (BWebhooks (ListWebhooks (pl_OrgID p) (sv_db st))), st)"

definition handleWebhookCreate :: "('m, 'p, 'c) handler" where
  "handleWebhookCreate e r p st =
     decodeJSON (pair_fields ''name'' ''url'') ('''', '''') r (\<lambda>(nm, url) st.
       case CreateWebhook (sx_url e) (sx_hooks e) (sx_random e 0) (sx_now e 0) (pl_OrgID p) nm url (sv_db st) of
         (Inl x, d) \<Rightarrow> (writeErr 400 (FHook x), st\<lparr>sv_db := d\<rparr>)
       | (Inr (w, secret), d) \<Rightarrow> (writeJSON 201 (BWebhook w secret), st\<lparr>sv_db := d\<rparr>)) st"

definition handleNotificationDeliveries :: "('m, 'p, 'c) handler" where
  "handleNotificationDeliveries e r p st = (writeJSON 200 (BDeliveries (History (pl_OrgID p) (sv_db st))), st)"

definition handleMembers :: "('m, 'p, 'c) handler" where
  "handleMembers e r p st = (writeJSON 200 (BMembers (Members (pl_OrgID p) (sr_acct st)) (pl_Role p)), st)"

definition handleMemberUpdate :: "('m, 'p, 'c) handler" where
  "handleMemberUpdate e r p st =
     decodeJSON (pair_fields ''email'' ''role'') ('''', '''') r (\<lambda>(email, role) st.
       case Add (sv_db st) (sx_now e 0) (pl_UserID p) (pl_OrgID p) email role (sr_acct st) of
         (Inl x, a) \<Rightarrow> (writeErr 400 (FAcct x), st\<lparr>sr_acct := a\<rparr>)
       | (Inr _, a) \<Rightarrow> (ok_response, st\<lparr>sr_acct := a\<rparr>)) st"

subsection \<open>Replicated writes\<close>

text \<open>\<^verbatim>\<open>replicationRequestContext\<close>: the idempotency key of the request, unless it is empty or too long.\<close>

definition replicationRequestContext :: "http_request \<Rightarrow> string option" where
  "replicationRequestContext r =
     (let i = trim_space (header_get (rq_headers r) ''Idempotency-Key'') in if i = '''' \<or> 200 < length i then None else Some i)"

definition replicationUnavailable :: "propose_error \<Rightarrow> bool" where
  "replicationUnavailable x \<longleftrightarrow> pe_deadline x \<or> str_contains (pe_text x) ''replication'' \<or> str_contains (pe_text x) ''leader'' \<or>
     str_contains (pe_text x) ''readiness''"

definition replicationHTTPStatus :: "propose_error \<Rightarrow> int" where
  "replicationHTTPStatus x =
     (let msg = to_lower (pe_text x)
      in if str_contains msg ''operation id reused'' \<or> str_contains msg ''group conflict'' then 409
         else if replicationUnavailable x then 503 else 400)"

definition clusterObjectID :: "('m, 'p, 'c) server_env \<Rightarrow> string \<Rightarrow> string" where
  "clusterObjectID e prefix = prefix @ sx_random e 0"

text \<open>A proposal, the error answered with its status, and what follows when it has been applied here.\<close>

definition proposed :: "propose \<Rightarrow> http_request \<Rightarrow> string \<Rightarrow> string \<Rightarrow> proposal \<Rightarrow> ('p server \<Rightarrow> body response \<times> 'p server) \<Rightarrow> 'p server \<Rightarrow> body response \<times> 'p server" where
  "proposed f r kind cid x k st =
     (case f (replicationRequestContext r) kind cid x (sv_db st) of
        (Inl err, d) \<Rightarrow> (writeError (replicationHTTPStatus err) (pe_text err), store_db d st)
      | (Inr _, d) \<Rightarrow> k (store_db d st))"

subsection \<open>Sites\<close>

definition handleGroups :: "('m, 'p, 'c) handler" where
  "handleGroups e r p st = (writeJSON 200 (BGroups (Groups (pl_OrgID p) (sv_db st))), st)"

definition handleCreateGroup :: "('m, 'p, 'c) handler" where
  "handleCreateGroup e r p st =
     decodeJSON [str_field ''name'' (\<lambda>x. x) (\<lambda>f x. f x)] '''' r (\<lambda>nm0 st.
       case sx_propose e of
         Some f \<Rightarrow>
           let nm = trim_space nm0
           in if nm = '''' \<or> 80 < length nm then (writeError 400 ''group name must be 1..80 characters'', st)
              else let cid = clusterObjectID e ''wfg_''
                   in proposed f r KindGroupPut cid (PutGroup \<lparr>gp_ClusterID = cid, gp_OrgID = pl_OrgID p, gp_Name = nm, gp_CreatedAt = format_nano (sx_now e 0)\<rparr>)
                        (\<lambda>st. case GroupByClusterID (pl_OrgID p) cid (sv_db st) of
                           Inl x \<Rightarrow> (writeErr 503 (FSite x), st) | Inr g \<Rightarrow> (writeJSON 201 (BGroup g), st)) st
       | None \<Rightarrow>
           (case CreateGroup (sx_now e 0) (pl_OrgID p) nm0 (sv_db st) of
              (Inl x, d) \<Rightarrow> (writeErr 400 (FSite x), st\<lparr>sv_db := d\<rparr>)
            | (Inr g, d) \<Rightarrow> (writeJSON 201 (BGroup g), st\<lparr>sv_db := d\<rparr>))) st"

definition handleSites :: "('m, 'p, 'c) handler" where
  "handleSites e r p st =
     (let grp = Atoi_value (query_get r ''group''); page = Atoi_value (query_get r ''page''); sz = Atoi_value (query_get r ''page_size'');
          tag = query_get r ''tag''; archived = (query_get r ''archived'' = ''1'');
          out = (if tag \<noteq> '''' \<and> \<not> archived then ListByTag (pl_OrgID p) (query_get r ''q'') grp tag page sz (sv_db st)
                 else ListSites (pl_OrgID p) (query_get r ''q'') grp page sz archived (sv_db st))
      in (writeJSON 200 (BSites out), st))"

definition create_fields :: "(string \<times> string \<times> int) field list" where
  "create_fields = [str_field ''name'' fst apfst, str_field ''primary_url'' (fst \<circ> snd) (apsnd \<circ> apfst), int_field ''group_id'' (snd \<circ> snd) (apsnd \<circ> apsnd)]"

definition handleCreateSite :: "('m, 'p, 'c) handler" where
  "handleCreateSite e r p st =
     decodeJSON create_fields ('''', '''', 0) r (\<lambda>(nm0, rawURL, grp) st.
       case sx_propose e of
         Some f \<Rightarrow>
           let nm = trim_space nm0
           in if nm = '''' \<or> 120 < length nm then (writeError 400 ''site name must be 1..120 characters'', st)
              else (case CanonicalURL (sx_url e) rawURL of
                      Inl x \<Rightarrow> (writeErr 400 (FSite x), st)
                    | Inr u \<Rightarrow>
                        (case ClusterIDForGroup (pl_OrgID p) grp (sv_db st) of
                           Inl x \<Rightarrow> (writeErr 400 (FSite x), st)
                         | Inr gcid \<Rightarrow>
                             let cid = clusterObjectID e ''wfs_''; now = format_nano (sx_now e 0)
                             in proposed f r KindSitePut cid (PutSite \<lparr>sp_ClusterID = cid, sp_OrgID = pl_OrgID p, sp_Name = nm, sp_PrimaryURL = u,
                                    sp_GroupClusterID = gcid, sp_Enabled = True, sp_Archived = False, sp_CreatedAt = now, sp_UpdatedAt = now\<rparr>)
                                  (\<lambda>st. case GetByClusterID (pl_OrgID p) cid (sv_db st) of
                                     Inl x \<Rightarrow> (writeErr 503 (FSite x), st) | Inr s \<Rightarrow> (writeJSON 201 (BSite s), st)) st))
       | None \<Rightarrow>
           (case CreateSite (sx_url e) (sx_now e 0) (pl_OrgID p) nm0 rawURL grp (sv_db st) of
              (Inl x, d) \<Rightarrow> (writeErr 400 (FSite x), st\<lparr>sv_db := d\<rparr>)
            | (Inr s, d) \<Rightarrow> (writeJSON 201 (BSite s), st\<lparr>sv_db := d\<rparr>))) st"

definition handleSiteTags :: "('m, 'p, 'c) handler" where
  "handleSiteTags e r p = with_site r p (\<lambda>i s st.
     case Tags (pl_OrgID p) i (sv_db st) of
       Inl _ \<Rightarrow> (writeError 500 ''tags unavailable'', st)
     | Inr x \<Rightarrow> (writeJSON 200 (BTags x), st))"

definition handleSiteTagsUpdate :: "('m, 'p, 'c) handler" where
  "handleSiteTagsUpdate e r p = with_site r p (\<lambda>i s st.
     decodeJSON [strs_field ''tags'' (\<lambda>f x. f x)] [] r (\<lambda>tags st.
       case sx_propose e of
         Some f \<Rightarrow>
           (case ClusterIDForSite (pl_OrgID p) i (sv_db st) of
              Inl x \<Rightarrow> (writeErr 400 (FSite x), st)
            | Inr cid \<Rightarrow> proposed f r KindTagsSet cid (PutTags \<lparr>tp_SiteClusterID = cid, tp_Tags = tags\<rparr>) (Pair ok_response) st)
       | None \<Rightarrow>
           (case SetTags (pl_OrgID p) i tags (sv_db st) of
              (Inl x, d) \<Rightarrow> (writeErr 400 (FSite x), st\<lparr>sv_db := d\<rparr>)
            | (Inr _, d) \<Rightarrow> (ok_response, st\<lparr>sv_db := d\<rparr>))) st)"

definition handleSite :: "('m, 'p, 'c) handler" where
  "handleSite e r p = with_site r p (\<lambda>i s st. (writeJSON 200 (BSite s), st))"

definition update_fields :: "(string \<times> string \<times> int \<times> bool) field list" where
  "update_fields = [str_field ''name'' fst apfst, str_field ''primary_url'' (fst \<circ> snd) (apsnd \<circ> apfst),
     int_field ''group_id'' (fst \<circ> snd \<circ> snd) (apsnd \<circ> apsnd \<circ> apfst), bool_field ''enabled'' (snd \<circ> snd \<circ> snd) (apsnd \<circ> apsnd \<circ> apsnd)]"

definition handleUpdateSite :: "('m, 'p, 'c) handler" where
  "handleUpdateSite e r p = with_site r p (\<lambda>i s st.
     decodeJSON update_fields ('''', '''', 0, False) r (\<lambda>(nm0, rawURL, grp, enabled) st.
       case sx_propose e of
         Some f \<Rightarrow>
           (case GetForOrg (pl_OrgID p) i (sv_db st) of
              Inl x \<Rightarrow> (writeErr 400 (FSite x), st)
            | Inr oldSite \<Rightarrow>
           (case ClusterIDForSite (pl_OrgID p) i (sv_db st) of
              Inl x \<Rightarrow> (writeErr 400 (FSite x), st)
            | Inr cid \<Rightarrow>
           (case ClusterIDForGroup (pl_OrgID p) grp (sv_db st) of
              Inl x \<Rightarrow> (writeErr 400 (FSite x), st)
            | Inr gcid \<Rightarrow>
                let nm = trim_space nm0
                in if nm = '''' \<or> 120 < length nm then (writeError 400 ''site name must be 1..120 characters'', st)
                   else (case CanonicalURL (sx_url e) rawURL of
                           Inl x \<Rightarrow> (writeErr 400 (FSite x), st)
                         | Inr u \<Rightarrow>
                             proposed f r KindSitePut cid (PutSite \<lparr>sp_ClusterID = cid, sp_OrgID = pl_OrgID p, sp_Name = nm, sp_PrimaryURL = u,
                                 sp_GroupClusterID = gcid, sp_Enabled = enabled, sp_Archived = st_Archived oldSite,
                                 sp_CreatedAt = st_CreatedAt oldSite, sp_UpdatedAt = format_nano (sx_now e 0)\<rparr>)
                               (\<lambda>st. case GetByClusterID (pl_OrgID p) cid (sv_db st) of
                                  Inl x \<Rightarrow> (writeErr 503 (FSite x), st) | Inr s \<Rightarrow> (writeJSON 200 (BSite s), st)) st))))
       | None \<Rightarrow>
           (case UpdateSite (sx_url e) (sx_now e 0) (pl_OrgID p) i nm0 rawURL grp enabled (sv_db st) of
              (Inl x, d) \<Rightarrow> (writeErr 400 (FSite x), st\<lparr>sv_db := d\<rparr>)
            | (Inr s, d) \<Rightarrow> (writeJSON 200 (BSite s), st\<lparr>sv_db := d\<rparr>))) st)"

definition handleArchiveSite :: "('m, 'p, 'c) handler" where
  "handleArchiveSite e r p = with_site r p (\<lambda>i s st.
     decodeJSON [bool_field ''archived'' (\<lambda>b. b) (\<lambda>f b. f b)] False r (\<lambda>archived st.
       case sx_propose e of
         Some f \<Rightarrow>
           (case ClusterIDForSite (pl_OrgID p) i (sv_db st) of
              Inl x \<Rightarrow> (writeErr 400 (FSite x), st)
            | Inr cid \<Rightarrow> proposed f r KindSiteArchive cid
                (ArchiveSite (zero_site\<lparr>sp_ClusterID := cid, sp_Archived := archived, sp_UpdatedAt := format_nano (sx_now e 0)\<rparr>)) (Pair ok_response) st)
       | None \<Rightarrow>
           (case Archive (sx_now e 0) (pl_OrgID p) i archived (sv_db st) of
              (Inl x, d) \<Rightarrow> (writeErr 400 (FSite x), st\<lparr>sv_db := d\<rparr>)
            | (Inr _, d) \<Rightarrow> (ok_response, st\<lparr>sv_db := d\<rparr>))) st)"

definition handleDeleteSite :: "('m, 'p, 'c) handler" where
  "handleDeleteSite e r p = with_site r p (\<lambda>i s st.
     case sx_propose e of
       Some f \<Rightarrow>
         (case GetForOrg (pl_OrgID p) i (sv_db st) of
            Inl x \<Rightarrow> (writeErr 400 (FSite x), st)
          | Inr s \<Rightarrow>
              if \<not> st_Archived s then (writeError 400 ''archive site before deleting it'', st)
              else (case ClusterIDForSite (pl_OrgID p) i (sv_db st) of
                      Inl x \<Rightarrow> (writeErr 400 (FSite x), st)
                    | Inr cid \<Rightarrow> proposed f r KindSiteDelete cid (DropSite cid) (Pair ok_response) st))
     | None \<Rightarrow>
         (case DeleteSite (pl_OrgID p) i (sv_db st) of
            (Inl x, d) \<Rightarrow> (writeErr 400 (FSite x), store_db d st)
          | (Inr _, d) \<Rightarrow> (ok_response, store_db d st)))"

definition handleSession :: "('m, 'p, 'c) handler" where
  "handleSession e r p st = (writeJSON 200 (BSession (pl_Email p) (pl_CSRF p) (pl_Role p) (pl_OrgID p)), st)"

subsection \<open>The table of handlers\<close>

text \<open>The method a route names. The handlers of the cluster, the propagation, the launcher and the database setup are an argument.\<close>

definition site_handlers :: "(string \<times> ('m, 'p, 'c) handler) list" where
  "site_handlers =
    [(''handleAnalyticsGoals'', handleAnalyticsGoals), (''handleCreateAnalyticsGoal'', handleCreateAnalyticsGoal),
     (''handleAnalyticsSummary'', handleAnalyticsSummary), (''handleAnalyticsProperty'', handleAnalyticsProperty),
     (''handleEnableAnalytics'', handleEnableAnalytics), (''handleDisableAnalytics'', handleDisableAnalytics),
     (''handleAnalyticsPages'', handleAnalyticsPages), (''handleAnalyticsCountries'', handleAnalyticsCountries), (''handleAudit'', handleAudit),
     (''handleRunAudit'', handleRunAudit), (''handleAuditHistorySetting'', handleAuditHistorySetting), (''handleSiteCrawl'', handleSiteCrawl),
     (''handleCrawlSite'', handleCrawlSite), (''handleHTTPObservations'', handleHTTPObservations),
     (''handleHeaderExpectations'', handleHeaderExpectations), (''handleHeaderExpectationUpdate'', handleHeaderExpectationUpdate),
     (''handleSiteDNS'', handleSiteDNS), (''handleObserveDNS'', handleObserveDNS), (''handleSiteTLS'', handleSiteTLS),
     (''handleInspectTLS'', handleInspectTLS), (''handleSiteIncidents'', handleSiteIncidents), (''handleCheckSite'', handleCheckSite),
     (''handleSitePerformance'', handleSitePerformance), (''handleDeployments'', handleDeployments),
     (''handleDeploymentRecord'', handleDeploymentRecord), (''handleDeploymentCorrelation'', handleDeploymentCorrelation),
     (''handleSiteChecks'', handleSiteChecks), (''handleSiteTags'', handleSiteTags), (''handleSiteTagsUpdate'', handleSiteTagsUpdate),
     (''handleSite'', handleSite), (''handleUpdateSite'', handleUpdateSite), (''handleArchiveSite'', handleArchiveSite),
     (''handleDeleteSite'', handleDeleteSite)]"

definition member_handlers :: "(string \<times> ('m, 'p, 'c) handler) list" where
  "member_handlers =
    [(''handleMaintenance'', handleMaintenance), (''handleMaintenanceUpdate'', handleMaintenanceUpdate),
     (''handleMaintenanceRun'', handleMaintenanceRun), (''handleFleetAnalytics'', handleFleetAnalytics), (''handleGeoUpdate'', handleGeoUpdate),
     (''handleResolveAudits'', handleResolveAudits), (''handleBatchAudits'', handleBatchAudits), (''handleOIDCConfig'', handleOIDCConfig),
     (''handleOIDCConfigSave'', handleOIDCConfigSave), (''handleLogout'', handleLogout), (''handleChangePassword'', handleChangePassword),
     (''handleFleetLinkRegressions'', handleFleetLinkRegressions), (''handleFleetTLS'', handleFleetTLS),
     (''handleAckIncident'', handleAckIncident), (''handleFleet'', handleFleet), (''handleCreateToken'', handleCreateToken),
     (''handleRevokeToken'', handleRevokeToken), (''handleWebhooks'', handleWebhooks), (''handleWebhookCreate'', handleWebhookCreate),
     (''handleNotificationDeliveries'', handleNotificationDeliveries), (''handleMembers'', handleMembers),
     (''handleMemberUpdate'', handleMemberUpdate), (''handleGroups'', handleGroups), (''handleCreateGroup'', handleCreateGroup),
     (''handleSites'', handleSites), (''handleCreateSite'', handleCreateSite), (''handleSession'', handleSession)]"

definition public_handlers :: "(string \<times> ('m, 'p, 'c) handler) list" where
  "public_handlers =
    [(''handleTracker'', handleTracker), (''handleAnalyticsEvent'', handleAnalyticsEvent), (''handleOIDCLogin'', handleOIDCLogin),
     (''handleOIDCCallback'', handleOIDCCallback), (''handleSetupStatus'', handleSetupStatus), (''handleSetup'', handleSetup),
     (''handleLogin'', handleLogin)]"

definition handlers :: "(string \<times> ('m, 'p, 'c) handler) list" where
  "handlers = site_handlers @ member_handlers @ public_handlers"

definition build :: "(string \<Rightarrow> ('m, 'p, 'c) handler) \<Rightarrow> ('m, 'p, 'c) server_env \<Rightarrow> string \<Rightarrow> http_request \<Rightarrow> principal \<Rightarrow> 'p server
    \<Rightarrow> body response \<times> 'p server" where
  "build other e nm = (case map_of handlers nm of Some h \<Rightarrow> h e | None \<Rightarrow> other nm e)"

definition serve :: "(string \<Rightarrow> ('m, 'p, 'c) handler) \<Rightarrow> ('m, 'p, 'c) server_env \<Rightarrow> routeDef \<Rightarrow> http_request \<Rightarrow> 'p server \<Rightarrow> body response \<times> 'p server" where
  "serve other e def r st = register e (build other e) def r st"

subsection \<open>Sites of other organizations\<close>

definition hidden_site :: "int \<Rightarrow> int \<Rightarrow> db \<Rightarrow> bool" where
  "hidden_site org i d \<longleftrightarrow> (\<forall>s \<in> set (db_sites d). site_id s = i \<longrightarrow> site_org s \<noteq> org)"

lemma with_site_hidden:
  assumes "ParseID (hq_id r) = Inr i" "hidden_site (pl_OrgID p) i (sv_db st)"
  shows "with_site r p k st = (writeError 404 ''site not found'', st)"
  using assms by (cases "GetForOrg (pl_OrgID p) i (sv_db st)") (auto simp: with_site_def pathSiteID_def site_def hidden_site_def dest: GetForOrg_row)

definition site_handler_names :: "string list" where
  "site_handler_names =
    [''handleAnalyticsGoals'', ''handleCreateAnalyticsGoal'', ''handleAnalyticsSummary'', ''handleAnalyticsProperty'', ''handleEnableAnalytics'',
     ''handleDisableAnalytics'', ''handleAnalyticsPages'', ''handleAnalyticsCountries'', ''handleAudit'', ''handleRunAudit'',
     ''handleAuditHistorySetting'', ''handleSiteCrawl'', ''handleCrawlSite'', ''handleHTTPObservations'', ''handleHeaderExpectations'',
     ''handleHeaderExpectationUpdate'', ''handleSiteDNS'', ''handleObserveDNS'', ''handleSiteTLS'', ''handleInspectTLS'',
     ''handleSiteIncidents'', ''handleCheckSite'', ''handleSitePerformance'', ''handleDeployments'', ''handleDeploymentRecord'',
     ''handleDeploymentCorrelation'', ''handleSiteChecks'', ''handleSiteTags'', ''handleSiteTagsUpdate'', ''handleSite'', ''handleUpdateSite'',
     ''handleArchiveSite'', ''handleDeleteSite'']"

lemma site_handler_names_eq: "map fst site_handlers = site_handler_names"
  by (simp only: site_handlers_def site_handler_names_def list.map fst_conv)

definition member_handler_names :: "string list" where
  "member_handler_names =
    [''handleMaintenance'', ''handleMaintenanceUpdate'', ''handleMaintenanceRun'', ''handleFleetAnalytics'', ''handleGeoUpdate'',
     ''handleResolveAudits'', ''handleBatchAudits'', ''handleOIDCConfig'', ''handleOIDCConfigSave'', ''handleLogout'', ''handleChangePassword'',
     ''handleFleetLinkRegressions'', ''handleFleetTLS'', ''handleAckIncident'', ''handleFleet'', ''handleCreateToken'', ''handleRevokeToken'',
     ''handleWebhooks'', ''handleWebhookCreate'', ''handleNotificationDeliveries'', ''handleMembers'', ''handleMemberUpdate'', ''handleGroups'',
     ''handleCreateGroup'', ''handleSites'', ''handleCreateSite'', ''handleSession'']"

lemma member_handler_names_eq: "map fst member_handlers = member_handler_names"
  by (simp only: member_handlers_def member_handler_names_def list.map fst_conv)

lemma handler_names_disjoint: "list_all (\<lambda>nm. nm \<notin> set site_handler_names) member_handler_names"
  by code_simp

lemma site_routes: "list_all (\<lambda>d. has_prefix (rd_path d) ''/api/sites/{id}'' \<longrightarrow> rd_build d \<in> set site_handler_names \<and> rd_action d \<noteq> '''') apiRouteDefs"
  by code_simp

lemmas site_handler_defs = handleSiteTags_def handleSiteTagsUpdate_def handleSite_def handleUpdateSite_def handleArchiveSite_def handleDeleteSite_def
  handleAnalyticsProperty_def handleEnableAnalytics_def handleAnalyticsSummary_def handleAnalyticsPages_def handleAnalyticsCountries_def
  handleDisableAnalytics_def handleAnalyticsGoals_def handleCreateAnalyticsGoal_def handleAudit_def handleRunAudit_def
  handleAuditHistorySetting_def handleCheckSite_def handleDeployments_def handleDeploymentRecord_def handleDeploymentCorrelation_def
  handleSiteChecks_def handleSitePerformance_def handleSiteIncidents_def handleSiteTLS_def handleInspectTLS_def handleSiteDNS_def
  handleObserveDNS_def handleHTTPObservations_def handleSiteCrawl_def handleCrawlSite_def handleHeaderExpectations_def
  handleHeaderExpectationUpdate_def

lemma site_handlers_hidden:
  assumes "(nm, h) \<in> set site_handlers" "ParseID (hq_id r) = Inr i" "hidden_site (pl_OrgID p) i (sv_db st)"
  shows "h e r p st = (writeError 404 ''site not found'', st)"
proof -
  have "list_all (\<lambda>x. snd x e r p st = (writeError 404 ''site not found'', st)) site_handlers"
    by (simp only: site_handlers_def list.pred_inject snd_conv site_handler_defs with_site_hidden [OF assms(2,3)] simp_thms)
  with assms(1) show ?thesis by (auto simp: list_all_iff)
qed

lemma build_site:
  fixes e :: "('m, 'p, 'c) server_env"
  assumes "nm \<in> set site_handler_names"
  obtains h where "(nm, h) \<in> set site_handlers" "build other e nm = h e"
proof -
  from assms have "nm \<in> fst ` set (site_handlers :: (string \<times> ('m, 'p, 'c) handler) list)"
    by (metis site_handler_names_eq set_map)
  then obtain h :: "('m, 'p, 'c) handler" where "map_of site_handlers nm = Some h" by (metis map_of_eq_None_iff not_None_eq)
  then show ?thesis using that map_of_SomeD by (fastforce simp: build_def handlers_def map_add_def split: option.split)
qed

end
