(* ===== verification/Tenancy.thy ===== *)
theory Tenancy
  imports Server
begin

text \<open>
  The organizations of one installation, across the route table, the middleware and the handlers: a site of another organization looks
  like a site that does not exist, and a request changes nothing that belongs to another organization.
\<close>

subsection \<open>What belongs to other organizations\<close>

definition tenant_view :: "int \<Rightarrow> 'p server \<Rightarrow> (group_row list \<times> site_row list \<times> tag_row list) \<times> tls_row list \<times> dns_row list \<times>
    deployment_row list \<times> property_row list \<times> (int \<times> bool) list \<times> member_row list \<times> token_row list" where
  "tenant_view org st =
     (let f = foreign_site org (sv_db st)
      in (foreign_view org (sv_db st), filter (\<lambda>x. f (tl_site x)) (ob_tls (sv_obs st)), filter (\<lambda>x. f (dn_site x)) (ob_dns (sv_obs st)),
          filter (\<lambda>x. f (dp_site x)) (sv_deploys st), filter (\<lambda>x. f (ap_site x)) (an_props (sv_an st)),
          filter (\<lambda>x. f (fst x)) (au_settings (sv_audits st)), filter (\<lambda>m. mb_org m \<noteq> org) (ac_members (sr_acct st)),
          map (\<lambda>t. t\<lparr>tk_used := None\<rparr>) (filter (\<lambda>t. tk_org t \<noteq> org) (ac_tokens (sr_acct st)))))"

lemma foreign_site_ids: "foreign_site org d = (\<lambda>i. i \<in> site_id ` set (filter (\<lambda>s. site_org s \<noteq> org) (db_sites d)))"
  by (auto simp: foreign_site_def fun_eq_iff)

lemma foreign_site_view: "foreign_view org d' = foreign_view org d \<Longrightarrow> foreign_site org d' = foreign_site org d"
  unfolding foreign_site_ids by (simp add: foreign_view_def)

lemma foreign_site_live: "foreign_site org d i \<Longrightarrow> i \<in> set (site_ids d)"
  by (auto simp: foreign_site_def)

lemma tenant_view_db:
  assumes "foreign_view org d = foreign_view org (sv_db st)"
  shows "tenant_view org (st\<lparr>sv_db := d\<rparr>) = tenant_view org st"
  using assms foreign_site_view [OF assms] by (simp add: tenant_view_def Let_def)

lemma tenant_view_store_db:
  assumes same: "foreign_view org d = foreign_view org (sv_db st)"
  shows "tenant_view org (store_db d st) = tenant_view org st"
proof -
  let ?f = "foreign_site org (sv_db st)"
  have "i \<in> site_id ` set (db_sites d) \<and> ?f i \<longleftrightarrow> ?f i" for i
    using foreign_site_live [of org d i] foreign_site_view [OF same] by auto
  then show ?thesis using same foreign_site_view [OF same]
    by (simp add: tenant_view_def store_db_def Let_def live_obs_def live_an_def live_audits_def live_crawls_def)
qed

subsection \<open>The operations of a site leave the rows of other sites alone\<close>

lemma persist_tls_other: "\<not> f (tl_site o1) \<Longrightarrow> filter (\<lambda>x. f (tl_site x)) (ob_tls (snd (persist_tls d o1 t))) = filter (\<lambda>x. f (tl_site x)) (ob_tls t) \<and>
    ob_dns (snd (persist_tls d o1 t)) = ob_dns t"
  by (simp add: persist_tls_def Let_def)

lemma InspectSite_other:
  "\<not> f i \<Longrightarrow> filter (\<lambda>x. f (tl_site x)) (ob_tls (snd (InspectSite w i d t))) = filter (\<lambda>x. f (tl_site x)) (ob_tls t) \<and>
     ob_dns (snd (InspectSite w i d t)) = ob_dns t"
proof -
  assume own: "\<not> f i"
  have "\<not> f (tl_site ((blank_tls i at)\<lparr>tl_error_class := cls, tl_error := e\<rparr>))" "\<not> f (tl_site (certificate_observed c (blank_tls i at)))" for at cls e c
    using own by (simp_all add: blank_tls_def certificate_observed_def)
  note other = this [THEN persist_tls_other [where f = f and d = d and t = t]]
  show ?thesis unfolding InspectSite_def Let_def
    by (split option.split sum.split prod.split if_split list.split | intro conjI allI impI | simp only: snd_conv other)+
qed

lemma persist_dns_other: "\<not> f (dn_site o1) \<Longrightarrow> filter (\<lambda>x. f (dn_site x)) (ob_dns (snd (persist_dns d o1 t))) = filter (\<lambda>x. f (dn_site x)) (ob_dns t) \<and>
    ob_tls (snd (persist_dns d o1 t)) = ob_tls t"
  by (simp add: persist_dns_def Let_def)

lemma ObserveSite_other:
  "\<not> f i \<Longrightarrow> filter (\<lambda>x. f (dn_site x)) (ob_dns (snd (ObserveSite w i d t))) = filter (\<lambda>x. f (dn_site x)) (ob_dns t) \<and>
     ob_tls (snd (ObserveSite w i d t)) = ob_tls t"
  by (auto simp: ObserveSite_def Let_def persist_dns_other split: option.split sum.split)

lemma filter_upd_other: "(\<And>x. x \<in> set xs \<Longrightarrow> P x \<Longrightarrow> \<not> Q x \<and> \<not> Q (g x)) \<Longrightarrow> filter Q (upd_where P g xs) = filter Q xs"
  by (induction xs) (auto simp: upd_where_def)

lemma Enable_other: "\<not> f i \<Longrightarrow> filter (\<lambda>x. f (ap_site x)) (an_props (snd (Enable nu key now i d t))) = filter (\<lambda>x. f (ap_site x)) (an_props t)"
  by (auto simp: Enable_def Let_def intro!: filter_upd_other split: option.split)

lemma Disable_other:
  assumes "\<not> f i" "distinct (map ap_id (an_props t))"
  shows "filter (\<lambda>x. f (ap_site x)) (an_props (snd (Disable i t))) = filter (\<lambda>x. f (ap_site x)) (an_props t)"
proof (cases "first_row (\<lambda>p. ap_site p = i) (an_props t)")
  case (Some p)
  have "filter (\<lambda>x. f (ap_site x)) (upd_where (\<lambda>q. ap_id q = ap_id p) (\<lambda>q. q\<lparr>ap_enabled := False\<rparr>) (an_props t)) = filter (\<lambda>x. f (ap_site x)) (an_props t)"
  proof (rule filter_upd_other)
    fix q assume "q \<in> set (an_props t)" "ap_id q = ap_id p"
    then have "q = p" using distinct_map_inj [OF assms(2)] first_row_Some [OF Some] by blast
    then show "\<not> f (ap_site q) \<and> \<not> f (ap_site (q\<lparr>ap_enabled := False\<rparr>))" using first_row_Some [OF Some] assms(1) by simp
  qed
  then show ?thesis by (simp add: Disable_def PropertyOf_def Some)
qed (simp add: Disable_def PropertyOf_def)

lemma CreateGoal_other: "an_props (snd (CreateGoal now i nm kind path t)) = an_props t"
  by (auto simp: CreateGoal_def Let_def split: option.split)

lemma SetHistory_other: "\<not> f i \<Longrightarrow> filter (\<lambda>x. f (fst x)) (au_settings (snd (SetHistory i on d t))) = filter (\<lambda>x. f (fst x)) (au_settings t)"
  by (auto simp: SetHistory_def intro!: filter_cong)

lemma RecordDeployment_other:
  "\<not> f (dp_site x) \<Longrightarrow> filter (\<lambda>x. f (dp_site x)) (snd (RecordDeployment rfc n1 n2 x d rs)) = filter (\<lambda>x. f (dp_site x)) rs"
proof -
  assume "\<not> f (dp_site x)"
  then have "filter (\<lambda>x. f (dp_site x)) (snd (upsert_deployment y rs)) = filter (\<lambda>x. f (dp_site x)) rs" if "dp_site y = dp_site x" for y
    using that by (auto simp: upsert_deployment_def Let_def intro!: filter_upd_other split: option.split)
  moreover have "dp_site y = dp_site x" if "deployment_input rfc n1 n2 x = Inr y" for y
    using that by (auto simp: deployment_input_def Let_def split: if_splits)
  ultimately show ?thesis by (auto simp: RecordDeployment_def case_prod_beta Let_def split: sum.split)
qed

lemma foreign_view_cong:
  "db_groups d' = db_groups d \<Longrightarrow> db_sites d' = db_sites d \<Longrightarrow> db_tags d' = db_tags d \<Longrightarrow> foreign_view org d' = foreign_view org d"
  by (simp add: foreign_view_def foreign_site_def)

text \<open>The inventory: the three tables the monitor, the incidents and the webhooks never write.\<close>

definition inventory :: "db \<Rightarrow> group_row list \<times> site_row list \<times> tag_row list" where
  "inventory d = (db_groups d, db_sites d, db_tags d)"

lemma inventory_view: "inventory d' = inventory d \<Longrightarrow> foreign_view org d' = foreign_view org d"
  by (auto simp: inventory_def intro: foreign_view_cong)

lemma Transition_inventory: "Transition sid prev nxt at d = Inr d' \<Longrightarrow> inventory d' = inventory d"
  by (auto simp: inventory_def Transition_def Let_def recordDelivery_def insert_incident_def update_incident_def enqueueWebhooks_def split: if_splits)

lemma updateHealth_inventory: "inventory (snd (updateHealth r d)) = inventory d"
proof -
  have stored: "inventory d1 = inventory d" if "store_health r nx n d = Inr d1" for nx n d1
    using that by (auto simp: inventory_def store_health_def insert_health_def Let_def split: option.splits if_splits)
  show ?thesis unfolding updateHealth_def Let_def
    by (auto split: sum.splits dest!: stored Transition_inventory)
qed

lemma persist_inventory: "inventory (snd (persist r d)) = inventory d"
proof (cases "insert_check r d")
  case (Inr x)
  then obtain i d1 where x: "x = (i, d1)" "inventory d1 = inventory d"
    by (cases x) (auto simp: inventory_def insert_check_def Let_def split: if_splits)
  then show ?thesis using Inr updateHealth_inventory [of "r\<lparr>chk_id := i\<rparr>" d1]
    by (simp add: persist_def Let_def case_prod_beta split: sum.split)
qed (simp add: persist_def)

lemma CheckSite_inventory: "inventory (snd (CheckSite net sid d)) = inventory d"
  by (rule CheckSite_preserves [OF persist_inventory]) (simp add: inventory_def persistHTTPObservation_def Let_def)

lemma SetHeaderExpectation_inventory: "SetHeaderExpectation i nm req d = Inr d' \<Longrightarrow> inventory d' = inventory d"
  by (auto simp: inventory_def SetHeaderExpectation_def Let_def split: if_splits)

lemma Acknowledge_inventory: "Acknowledge org i at d = Inr d' \<Longrightarrow> inventory d' = inventory d"
  by (auto simp: inventory_def Acknowledge_def update_incident_def split: if_splits)

lemma CreateWebhook_inventory: "inventory (snd (CreateWebhook nu g secret now org nm url d)) = inventory d"
  by (auto simp: inventory_def CreateWebhook_def Let_def split: option.split sum.split)

lemma MaintenanceRun_view:
  "MaintenanceRun n1 n2 n3 row d t u = (d', t', u') \<Longrightarrow> inventory d' = inventory d \<and> an_props t' = an_props t \<and> au_settings u' = au_settings u"
  by (auto simp: inventory_def MaintenanceRun_def delete_checks_def purge_events_def purge_audits_def Let_def)

lemmas inventory_views = CheckSite_inventory [THEN inventory_view] SetHeaderExpectation_inventory [THEN inventory_view]
  Acknowledge_inventory [THEN inventory_view] CreateWebhook_inventory [THEN inventory_view]

subsection \<open>Batches\<close>

definition batch_schedule :: "(db \<Rightarrow> int list \<Rightarrow> batch_state \<Rightarrow> batch_state) \<Rightarrow> bool" where
  "batch_schedule f \<longleftrightarrow> (\<forall>d ids b. \<exists>nu dtext br. (batch_step nu dtext br d ids)\<^sup>*\<^sup>* b (f d ids b))"

lemma batch_step_settings: "batch_step nu dtext br d ids b b' \<Longrightarrow> au_settings (batch_tables b') = au_settings (batch_tables b)"
  by (cases rule: batch_step.cases, assumption) (auto simp: run_begin_def run_finish_def Let_def split: option.splits if_splits)

lemma batch_schedule_settings:
  assumes "batch_schedule f"
  shows "au_settings (batch_tables (f d ids b)) = au_settings (batch_tables b)"
proof -
  from assms obtain nu dtext br where "(batch_step nu dtext br d ids)\<^sup>*\<^sup>* b (f d ids b)" unfolding batch_schedule_def by blast
  then show ?thesis by (induction rule: rtranclp_induct) (auto dest: batch_step_settings)
qed

subsection \<open>The handlers\<close>

definition tenant_ok :: "('m, 'p, 'c) server_env \<Rightarrow> 'p server \<Rightarrow> bool" where
  "tenant_ok e st \<longleftrightarrow> db_ok (sv_db st) \<and> distinct (map ap_id (an_props (sv_an st))) \<and> sx_propose e = None \<and> batch_schedule (sx_batch e)"

definition in_tenant :: "('m, 'p, 'c) handler \<Rightarrow> bool" where
  "in_tenant h \<longleftrightarrow> (\<forall>e r p st. tenant_ok e st \<longrightarrow> tenant_view (pl_OrgID p) (snd (h e r p st)) = tenant_view (pl_OrgID p) st)"

lemma in_tenantI: "(\<And>e r p st. tenant_ok e st \<Longrightarrow> tenant_view (pl_OrgID p) (snd (h e r p st)) = tenant_view (pl_OrgID p) st) \<Longrightarrow> in_tenant h"
  by (simp add: in_tenant_def)

lemma in_tenant_reads: "(\<And>e r p st. snd (h e r p st) = st) \<Longrightarrow> in_tenant h"
  by (simp add: in_tenant_def)

lemma decodeJSON_snd: "(\<And>v. V (snd (k v st)) = V st) \<Longrightarrow> V (snd (decodeJSON fs zero r k st)) = V st"
  by (simp add: decodeJSON_def split: sum.split)

lemma with_site_own:
  assumes "db_ok (sv_db st)"
    and "\<And>i s. GetForOrg (pl_OrgID p) i (sv_db st) = Inr s \<Longrightarrow> \<not> foreign_site (pl_OrgID p) (sv_db st) i \<Longrightarrow> V (snd (k i s st)) = V st"
  shows "V (snd (with_site r p k st)) = V st"
  using assms own_site_not_foreign [OF assms(1)] by (auto simp: with_site_def site_def split: sum.split)

lemma with_site_reads: "(\<And>i s st. snd (k i s st) = st) \<Longrightarrow> snd (with_site r p k st) = st"
  by (simp add: with_site_def split: sum.split)

text \<open>The parts of the state a handler may replace freely.\<close>

lemma tenant_view_rest [simp]:
  "tenant_view org (st\<lparr>sv_jobs := js\<rparr>) = tenant_view org st" "tenant_view org (st\<lparr>sv_auditing := b\<rparr>) = tenant_view org st"
  "tenant_view org (st\<lparr>sv_crawling := b\<rparr>) = tenant_view org st" "tenant_view org (st\<lparr>sv_retention := v\<rparr>) = tenant_view org st"
  "tenant_view org (st\<lparr>sv_passwordLim := l\<rparr>) = tenant_view org st" "tenant_view org (st\<lparr>sv_providers := pr\<rparr>) = tenant_view org st"
  by (simp_all add: tenant_view_def Let_def)

lemma tenant_view_an: "filter (\<lambda>x. foreign_site org (sv_db st) (ap_site x)) (an_props t) = filter (\<lambda>x. foreign_site org (sv_db st) (ap_site x)) (an_props (sv_an st)) \<Longrightarrow>
    tenant_view org (st\<lparr>sv_an := t\<rparr>) = tenant_view org st"
  by (simp add: tenant_view_def Let_def)

lemma tenant_view_settings: "filter (\<lambda>x. foreign_site org (sv_db st) (fst x)) (au_settings t) = filter (\<lambda>x. foreign_site org (sv_db st) (fst x)) (au_settings (sv_audits st)) \<Longrightarrow>
    tenant_view org (st\<lparr>sv_audits := t\<rparr>) = tenant_view org st"
  by (simp add: tenant_view_def Let_def)

lemma tenant_view_deploys: "filter (\<lambda>x. foreign_site org (sv_db st) (dp_site x)) ds = filter (\<lambda>x. foreign_site org (sv_db st) (dp_site x)) (sv_deploys st) \<Longrightarrow>
    tenant_view org (st\<lparr>sv_deploys := ds\<rparr>) = tenant_view org st"
  by (simp add: tenant_view_def Let_def)

lemma tenant_view_obs: "filter (\<lambda>x. foreign_site org (sv_db st) (tl_site x)) (ob_tls t) = filter (\<lambda>x. foreign_site org (sv_db st) (tl_site x)) (ob_tls (sv_obs st)) \<Longrightarrow>
    filter (\<lambda>x. foreign_site org (sv_db st) (dn_site x)) (ob_dns t) = filter (\<lambda>x. foreign_site org (sv_db st) (dn_site x)) (ob_dns (sv_obs st)) \<Longrightarrow>
    tenant_view org (st\<lparr>sv_obs := t\<rparr>) = tenant_view org st"
  by (simp add: tenant_view_def Let_def)

lemma tenant_view_acct: "filter (\<lambda>m. mb_org m \<noteq> org) (ac_members a) = filter (\<lambda>m. mb_org m \<noteq> org) (ac_members (sr_acct st)) \<Longrightarrow>
    filter (\<lambda>t. tk_org t \<noteq> org) (ac_tokens a) = filter (\<lambda>t. tk_org t \<noteq> org) (ac_tokens (sr_acct st)) \<Longrightarrow>
    tenant_view org (st\<lparr>sr_acct := a\<rparr>) = tenant_view org st"
  by (simp add: tenant_view_def Let_def)

lemmas read_handler_defs = handleSiteTags_def handleSite_def handleAnalyticsProperty_def handleAnalyticsSummary_def handleAnalyticsPages_def
  handleAnalyticsCountries_def handleAnalyticsGoals_def handleAudit_def handleDeployments_def handleDeploymentCorrelation_def
  handleSiteChecks_def handleSitePerformance_def handleSiteIncidents_def handleSiteTLS_def handleSiteDNS_def handleHTTPObservations_def
  handleSiteCrawl_def handleHeaderExpectations_def handleMaintenance_def handleFleetAnalytics_def handleOIDCConfig_def
  handleFleetLinkRegressions_def handleFleetTLS_def handleFleet_def handleWebhooks_def handleNotificationDeliveries_def handleMembers_def
  handleGroups_def handleSites_def handleSession_def

lemma reads_in_tenant:
  "in_tenant handleSiteTags" "in_tenant handleSite" "in_tenant handleAnalyticsProperty" "in_tenant handleAnalyticsSummary"
  "in_tenant handleAnalyticsPages" "in_tenant handleAnalyticsCountries" "in_tenant handleAnalyticsGoals" "in_tenant handleAudit"
  "in_tenant handleDeployments" "in_tenant handleDeploymentCorrelation" "in_tenant handleSiteChecks" "in_tenant handleSitePerformance"
  "in_tenant handleSiteIncidents" "in_tenant handleSiteTLS" "in_tenant handleSiteDNS" "in_tenant handleHTTPObservations"
  "in_tenant handleSiteCrawl" "in_tenant handleHeaderExpectations" "in_tenant handleMaintenance" "in_tenant handleFleetAnalytics"
  "in_tenant handleOIDCConfig" "in_tenant handleFleetLinkRegressions" "in_tenant handleFleetTLS" "in_tenant handleFleet"
  "in_tenant handleWebhooks" "in_tenant handleNotificationDeliveries" "in_tenant handleMembers" "in_tenant handleGroups"
  "in_tenant handleSites" "in_tenant handleSession"
  by (rule in_tenant_reads; simp only: read_handler_defs Let_def; (rule with_site_reads)?; auto split: sum.split prod.split)+

lemma resolve_in_tenant: "in_tenant handleResolveAudits"
  by (rule in_tenantI) (auto simp: handleResolveAudits_def intro!: decodeJSON_snd split: sum.split)

lemma tenant_okD: "tenant_ok e st \<Longrightarrow> db_ok (sv_db st)" "tenant_ok e st \<Longrightarrow> distinct (map ap_id (an_props (sv_an st)))"
  "tenant_ok e st \<Longrightarrow> sx_propose e = None" "tenant_ok e st \<Longrightarrow> batch_schedule (sx_batch e)"
  by (simp_all add: tenant_ok_def)

lemma snd_answer: "snd (case X of (Inl x, t) \<Rightarrow> (f x, u t) | (Inr y, t) \<Rightarrow> (g y, u t)) = u (snd X)"
  by (simp add: case_prod_beta split: sum.split)

lemma snd_answer2: "snd (case X of (Inl x, s, t) \<Rightarrow> (f x, u s t) | (Inr y, s, t) \<Rightarrow> (g y, u s t)) = u (fst (snd X)) (snd (snd X))"
  by (simp add: case_prod_beta split: sum.split)

lemma site_handler_in_tenant:
  assumes "\<And>e r p. h e r p = with_site r p (k e r p)"
    and "\<And>e r p st i s. tenant_ok e st \<Longrightarrow> GetForOrg (pl_OrgID p) i (sv_db st) = Inr s \<Longrightarrow> \<not> foreign_site (pl_OrgID p) (sv_db st) i \<Longrightarrow>
      tenant_view (pl_OrgID p) (snd (k e r p i s st)) = tenant_view (pl_OrgID p) st"
  shows "in_tenant h"
  using assms(2) tenant_okD(1) by (intro in_tenantI) (auto simp: assms(1) intro!: with_site_own)

lemma decodeJSON_pair: "(\<And>a b. V (snd (k a b st)) = V st) \<Longrightarrow> V (snd (decodeJSON fs zero r (\<lambda>(a, b). k a b) st)) = V st"
  by (rule decodeJSON_snd) (simp add: case_prod_beta)

lemma decodeJSON_triple: "(\<And>a b c. V (snd (k a b c st)) = V st) \<Longrightarrow> V (snd (decodeJSON fs zero r (\<lambda>(a, b, c). k a b c) st)) = V st"
  by (rule decodeJSON_snd) (simp add: case_prod_beta)

lemma decodeJSON_quad: "(\<And>a b c d. V (snd (k a b c d st)) = V st) \<Longrightarrow> V (snd (decodeJSON fs zero r (\<lambda>(a, b, c, d). k a b c d) st)) = V st"
  by (rule decodeJSON_snd) (simp add: case_prod_beta)

lemma analytics_in_tenant:
  "in_tenant handleEnableAnalytics" "in_tenant handleDisableAnalytics" "in_tenant handleCreateAnalyticsGoal"
  by (rule site_handler_in_tenant, rule handleEnableAnalytics_def, simp add: snd_answer tenant_view_an Enable_other)
     (rule site_handler_in_tenant, rule handleDisableAnalytics_def, simp add: snd_answer tenant_view_an Disable_other tenant_okD(2),
      rule site_handler_in_tenant, rule handleCreateAnalyticsGoal_def, rule decodeJSON_triple, simp add: snd_answer tenant_view_an CreateGoal_other)

lemma audits_in_tenant: "in_tenant handleRunAudit" "in_tenant handleAuditHistorySetting" "in_tenant handleBatchAudits" "in_tenant handleCrawlSite"
proof -
  show "in_tenant handleRunAudit" by (rule site_handler_in_tenant, rule handleRunAudit_def) (simp add: Let_def case_prod_beta)
  show "in_tenant handleCrawlSite" by (rule site_handler_in_tenant, rule handleCrawlSite_def) (simp add: Let_def case_prod_beta)
  show "in_tenant handleAuditHistorySetting"
    by (rule site_handler_in_tenant, rule handleAuditHistorySetting_def, rule decodeJSON_snd) (simp add: snd_answer tenant_view_settings SetHistory_other)
  show "in_tenant handleBatchAudits"
    by (rule in_tenantI, unfold handleBatchAudits_def, rule decodeJSON_snd)
       (auto simp: RunBatch_def Let_def batch_schedule_settings tenant_okD(4) intro!: tenant_view_settings)
qed

lemma observations_in_tenant:
  "in_tenant handleObserveDNS" "in_tenant handleInspectTLS" "in_tenant handleCheckSite" "in_tenant handleHeaderExpectationUpdate" "in_tenant handleAckIncident"
  "in_tenant handleDeploymentRecord"
proof -
  show "in_tenant handleObserveDNS"
    by (rule site_handler_in_tenant, rule handleObserveDNS_def) (simp add: snd_answer tenant_view_obs ObserveSite_other)
  show "in_tenant handleInspectTLS"
    by (rule site_handler_in_tenant, rule handleInspectTLS_def) (simp add: snd_answer tenant_view_obs InspectSite_other)
  show "in_tenant handleHeaderExpectationUpdate"
    by (rule site_handler_in_tenant, rule handleHeaderExpectationUpdate_def, rule decodeJSON_pair)
       (auto intro!: tenant_view_db inventory_views(2) split: sum.split)
  show "in_tenant handleAckIncident"
    by (rule in_tenantI) (auto simp: handleAckIncident_def intro!: tenant_view_db inventory_views(3) split: option.split sum.split)
  show "in_tenant handleDeploymentRecord"
    by (rule site_handler_in_tenant, rule handleDeploymentRecord_def, rule decodeJSON_pair) (simp add: snd_answer tenant_view_deploys RecordDeployment_other)
  show "in_tenant handleCheckSite"
  proof (rule site_handler_in_tenant, rule handleCheckSite_def, goal_cases)
    case (1 e r p st i s)
    obtain res d where c: "CheckSite (sx_check e) i (sv_db st) = (res, d)" by fastforce
    have same: "foreign_view (pl_OrgID p) d = foreign_view (pl_OrgID p) (sv_db st)"
      using inventory_views(1) [of "pl_OrgID p" "sx_check e" i "sv_db st"] c by simp
    let ?t = "snd (ObserveSite (sx_dns e) i d (snd (InspectSite (sx_inspect e) i d (sv_obs st))))"
    have "tenant_view (pl_OrgID p) (st\<lparr>sv_db := d, sv_obs := ?t\<rparr>) = tenant_view (pl_OrgID p) (st\<lparr>sv_db := d\<rparr>)"
      using 1(3) by (intro tenant_view_obs) (simp_all add: foreign_site_view [OF same] ObserveSite_other InspectSite_other)
    then show ?case using tenant_view_db [OF same] by (simp add: c Let_def case_prod_beta split: sum.split)
  qed
qed

lemma Add_other:
  "filter (\<lambda>m. mb_org m \<noteq> org) (ac_members (snd (Add d now actor org email role a))) = filter (\<lambda>m. mb_org m \<noteq> org) (ac_members a)"
proof -
  have "filter (\<lambda>m. mb_org m \<noteq> org) (ac_members a') = filter (\<lambda>m. mb_org m \<noteq> org) (ac_members a)"
    if "upsert_member d r a = Inr a'" "mb_org r = org" for r a'
    using that by (auto simp: upsert_member_def insert_member_def intro!: filter_upd_other split: if_splits)
  note other = this
  show ?thesis
  proof (cases "to_lower role \<notin> {''owner'', ''admin'', ''operator'', ''viewer''}")
    case True
    show ?thesis unfolding Add_def Let_def if_P [OF True] by simp
  next
    case False
    show ?thesis unfolding Add_def Let_def if_not_P [OF False] by (auto split: option.split sum.split dest: other)
  qed
qed

lemma Create_other:
  "ac_members (snd (Create d sha tok now user org nm scopes a)) = ac_members a \<and>
   filter (\<lambda>t. tk_org t \<noteq> org) (ac_tokens (snd (Create d sha tok now user org nm scopes a))) = filter (\<lambda>t. tk_org t \<noteq> org) (ac_tokens a)"
  by (auto simp: Create_def Let_def)

lemma Revoke_other:
  "ac_members (Revoke now i user org a) = ac_members a \<and>
   filter (\<lambda>t. tk_org t \<noteq> org) (ac_tokens (Revoke now i user org a)) = filter (\<lambda>t. tk_org t \<noteq> org) (ac_tokens a)"
  by (auto simp: Revoke_def intro!: filter_upd_other)

lemma Logout_other: "ac_members (Logout sha now raw a) = ac_members a \<and> ac_tokens (Logout sha now raw a) = ac_tokens a"
  by (simp add: Logout_def audit_event_def delete_session_def)

lemma ChangePassword_other:
  "ac_members (snd (ChangePassword ca pt sha now i old new keep a)) = ac_members a \<and> ac_tokens (snd (ChangePassword ca pt sha now i old new keep a)) = ac_tokens a"
  by (auto simp: ChangePassword_def Let_def audit_event_def split: option.split sum.split)

lemma Save_other: "ac_members (snd (snd (Save w now c prov a))) = ac_members a \<and> ac_tokens (snd (snd (Save w now c prov a))) = ac_tokens a"
  by (auto simp: Save_def Let_def split: prod.split option.split)

lemma accounts_in_tenant:
  "in_tenant handleMemberUpdate" "in_tenant handleCreateToken" "in_tenant handleRevokeToken" "in_tenant handleLogout" "in_tenant handleChangePassword"
  "in_tenant handleOIDCConfigSave"
proof -
  show "in_tenant handleMemberUpdate"
    by (rule in_tenantI, unfold handleMemberUpdate_def, rule decodeJSON_pair) (simp add: snd_answer tenant_view_acct Add_other Add_users)
  show "in_tenant handleCreateToken"
    by (rule in_tenantI, unfold handleCreateToken_def, rule decodeJSON_pair) (simp add: snd_answer tenant_view_acct Create_other)
  show "in_tenant handleRevokeToken"
    by (rule in_tenantI) (simp add: handleRevokeToken_def tenant_view_acct Revoke_other split: option.split)
  show "in_tenant handleLogout"
    by (rule in_tenantI) (simp add: handleLogout_def Let_def tenant_view_acct Logout_other split: option.split)
  show "in_tenant handleOIDCConfigSave"
  proof (rule in_tenantI, unfold handleOIDCConfigSave_def, rule decodeJSON_snd, goal_cases)
    case (1 e r p st c)
    let ?S = "Save (sx_oidc e) (sx_now e 0) c (sv_providers st) (sr_acct st)"
    have "tenant_view (pl_OrgID p) (st\<lparr>sv_providers := fst (snd ?S), sr_acct := snd (snd ?S)\<rparr>) = tenant_view (pl_OrgID p) (st\<lparr>sv_providers := fst (snd ?S)\<rparr>)"
      by (rule tenant_view_acct) (simp_all add: Save_other)
    then show ?case by (simp add: snd_answer2)
  qed
  show "in_tenant handleChangePassword"
  proof (rule in_tenantI, goal_cases)
    case (1 e r p st)
    obtain ok l where lim: "Allow (''password:'' @ ClientIP (nv_proxy e) (meta r)) (sx_now e 0) (sv_passwordLim st) = (ok, l)" by fastforce
    have "tenant_view (pl_OrgID p) (st\<lparr>sv_passwordLim := l, sr_acct := snd (ChangePassword (sx_core e) (nv_parse_time e) (nv_sha e) (sx_now e 1) (pl_UserID p) old new c (sr_acct st))\<rparr>) =
        tenant_view (pl_OrgID p) (st\<lparr>sv_passwordLim := l\<rparr>)" for old new c
      by (rule tenant_view_acct) (simp_all add: ChangePassword_other)
    then show ?case unfolding handleChangePassword_def lim Let_def prod.case
      by (cases ok) (simp_all, rule trans, rule decodeJSON_pair, simp_all add: snd_answer split: option.split)
  qed
qed

lemma global_in_tenant: "in_tenant handleMaintenanceUpdate" "in_tenant handleMaintenanceRun" "in_tenant handleGeoUpdate" "in_tenant handleWebhookCreate"
proof -
  show "in_tenant handleMaintenanceUpdate"
    by (rule in_tenantI, unfold handleMaintenanceUpdate_def, rule decodeJSON_snd) (simp add: snd_answer)
  show "in_tenant handleGeoUpdate" by (rule in_tenantI) (simp add: handleGeoUpdate_def)
  show "in_tenant handleWebhookCreate"
  proof (rule in_tenantI, unfold handleWebhookCreate_def, rule decodeJSON_pair, goal_cases)
    case (1 e r p st nm url)
    obtain res d where c: "CreateWebhook (sx_url e) (sx_hooks e) (sx_random e 0) (sx_now e 0) (pl_OrgID p) nm url (sv_db st) = (res, d)" by fastforce
    then have "foreign_view (pl_OrgID p) d = foreign_view (pl_OrgID p) (sv_db st)" by (metis inventory_views(4) snd_conv)
    then show ?case unfolding c by (auto simp: tenant_view_db split: sum.split)
  qed
  show "in_tenant handleMaintenanceRun"
  proof (rule in_tenantI, goal_cases)
    case (1 e r p st)
    obtain d t u where run: "MaintenanceRun (sx_now e 0) (sx_now e 1) (sx_now e 2) (sv_retention st) (sv_db st) (sv_an st) (sv_audits st) = (d, t, u)"
      by (metis prod_cases3)
    note same = MaintenanceRun_view [OF run]
    have "tenant_view (pl_OrgID p) (st\<lparr>sv_db := d, sv_an := t, sv_audits := u\<rparr>) = tenant_view (pl_OrgID p) (st\<lparr>sv_db := d, sv_an := t\<rparr>)"
      by (rule tenant_view_settings) (simp add: same)
    also have "\<dots> = tenant_view (pl_OrgID p) (st\<lparr>sv_db := d\<rparr>)" by (rule tenant_view_an) (simp add: same)
    also have "\<dots> = tenant_view (pl_OrgID p) st" by (rule tenant_view_db, rule inventory_view, rule conjunct1 [OF same])
    finally show ?case unfolding handleMaintenanceRun_def run Let_def prod.case by simp
  qed
qed

lemma sites_in_tenant:
  "in_tenant handleCreateGroup" "in_tenant handleCreateSite" "in_tenant handleSiteTagsUpdate" "in_tenant handleUpdateSite" "in_tenant handleArchiveSite"
  "in_tenant handleDeleteSite"
proof -
  note frames = tenant_okD(3) snd_answer site_op_frames [OF tenant_okD(1)] tenant_view_db tenant_view_store_db
  show "in_tenant handleCreateGroup"
    by (rule in_tenantI, unfold handleCreateGroup_def, rule decodeJSON_snd) (simp add: frames)
  show "in_tenant handleCreateSite"
    by (rule in_tenantI, unfold handleCreateSite_def, rule decodeJSON_triple) (simp add: frames)
  show "in_tenant handleSiteTagsUpdate"
    by (rule site_handler_in_tenant, rule handleSiteTagsUpdate_def, rule decodeJSON_snd) (simp add: frames)
  show "in_tenant handleUpdateSite"
    by (rule site_handler_in_tenant, rule handleUpdateSite_def, rule decodeJSON_quad) (simp add: frames)
  show "in_tenant handleArchiveSite"
    by (rule site_handler_in_tenant, rule handleArchiveSite_def, rule decodeJSON_snd) (simp add: frames)
  show "in_tenant handleDeleteSite"
    by (rule site_handler_in_tenant, rule handleDeleteSite_def) (simp add: frames)
qed

lemma handlers_in_tenant:
  "(nm, h) \<in> set site_handlers \<Longrightarrow> in_tenant h" "(nm, h) \<in> set member_handlers \<Longrightarrow> in_tenant h"
proof -
  note all = reads_in_tenant resolve_in_tenant analytics_in_tenant audits_in_tenant observations_in_tenant accounts_in_tenant global_in_tenant sites_in_tenant
  have "list_all (\<lambda>x. in_tenant (snd x)) site_handlers"
    by (simp only: site_handlers_def list.pred_inject snd_conv all simp_thms)
  then show "(nm, h) \<in> set site_handlers \<Longrightarrow> in_tenant h" by (auto simp: list_all_iff)
  have "list_all (\<lambda>x. in_tenant (snd x)) member_handlers"
    by (simp only: member_handlers_def list.pred_inject snd_conv all simp_thms)
  then show "(nm, h) \<in> set member_handlers \<Longrightarrow> in_tenant h" by (auto simp: list_all_iff)
qed

subsection \<open>Behind the middleware\<close>

definition grants :: "'e auth_env_scheme \<Rightarrow> routeDef \<Rightarrow> http_request \<Rightarrow> acct \<Rightarrow> principal \<Rightarrow> bool" where
  "grants e def r a p \<longleftrightarrow> session_grant e (rd_action def) (rd_csrf def) r a p \<or> token_grant e (rd_tokenScopes def) r a p"

lemma register_cases:
  fixes st :: "'p server"
  assumes "acct_ok d (sr_acct st)" "rd_action def \<noteq> ''''"
  obtains (granted) p st' where "auth_frame st st'" "grants e def r (sr_acct st) p" "\<And>run :: string \<Rightarrow> http_request \<Rightarrow> principal \<Rightarrow> 'p server \<Rightarrow> body response \<times> 'p server. register e run def r st = run (rd_build def) r p st'"
  | (refused) resp st' where "auth_frame st st'" "\<And>p. \<not> grants e def r (sr_acct st) p" "rsp_status resp \<in> {401, 403, 429}"
      "\<And>run :: string \<Rightarrow> http_request \<Rightarrow> principal \<Rightarrow> 'p server \<Rightarrow> body response \<times> 'p server. register e run def r st = (resp, st')"
proof (cases "map_of (hq_cookies r) ''webfleet_session''")
  case None
  then have no: "\<not> session_grant e (rd_action def) (rd_csrf def) r (sr_acct st) p" for p by (simp add: session_grant_def)
  from authorize_token [where 'c = body and 'd = body, OF assms(1) None, of e "rd_tokenScopes def" "rd_action def" "rd_csrf def"] show ?thesis
  proof (elim exE conjE disjE, goal_cases)
    case (1 st' p)
    then show ?case by (intro granted [of st' p]) (simp_all add: grants_def register_def assms(2))
  next
    case (2 st' resp)
    then show ?case by (intro refused [of st' resp]) (simp_all add: grants_def no register_def assms(2))
  qed
next
  case (Some c)
  then have no: "\<not> token_grant e (rd_tokenScopes def) r (sr_acct st) p" for p by (simp add: token_grant_def)
  from authorize_session [where 'c = body and 'd = body, OF assms(1) Some, of e "rd_action def" "rd_csrf def" "rd_tokenScopes def"] show ?thesis
  proof (elim exE conjE disjE, goal_cases)
    case (1 st' p)
    then show ?case by (intro granted [of st' p]) (simp_all add: grants_def register_def assms(2))
  next
    case (2 st' resp)
    then show ?case by (intro refused [of st' resp]) (simp_all add: grants_def no register_def assms(2))
  qed
qed

lemma register_constant:
  fixes resp :: "body response"
  assumes "sr_acct st2 = sr_acct st1" "sr_tokenLim st2 = sr_tokenLim st1"
  shows "fst (register e (\<lambda>_ _ _ st. (resp, st)) def r st2) = fst (register e (\<lambda>_ _ _ st. (resp, st)) def r st1)"
proof (cases "rd_action def = ''''")
  case False
  let ?raw = "trim_space (drop 7 (header_get (rq_headers r) ''Authorization''))"
  obtain t a where auth: "Authenticate (nv_sha e) (nv_auth_time e) ?raw (sr_acct st1) = (t, a)" by fastforce
  obtain ok l where lim: "Allow (''token:'' @ ClientIP (nv_proxy e) (meta r)) (nv_limit_time e) (sr_tokenLim st1) = (ok, l)" by fastforce
  show ?thesis
  proof (cases "map_of (hq_cookies r) ''webfleet_session''")
    case None
    have "fst (tokenPrincipal e r (rd_tokenScopes def) st2) = (fst (tokenPrincipal e r (rd_tokenScopes def) st1) :: (body response option, principal) result)"
      using assms by (simp add: tokenPrincipal_def Let_def auth lim [simplified] split: sum.split)
    then obtain x :: "(body response option, principal) result" and s1 s2 where "tokenPrincipal e r (rd_tokenScopes def) st1 = (x, s1)" "tokenPrincipal e r (rd_tokenScopes def) st2 = (x, s2)"
      by (metis prod.collapse)
    with None False show ?thesis by (simp add: register_def authorize_def split: sum.split option.split)
  next
    case (Some c)
    obtain s a where "SessionOf (nv_parse_time e) (nv_sha e) (nv_auth_time e) c (sr_acct st1) = (s, a)" by fastforce
    with Some False assms show ?thesis by (simp add: register_def authorize_def Let_def split: sum.split)
  qed
qed (simp add: register_def)

lemma auth_frame_parts:
  assumes "auth_frame st st'"
  shows "sv_db st' = sv_db st" "sv_obs st' = sv_obs st" "sv_deploys st' = sv_deploys st" "sv_an st' = sv_an st" "sv_audits st' = sv_audits st"
    "ac_members (sr_acct st') = ac_members (sr_acct st)"
proof -
  from assms have st': "st' = st\<lparr>sr_tokenLim := sr_tokenLim st', sr_acct := (sr_acct st)\<lparr>ac_sessions := ac_sessions (sr_acct st'), ac_tokens := ac_tokens (sr_acct st')\<rparr>\<rparr>"
    by (simp only: auth_frame_def)
  show "sv_db st' = sv_db st" "sv_obs st' = sv_obs st" "sv_deploys st' = sv_deploys st" "sv_an st' = sv_an st" "sv_audits st' = sv_audits st"
    "ac_members (sr_acct st') = ac_members (sr_acct st)" by (subst st', simp)+
qed

lemma auth_frame_view:
  assumes "auth_frame st st'"
  shows "tenant_view org st' = tenant_view org st"
proof -
  from assms have toks: "map (\<lambda>t. t\<lparr>tk_used := None\<rparr>) (ac_tokens (sr_acct st')) = map (\<lambda>t. t\<lparr>tk_used := None\<rparr>) (ac_tokens (sr_acct st))"
    by (simp only: auth_frame_def)
  have flt: "map (\<lambda>t. t\<lparr>tk_used := None\<rparr>) (filter (\<lambda>t. tk_org t \<noteq> org) ts) = filter (\<lambda>t. tk_org t \<noteq> org) (map (\<lambda>t. t\<lparr>tk_used := None\<rparr>) ts)" for ts :: "token_row list"
    by (induction ts) auto
  show ?thesis unfolding tenant_view_def Let_def flt toks auth_frame_parts [OF assms] by simp
qed

text \<open>What the middleware needs of a table of handlers: the handlers of a site answer for a site the caller's organization does not own
  as if it did not exist, and no handler of a member touches the rows of other organizations.\<close>

locale handler_table =
  fixes run :: "string \<Rightarrow> http_request \<Rightarrow> principal \<Rightarrow> 'p server \<Rightarrow> body response \<times> 'p server"
    and site_names :: "string list"
    and member_names :: "string list"
    and ok :: "'p server \<Rightarrow> bool"
  assumes hidden: "nm \<in> set site_names \<Longrightarrow> ParseID (hq_id r) = Inr i \<Longrightarrow> hidden_site (pl_OrgID p) i (sv_db st) \<Longrightarrow>
      run nm r p st = (writeError 404 ''site not found'', st)"
    and contained: "nm \<in> set site_names \<union> set member_names \<Longrightarrow> ok st \<Longrightarrow> tenant_view (pl_OrgID p) (snd (run nm r p st)) = tenant_view (pl_OrgID p) st"
    and ok_frame: "ok st \<Longrightarrow> auth_frame st st' \<Longrightarrow> ok st'"
begin

lemma registered_hidden:
  assumes acct: "acct_ok d (sr_acct st)" and def: "rd_build def \<in> set site_names" "rd_action def \<noteq> ''''" and i: "ParseID (hq_id r) = Inr i"
    and hide: "\<forall>p. grants e def r (sr_acct st) p \<longrightarrow> hidden_site (pl_OrgID p) i (sv_db st)"
  shows "register e run def r st = register e (\<lambda>_ _ _ st. (writeError 404 ''site not found'', st)) def r st \<and>
    rsp_status (fst (register e run def r st)) \<in> {401, 403, 404, 429} \<and> auth_frame st (snd (register e run def r st))"
  using acct def(2)
proof (cases rule: register_cases [where e = e and r = r])
  case (granted p st')
  have "run (rd_build def) r p st' = (writeError 404 ''site not found'', st')"
    using hide granted(2) by (intro hidden [OF def(1) i]) (simp add: auth_frame_parts [OF granted(1)])
  then show ?thesis using granted by (simp add: writeError_def)
qed auto

lemma registered_contained:
  assumes acct: "acct_ok d (sr_acct st)" and def: "rd_build def \<in> set site_names \<union> set member_names" "rd_action def \<noteq> ''''" and "ok st"
    and org: "\<forall>p. grants e def r (sr_acct st) p \<longrightarrow> pl_OrgID p = org"
  shows "tenant_view org (snd (register e run def r st)) = tenant_view org st"
  using acct def(2)
proof (cases rule: register_cases [where e = e and r = r])
  case (granted p st')
  then show ?thesis using contained [OF def(1) ok_frame [OF \<open>ok st\<close> granted(1)], of p r] org auth_frame_view [OF granted(1)] by simp
qed (simp add: auth_frame_view)

end

subsection \<open>The API\<close>

lemma build_member:
  fixes e :: "('m, 'p, 'c) server_env"
  assumes "nm \<in> set member_handler_names"
  obtains h where "(nm, h) \<in> set member_handlers" "build other e nm = h e"
proof -
  from assms have "nm \<in> fst ` set (member_handlers :: (string \<times> ('m, 'p, 'c) handler) list)"
    by (metis member_handler_names_eq set_map)
  then obtain h :: "('m, 'p, 'c) handler" where h: "map_of member_handlers nm = Some h" by (metis map_of_eq_None_iff not_None_eq)
  have "nm \<notin> fst ` set (site_handlers :: (string \<times> ('m, 'p, 'c) handler) list)"
    using assms handler_names_disjoint by (metis list_all_iff site_handler_names_eq set_map)
  then have "map_of (site_handlers :: (string \<times> ('m, 'p, 'c) handler) list) nm = None" by (simp add: map_of_eq_None_iff)
  with h have "build other e nm = h e" by (simp add: build_def handlers_def map_add_def)
  with map_of_SomeD [OF h] show ?thesis by (rule that)
qed

interpretation api: handler_table "build other e" site_handler_names member_handler_names "tenant_ok e"
proof
  show "build other e nm r p st = (writeError 404 ''site not found'', st)"
    if "nm \<in> set site_handler_names" "ParseID (hq_id r) = Inr i" "hidden_site (pl_OrgID p) i (sv_db st)" for nm r i p st
    using build_site [OF that(1), of other e] site_handlers_hidden [OF _ that(2,3)] by metis
  show "tenant_view (pl_OrgID p) (snd (build other e nm r p st)) = tenant_view (pl_OrgID p) st"
    if "nm \<in> set site_handler_names \<union> set member_handler_names" "tenant_ok e st" for nm st p r
  proof -
    from that(1) obtain h where "in_tenant h" "build other e nm = h e"
      by (auto elim: build_site [of _ other e] build_member [of _ other e] dest: handlers_in_tenant)
    with that(2) show ?thesis by (simp add: in_tenant_def)
  qed
  show "tenant_ok e st'" if "tenant_ok e st" "auth_frame st st'" for st st'
    using that(1) by (simp add: tenant_ok_def auth_frame_parts [OF that(2)])
qed

text \<open>C39. A site of another organization cannot be told from one that does not exist. For every route of a site, a request whose
  session or token acts for organizations that do not own the site named in the path gets the same response from a database in which the site
  belongs to somebody else as from one in which it is absent; the response is a refusal or 404, and nothing changes but what the
  middleware keeps of the request.\<close>

theorem foreign_site_hidden:
  assumes "acct_ok d (sr_acct st)" and def: "def \<in> set apiRouteDefs" "has_prefix (rd_path def) ''/api/sites/{id}''"
    and i: "ParseID (hq_id r) = Inr i"
    and hide: "\<forall>p. grants e def r (sr_acct st) p \<longrightarrow> hidden_site (pl_OrgID p) i (sv_db st) \<and> hidden_site (pl_OrgID p) i d2"
  shows "fst (serve other e def r (st\<lparr>sv_db := d2\<rparr>)) = fst (serve other e def r st) \<and>
    rsp_status (fst (serve other e def r st)) \<in> {401, 403, 404, 429} \<and> auth_frame st (snd (serve other e def r st))"
proof -
  from def site_routes have names: "rd_build def \<in> set site_handler_names" "rd_action def \<noteq> ''''" by (auto simp: list_all_iff)
  note hidden = api.registered_hidden [OF _ names i, of d, where e = e and other = other and ea = e]
  let ?run = "\<lambda>st. register e (build other e) def r st" and ?const = "\<lambda>st. register e (\<lambda>_ _ _ st. (writeError 404 ''site not found'' :: body response, st)) def r st"
  have h1: "?run st = ?const st \<and> rsp_status (fst (?run st)) \<in> {401, 403, 404, 429} \<and> auth_frame st (snd (?run st))"
    using assms(1) hide by (intro hidden) simp_all
  have h2: "?run (st\<lparr>sv_db := d2\<rparr>) = ?const (st\<lparr>sv_db := d2\<rparr>)"
    using assms(1) hide by (intro conjunct1 [OF hidden]) simp_all
  have "fst (?const (st\<lparr>sv_db := d2\<rparr>)) = fst (?const st)" by (rule register_constant) simp_all
  then have "fst (?run (st\<lparr>sv_db := d2\<rparr>)) = fst (?run st)" by (simp only: h2 conjunct1 [OF h1])
  with conjunct2 [OF h1] show ?thesis unfolding serve_def by blast
qed


subsection \<open>A concrete server\<close>

definition sample_server_env :: "(account list, unit, unit) server_env" where
  "sample_server_env = \<lparr>nv_sha = id, nv_parse_time = (\<lambda>s. Some 0), nv_proxy = \<lparr>Trusted = []\<rparr>, nv_auth_time = 0, nv_limit_time = 0,
     sx_core = sample_core, sx_url = sample_net_url, sx_now = (\<lambda>_. 0), sx_random = (\<lambda>_. ''token''), sx_publicURL = '''',
     sx_oidc = sample_world, sx_ingest = sample_ingest, sx_group_order = id, sx_check = (\<lambda>_ _. sample_exchange (Inl (''timeout'', True)) ''''),
     sx_inspect = sample_inspection, sx_dns = sample_answer [], sx_hooks = sample_guard, sx_regexp = (\<lambda>_. Inl ''''), sx_rfc3339 = (\<lambda>_. True),
     sx_marshal = (\<lambda>_. ''null''), sx_db_bytes = None, sx_geo = None, sx_batch = (\<lambda>_ _ b. b), sx_propose = None\<rparr>"

text \<open>A user of organization 2 on a node whose only site belongs to organization 1.\<close>

definition two_orgs :: db where
  "two_orgs = init_db\<lparr>db_orgs := [\<lparr>org_id = 1, org_name = ''a''\<rparr>, \<lparr>org_id = 2, org_name = ''b''\<rparr>]\<rparr>"

definition tenant_server :: "unit server" where
  "tenant_server = \<lparr>sr_acct = sample_acct\<lparr>ac_members := [\<lparr>mb_org = 2, mb_user = 1, mb_role = ''owner'', mb_created = ''''\<rparr>]\<rparr>,
     sr_tokenLim = newRateLimiter (60 * second) 20 100, sv_db = tagged_db, sv_obs = sample_obs, sv_an = no_analytics,
     sv_analytics = fst sample_start, sv_audits = \<lparr>au_runs = [], au_settings = []\<rparr>, sv_crawls = \<lparr>ct_runs = [], ct_pages = [], ct_links = []\<rparr>,
     sv_deploys = [], sv_retention = None, sv_loginLim = newRateLimiter (60 * second) 10 100, sv_setupLim = newRateLimiter (60 * second) 5 100,
     sv_passwordLim = newRateLimiter (60 * second) 10 100, sv_auditing = {}, sv_crawling = {}, sv_providers = Map.empty, sv_jobs = []\<rparr>"

definition sample_delete :: http_request where
  "sample_delete = sample_request\<lparr>hq_id := ''1''\<rparr>"

definition delete_route :: routeDef where
  "delete_route = route ''DELETE'' ''/api/sites/{id}'' ''site.delete'' True ''handleDeleteSite'' [''sites:write'']"

lemma tenant_server_acct_ok: "acct_ok two_orgs (sr_acct tenant_server)"
  by (simp add: acct_ok_def tenant_server_def sample_acct_def init_acct_def sample_user_def init_db_def two_orgs_def)

lemma tenant_server_ok: "tenant_ok sample_server_env tenant_server"
  by (auto simp: tenant_ok_def tenant_server_def sample_server_env_def tagged_db_ok no_analytics_def batch_schedule_def)

lemma tenant_server_granted: "grants sample_server_env def r (sr_acct tenant_server) p \<Longrightarrow> pl_OrgID p = 2"
proof -
  assume "grants sample_server_env def r (sr_acct tenant_server) p"
  then obtain m where "pl_OrgID p = mb_org m" "m \<in> set (ac_members (sr_acct tenant_server))"
    by (auto simp: grants_def session_grant_def token_grant_def tenant_server_def sample_acct_def init_acct_def)
  then show ?thesis by (simp add: tenant_server_def)
qed

theorem foreign_site_hidden_witness:
  "fst (serve (\<lambda>_ e r p st. (noContent, st)) sample_server_env delete_route sample_delete (tenant_server\<lparr>sv_db := init_db\<rparr>)) =
     fst (serve (\<lambda>_ e r p st. (noContent, st)) sample_server_env delete_route sample_delete tenant_server) \<and>
   db_sites (sv_db tenant_server) \<noteq> []"
proof -
  have "delete_route \<in> set apiRouteDefs" by (simp add: delete_route_def apiRouteDefs_def)
  moreover have "has_prefix (rd_path delete_route) ''/api/sites/{id}''" by (simp add: delete_route_def route_def has_prefix_def)
  moreover have "ParseID (hq_id sample_delete) = Inr 1" by code_simp
  moreover have "hidden_site 2 1 (sv_db tenant_server)" "hidden_site 2 1 init_db"
    by (simp_all add: hidden_site_def tenant_server_def tagged_db_def sample_site_row_def init_db_def)
  ultimately have "fst (serve (\<lambda>_ e r p st. (noContent, st)) sample_server_env delete_route sample_delete (tenant_server\<lparr>sv_db := init_db\<rparr>)) =
     fst (serve (\<lambda>_ e r p st. (noContent, st)) sample_server_env delete_route sample_delete tenant_server)"
    using foreign_site_hidden [OF tenant_server_acct_ok, of delete_route sample_delete 1 sample_server_env init_db] tenant_server_granted by simp
  then show ?thesis by (simp add: tenant_server_def tagged_db_def)
qed


end
