(* ===== verification/Spec2Isabelle.thy ===== *)
theory Spec2Isabelle
  imports Claims Replication Snapshots Incidents Netguard Requestmeta Ratelimit Scheduler Oidc Sites Notifications Tenancy
begin

text \<open>
  Verification of Webfleet.
\<close>

end
